(* ===== verification/Vwifi_Prelude.thy ===== *)
theory Vwifi_Prelude
  imports Complex_Main "HOL-Library.Word"
begin

text \<open>
  Shared ground of the vwifi development: the integer types of \<^verbatim>\<open>src/src/types.h\<close> and the
  constants of \<^verbatim>\<open>src/src/config.h\<close>; the result type of code that can hit a failed
  \<^verbatim>\<open>assert\<close>, undefined behaviour or an uncaught exception; the little-endian layout of
  the integers that the programs copy to and from sockets; and the generic list lemmas that the
  component theories use.

  Two interfaces are stated here as locales. \<open>codec\<close> is what every fixed-size object on the
  wire promises (its bytes have a fixed width and decode to the object again); \<open>keeps\<close> is
  an operation that may fail and otherwise keeps an invariant, with the composition rules the
  server theories use.
\<close>

section \<open>Types of the source\<close>

text \<open>
  \<^verbatim>\<open>char\<close> buffers are lists of HOL's 8-bit \<^typ>\<open>char\<close>, so a \<^verbatim>\<open>std::string\<close> is a
  \<^typ>\<open>string\<close>. Descriptors are \<^typ>\<open>int\<close>: they are compared, never combined
  arithmetically. Indexes and container sizes are \<^typ>\<open>nat\<close>. Values that travel on a socket
  or whose width matters keep it. Signed types are the same words read with \<^const>\<open>sint\<close>.
\<close>

type_synonym byte = char
type_synonym TValue = "32 word"
type_synonym TCID = "32 word"
type_synonym TDescriptor = int
type_synonym TIndex = nat
type_synonym TPort = "16 word"
type_synonym TPower = "8 word"
type_synonym TFrequency = "32 word"

datatype TOrder = TORDER_NO | TORDER_LIST | TORDER_SHOW | TORDER_CHANGE_COORDINATE
  | TORDER_SETNAME | TORDER_PACKET_LOSS | TORDER_STATUS | TORDER_DISTANCE_BETWEEN_CID
  | TORDER_SET_SCALE | TORDER_CLOSE_ALL_CLIENT

definition TPower_MAX :: int where "TPower_MAX = -10"
definition TPower_MIN :: int where "TPower_MIN = -128"

definition WIFI_MAX_DECONNECTED_CLIENT :: nat where "WIFI_MAX_DECONNECTED_CLIENT = 15"
definition LOST_PACKET_BY_DEFAULT :: bool where "LOST_PACKET_BY_DEFAULT = False"
definition DEFAULT_WIFI_CLIENT_PORT_VHOST :: TPort where "DEFAULT_WIFI_CLIENT_PORT_VHOST = 8211"
definition DEFAULT_WIFI_CLIENT_PORT_INET :: TPort where
  "DEFAULT_WIFI_CLIENT_PORT_INET = DEFAULT_WIFI_CLIENT_PORT_VHOST + 1"
definition DEFAULT_WIFI_SPY_PORT :: TPort where
  "DEFAULT_WIFI_SPY_PORT = DEFAULT_WIFI_CLIENT_PORT_VHOST + 2"
definition DEFAULT_CTRL_PORT :: TPort where
  "DEFAULT_CTRL_PORT = DEFAULT_WIFI_CLIENT_PORT_VHOST + 3"
definition DEFAULT_ADDRESS_IP :: string where "DEFAULT_ADDRESS_IP = ''127.0.0.1''"
definition MAX_SIZE_NAME :: nat where "MAX_SIZE_NAME = 12"
definition TCID_GUEST_MIN :: TCID where "TCID_GUEST_MIN = 3"

text \<open>\<^verbatim>\<open>SOCKET_ERROR\<close> of csocket.h and \<^verbatim>\<open>SCHEDULER_ERROR\<close> of cselect.h.\<close>

definition SOCKET_ERROR :: int where "SOCKET_ERROR = -1"
definition SCHEDULER_ERROR :: int where "SCHEDULER_ERROR = -1"

section \<open>Failure as a value\<close>

text \<open>
  What stops a program other than returning: a failed \<^verbatim>\<open>assert\<close> (the release build keeps
  them), an operation the C++ standard leaves undefined (reading outside a container or past the
  initialised part of a buffer, signed overflow, an out-of-range conversion), an exception that
  nothing catches, and a call of \<^verbatim>\<open>exit(EXIT_FAILURE)\<close>.
\<close>

datatype fault = Assertion_failed | Undefined_behaviour | Uncaught_exception | Exit_failure

type_synonym 'a result = "fault + 'a"

abbreviation Ok :: "'a \<Rightarrow> 'a result" where "Ok \<equiv> Inr"
abbreviation Fault :: "fault \<Rightarrow> 'a result" where "Fault \<equiv> Inl"

definition rbind :: "'a result \<Rightarrow> ('a \<Rightarrow> 'b result) \<Rightarrow> 'b result" where
  "rbind m f = (case m of Inl e \<Rightarrow> Inl e | Inr x \<Rightarrow> f x)"

definition assertion :: "bool \<Rightarrow> unit result" where
  "assertion b = (if b then Ok () else Fault Assertion_failed)"

definition defined :: "bool \<Rightarrow> unit result" where
  "defined b = (if b then Ok () else Fault Undefined_behaviour)"

text \<open>The result of a signed 32-bit operation: overflow is undefined.\<close>

definition in_s32 :: "int \<Rightarrow> bool" where
  "in_s32 i \<longleftrightarrow> - (2 ^ 31) \<le> i \<and> i < 2 ^ 31"

definition s32 :: "int \<Rightarrow> int result" where
  "s32 i = (if in_s32 i then Ok i else Fault Undefined_behaviour)"

text \<open>\<open>nth_r xs i\<close> is \<^verbatim>\<open>v[i]\<close> on a vector: undefined outside its range.\<close>

definition nth_r :: "'a list \<Rightarrow> nat \<Rightarrow> 'a result" where
  "nth_r xs i = (if i < length xs then Ok (xs ! i) else Fault Undefined_behaviour)"

text \<open>\<open>erase_r i xs\<close> is \<^verbatim>\<open>v.erase(v.begin()+i)\<close>: undefined unless \<open>i\<close> is an element's index.\<close>

definition erase :: "nat \<Rightarrow> 'a list \<Rightarrow> 'a list" where
  "erase i xs = take i xs @ drop (Suc i) xs"

definition erase_r :: "nat \<Rightarrow> 'a list \<Rightarrow> 'a list result" where
  "erase_r i xs = (if i < length xs then Ok (erase i xs) else Fault Undefined_behaviour)"

text \<open>\<^verbatim>\<open>isspace\<close> in the C locale.\<close>

definition is_space :: "char \<Rightarrow> bool" where
  "is_space c \<longleftrightarrow> of_char c = (32 :: nat) \<or> (9 \<le> (of_char c :: nat) \<and> of_char c \<le> (13 :: nat))"

text \<open>
  A string in memory, up to its first zero byte, which must be among the bytes that were received; and \<open>n\<close> bytes
  read or written at an offset of an object that is the given bytes.
\<close>

definition cstring :: "byte list \<Rightarrow> string result" where
  "cstring data = rbind (defined (CHR 0x00 \<in> set data)) (\<lambda>_. Ok (takeWhile (\<lambda>c. c \<noteq> CHR 0x00) data))"

definition bytes_at :: "nat \<Rightarrow> nat \<Rightarrow> byte list \<Rightarrow> byte list result" where
  "bytes_at off n m =
     (if off + n \<le> length m then Ok (take n (drop off m)) else Fault Undefined_behaviour)"

definition write_at :: "nat \<Rightarrow> byte list \<Rightarrow> byte list \<Rightarrow> byte list result" where
  "write_at off bs m =
     (if off + length bs \<le> length m then Ok (take off m @ bs @ drop (off + length bs) m)
      else Fault Undefined_behaviour)"

section \<open>Integers as bytes\<close>

text \<open>
  The programs write \<^verbatim>\<open>reinterpret_cast<char*>(&v)\<close> of \<^verbatim>\<open>sizeof(v)\<close> bytes, so the host's
  byte order is on the wire: little-endian, on the x86 guests and hosts vwifi runs on.
\<close>

fun le_bytes :: "nat \<Rightarrow> nat \<Rightarrow> byte list" where
  "le_bytes 0 n = []"
| "le_bytes (Suc k) n = char_of n # le_bytes k (n div 256)"

fun le_nat :: "byte list \<Rightarrow> nat" where
  "le_nat [] = 0"
| "le_nat (b # bs) = of_char b + 256 * le_nat bs"

definition put_word :: "'a::len word \<Rightarrow> byte list" where
  "put_word w = le_bytes (LENGTH('a) div 8) (unat w)"

definition get_word :: "byte list \<Rightarrow> 'a::len word" where
  "get_word bs = word_of_nat (le_nat bs)"

text \<open>A \<^verbatim>\<open>bool\<close> is one byte; a \<^verbatim>\<open>TOrder\<close> is four, the position in the enumeration.\<close>

definition put_bool :: "bool \<Rightarrow> byte list" where
  "put_bool b = [if b then CHR 0x01 else CHR 0x00]"

definition get_bool :: "byte list \<Rightarrow> bool" where
  "get_bool bs = (bs \<noteq> [CHR 0x00])"

fun order_code :: "TOrder \<Rightarrow> 32 word" where
  "order_code TORDER_NO = 0"
| "order_code TORDER_LIST = 1"
| "order_code TORDER_SHOW = 2"
| "order_code TORDER_CHANGE_COORDINATE = 3"
| "order_code TORDER_SETNAME = 4"
| "order_code TORDER_PACKET_LOSS = 5"
| "order_code TORDER_STATUS = 6"
| "order_code TORDER_DISTANCE_BETWEEN_CID = 7"
| "order_code TORDER_SET_SCALE = 8"
| "order_code TORDER_CLOSE_ALL_CLIENT = 9"

definition put_order :: "TOrder \<Rightarrow> byte list" where
  "put_order r = put_word (order_code r)"

section \<open>Lemma collections\<close>

named_theorems res_simps \<open>evaluation of the result type\<close>
named_theorems wire_simps \<open>widths and decoding of the objects on the wire\<close>
named_theorems frame_simps \<open>the parts of a state an operation leaves alone\<close>

section \<open>Results\<close>

lemma rbind_simps [simp, res_simps]:
  "rbind (Inr x) f = f x" "rbind (Inl e) f = Inl e"
  by (simp_all add: rbind_def)

lemma rbind_Inr_iff: "rbind m f = Inr y \<longleftrightarrow> (\<exists>x. m = Inr x \<and> f x = Inr y)"
  by (cases m) auto

lemma rbind_InrE [elim]:
  assumes "rbind m f = Inr y"
  obtains x where "m = Inr x" and "f x = Inr y"
  using assms by (auto simp: rbind_Inr_iff)

lemma rbind_cong [fundef_cong]:
  "m = m' \<Longrightarrow> (\<And>x. m' = Inr x \<Longrightarrow> f x = g x) \<Longrightarrow> rbind m f = rbind m' g"
  by (cases m') auto

lemma rbind_assoc: "rbind (rbind m f) g = rbind m (\<lambda>x. rbind (f x) g)"
  by (cases m) auto

lemma assertion_simps [simp, res_simps]:
  "assertion True = Ok ()" "assertion False = Fault Assertion_failed"
  "assertion b = Ok u \<longleftrightarrow> b"
  by (simp_all add: assertion_def)

lemma defined_simps [simp, res_simps]:
  "defined True = Ok ()" "defined False = Fault Undefined_behaviour"
  "defined b = Ok u \<longleftrightarrow> b"
  by (simp_all add: defined_def)

lemma nth_r_Ok [simp]: "i < length xs \<Longrightarrow> nth_r xs i = Ok (xs ! i)"
  by (simp add: nth_r_def)

lemma nth_r_Inr_iff: "nth_r xs i = Inr x \<longleftrightarrow> i < length xs \<and> x = xs ! i"
  by (auto simp: nth_r_def)

lemma erase_r_Ok [simp]: "i < length xs \<Longrightarrow> erase_r i xs = Ok (erase i xs)"
  by (simp add: erase_r_def)

lemma erase_r_Inr_iff: "erase_r i xs = Inr ys \<longleftrightarrow> i < length xs \<and> ys = erase i xs"
  by (auto simp: erase_r_def)

lemma length_erase [simp]: "i < length xs \<Longrightarrow> length (erase i xs) = length xs - 1"
  by (simp add: erase_def)

lemma erase_0 [simp]: "erase 0 (x # xs) = xs"
  by (simp add: erase_def)

lemma erase_append_mid [simp]: "erase (length xs) (xs @ y # ys) = xs @ ys"
  by (simp add: erase_def)

lemma set_erase_subset: "set (erase i xs) \<subseteq> set xs"
  by (auto simp: erase_def dest: in_set_takeD in_set_dropD)

lemma map_erase: "map f (erase i xs) = erase i (map f xs)"
  by (simp add: erase_def take_map drop_map)

lemma erase_split:
  "i < length xs \<Longrightarrow> xs = take i xs @ xs ! i # drop (Suc i) xs"
  by (simp add: id_take_nth_drop)

lemma set_erase_distinct:
  assumes "distinct xs" and "i < length xs"
  shows "set (erase i xs) = set xs - {xs ! i}"
proof -
  have eq: "xs = take i xs @ xs ! i # drop (Suc i) xs"
    using assms(2) by (rule erase_split)
  have "distinct (take i xs @ xs ! i # drop (Suc i) xs)"
    using assms(1) eq by simp
  then have "xs ! i \<notin> set (take i xs) \<union> set (drop (Suc i) xs)"
    by auto
  moreover have "set xs = insert (xs ! i) (set (take i xs) \<union> set (drop (Suc i) xs))"
    using arg_cong [OF eq, of set] by auto
  ultimately show ?thesis
    by (auto simp: erase_def)
qed

lemma distinct_erase: "distinct xs \<Longrightarrow> distinct (erase i xs)"
  by (auto simp: erase_def distinct_take distinct_drop set_take_disj_set_drop_if_distinct)

lemma erase_zip:
  "length xs = length ys \<Longrightarrow> erase i (zip xs ys) = zip (erase i xs) (erase i ys)"
  by (simp add: erase_def take_zip drop_zip)

lemma list_all_erase: "list_all P xs \<Longrightarrow> list_all P (erase i xs)"
  using set_erase_subset by (fastforce simp: list_all_iff)

section \<open>An operation that may fail and keeps an invariant\<close>

text \<open>
  The operations of the server either stop the program or return a new state. The interface says
  what every one of them promises; the client lemmas compose such operations in sequence and
  over a list of events, which is how the main loop uses them.
\<close>

fun run_events :: "('e \<Rightarrow> 's \<Rightarrow> 's result) \<Rightarrow> 'e list \<Rightarrow> 's \<Rightarrow> 's result" where
  "run_events op [] s = Ok s"
| "run_events op (e # es) s = rbind (op e s) (run_events op es)"

lemma run_events_append:
  "run_events op (es @ fs) s = rbind (run_events op es s) (run_events op fs)"
  by (induction es arbitrary: s) (simp_all add: rbind_assoc cong: rbind_cong)

lemma run_events_guard:
  "\<forall>e \<in> set es. P e \<Longrightarrow> run_events (\<lambda>e s. if P e then op e s else Ok s) es s = run_events op es s"
  by (induction es arbitrary: s) (auto cong: rbind_cong)

lemma run_events_total:
  assumes "Q s" and "\<And>i s. i \<in> set es \<Longrightarrow> Q s \<Longrightarrow> \<exists>s'. op i s = Inr s' \<and> Q s'"
  shows "\<exists>s'. run_events op es s = Inr s' \<and> Q s'"
  using assms
proof (induction es arbitrary: s)
  case (Cons e es)
  then obtain t where "op e s = Inr t" "Q t" by force
  with Cons show ?case by simp
qed simp

locale keeps =
  fixes Inv :: "'s \<Rightarrow> bool"
    and op :: "'e \<Rightarrow> 's \<Rightarrow> 's result"
  assumes step_keeps: "Inv s \<Longrightarrow> op e s = Inr s' \<Longrightarrow> Inv s'"
begin

lemma run_keeps: "Inv s \<Longrightarrow> run_events op es s = Inr s' \<Longrightarrow> Inv s'"
proof (induction es arbitrary: s)
  case Nil
  then show ?case by simp
next
  case (Cons e es)
  then obtain t where "op e s = Inr t" and "run_events op es t = Inr s'"
    by (auto simp: rbind_Inr_iff)
  with Cons.prems(1) Cons.IH show ?case
    by (blast dest: step_keeps)
qed

end

section \<open>Fixed-width objects on the wire\<close>

locale codec =
  fixes put :: "'a \<Rightarrow> byte list"
    and get :: "byte list \<Rightarrow> 'a"
    and width :: nat
  assumes put_width: "length (put x) = width"
    and get_put: "get (put x) = x"
begin

lemma put_inject: "put x = put y \<longleftrightarrow> x = y"
  by (metis get_put)

lemma get_take_put: "get (take width (put x @ r)) = x"
  by (simp add: put_width get_put)

lemma drop_put: "drop width (put x @ r) = r"
  by (simp add: put_width)

lemma put_append_inject: "put x @ r = put y @ s \<longleftrightarrow> x = y \<and> r = s"
  by (metis append_eq_append_conv put_inject put_width)

text \<open>A sequence of such objects is decoded without any separator.\<close>

lemma concat_put_inject: "concat (map put xs) = concat (map put ys) \<Longrightarrow> width > 0 \<Longrightarrow> xs = ys"
proof (induction xs arbitrary: ys)
  case Nil
  then show ?case
    by (cases ys) (auto simp flip: length_0_conv simp: put_width)
next
  case (Cons x xs)
  then show ?case
  proof (cases ys)
    case Nil
    with Cons.prems show ?thesis
      by (auto simp flip: length_0_conv simp: put_width)
  next
    case (Cons y zs)
    with Cons.prems Cons.IH show ?thesis
      by (simp add: put_append_inject)
  qed
qed

end

lemma length_le_bytes [simp]: "length (le_bytes k n) = k"
  by (induction k arbitrary: n) auto

lemma le_nat_le_bytes: "le_nat (le_bytes k n) = n mod 256 ^ k"
proof (induction k arbitrary: n)
  case 0
  then show ?case by simp
next
  case (Suc k)
  have "n mod (256 * 256 ^ k) = 256 * (n div 256 mod 256 ^ k) + n mod 256"
    by (rule mod_mult2_eq)
  with Suc show ?case
    by (simp add: mult.commute)
qed

lemma le_nat_bound: "le_nat bs < 256 ^ length bs"
proof (induction bs)
  case Nil
  then show ?case by simp
next
  case (Cons b bs)
  show ?case
    unfolding le_nat.simps list.size add_0_right add_Suc_right power_Suc
    using Cons nat_of_char_less_256 [of b] by linarith
qed

lemma length_put_word: "length (put_word (w :: 'a::len word)) = LENGTH('a) div 8"
  by (simp add: put_word_def)

lemma get_put_word:
  assumes "8 dvd LENGTH('a::len)"
  shows "get_word (put_word w) = (w :: 'a word)"
proof -
  have "(256 :: nat) ^ (LENGTH('a) div 8) = (2 ^ 8) ^ (LENGTH('a) div 8)"
    by simp
  also have "\<dots> = 2 ^ LENGTH('a)"
    using assms by (simp only: power_mult [symmetric] dvd_mult_div_cancel)
  finally have "(256 :: nat) ^ (LENGTH('a) div 8) = 2 ^ LENGTH('a)" .
  then show ?thesis
    by (simp add: put_word_def get_word_def le_nat_le_bytes)
qed

interpretation u8c: codec "put_word :: 8 word \<Rightarrow> _" get_word 1
  by unfold_locales (simp_all add: length_put_word get_put_word)

interpretation u16c: codec "put_word :: 16 word \<Rightarrow> _" get_word 2
  by unfold_locales (simp_all add: length_put_word get_put_word)

interpretation u32c: codec "put_word :: 32 word \<Rightarrow> _" get_word 4
  by unfold_locales (simp_all add: length_put_word get_put_word)

interpretation u64c: codec "put_word :: 64 word \<Rightarrow> _" get_word 8
  by unfold_locales (simp_all add: length_put_word get_put_word)

interpretation boolc: codec put_bool get_bool 1
  by unfold_locales (auto simp: put_bool_def get_bool_def)

lemmas put_widths [simp, wire_simps] =
  u8c.put_width u16c.put_width u32c.put_width u64c.put_width boolc.put_width

lemmas get_puts [simp, wire_simps] =
  u8c.get_put u16c.get_put u32c.get_put u64c.get_put boolc.get_put

lemma order_code_inject: "order_code a = order_code b \<longleftrightarrow> a = b"
  by (cases a; cases b) simp_all

lemma length_put_order [simp, wire_simps]: "length (put_order r) = 4"
  by (simp add: put_order_def)

lemma bytes_at_ok: "off + n \<le> length m \<Longrightarrow> bytes_at off n m = Ok (take n (drop off m))"
  by (simp add: bytes_at_def)

lemma sint_word_of_nat: "n < 2147483648 \<Longrightarrow> sint (word_of_nat n :: 32 word) = int n"
proof -
  assume n: "n < 2147483648"
  have "sint (word_of_nat n :: 32 word) = sint (word_of_int (int n) :: 32 word)" by simp
  also have "\<dots> = int n"
    unfolding signed_of_int of_int_eq_id id_def using n by (intro signed_take_bit_int_eq_self) simp_all
  finally show ?thesis .
qed

end
