(* ===== verification/Vwifi_Tools.thy ===== *)
theory Vwifi_Tools
  imports Vwifi_Prelude
begin

text \<open>
  The helpers of \<^verbatim>\<open>src/src/tools.cc\<close>: the argument checks \<^verbatim>\<open>isInt\<close>, \<^verbatim>\<open>isPositiveInt\<close>
  and \<^verbatim>\<open>isIntOrFloat\<close> that the three command-line programs run before they convert an
  argument, and \<^verbatim>\<open>hash_ipaddr\<close>, which names a TCP client. The standard library's decimal
  conversions \<^verbatim>\<open>atoi\<close>, \<^verbatim>\<open>std::stoi\<close> and the decimal output of \<^verbatim>\<open>ostream\<close> stand here
  too. The lemmas characterise the accepted strings, show when an accepted string still makes
  \<^verbatim>\<open>stoi\<close> throw, that printing and parsing are inverse, and what the hash keeps of an address.
\<close>

unbundle bit_operations_syntax

section \<open>Definitions\<close>

definition is_digit :: "char \<Rightarrow> bool" where
  "is_digit c \<longleftrightarrow> \<not> (of_char c < (48 :: nat) \<or> of_char c > (57 :: nat))"

definition is_sign :: "char \<Rightarrow> bool" where
  "is_sign c \<longleftrightarrow> c = CHR ''-'' \<or> c = CHR ''+''"

fun isInt_loop :: "string \<Rightarrow> bool" where
  "isInt_loop [] = True"
| "isInt_loop (c # cs) = (if \<not> is_digit c then False else isInt_loop cs)"

fun skip_sign :: "string \<Rightarrow> string" where
  "skip_sign [] = []"
| "skip_sign (c # cs) = (if is_sign c then cs else c # cs)"

definition isInt :: "string \<Rightarrow> bool" where
  "isInt str = isInt_loop (skip_sign str)"

definition isPositiveInt :: "string \<Rightarrow> bool" where
  "isPositiveInt str =
     (case str of c # _ \<Rightarrow> if c = CHR ''-'' then False else isInt str | [] \<Rightarrow> isInt str)"

fun isIntOrFloat_loop :: "string \<Rightarrow> bool \<Rightarrow> bool \<Rightarrow> bool" where
  "isIntOrFloat_loop [] seeDot seeDigit = seeDigit"
| "isIntOrFloat_loop (c # cs) seeDot seeDigit =
     (if c = CHR ''.'' then
        (if seeDot then False else isIntOrFloat_loop cs True seeDigit)
      else if \<not> is_digit c then False
      else isIntOrFloat_loop cs seeDot True)"

definition isIntOrFloat :: "string \<Rightarrow> bool" where
  "isIntOrFloat str = isIntOrFloat_loop (skip_sign str) False False"

text \<open>
  The value of the leading digits, and the two conversions. An unrepresentable value is undefined
  for \<^verbatim>\<open>atoi\<close>; \<^verbatim>\<open>stoi\<close> throws, and also when there is no digit. Leading white space, which
  both skip, is refused by every check above, so the conversions are given on the strings after it.
\<close>

fun digits_val :: "nat \<Rightarrow> string \<Rightarrow> nat" where
  "digits_val acc [] = acc"
| "digits_val acc (c # cs) =
     (if is_digit c then digits_val (10 * acc + (of_char c - 48)) cs else acc)"

definition signed_val :: "string \<Rightarrow> int" where
  "signed_val str =
     (let v = int (digits_val 0 (skip_sign str))
      in case str of c # _ \<Rightarrow> if c = CHR ''-'' then - v else v | [] \<Rightarrow> v)"

definition atoi :: "string \<Rightarrow> int result" where
  "atoi str = (if in_s32 (signed_val str) then Ok (signed_val str) else Fault Undefined_behaviour)"

definition stoi :: "string \<Rightarrow> int result" where
  "stoi str =
     (case skip_sign str of
        [] \<Rightarrow> Fault Uncaught_exception
      | c # _ \<Rightarrow> if \<not> is_digit c then Fault Uncaught_exception
          else if in_s32 (signed_val str) then Ok (signed_val str)
          else Fault Uncaught_exception)"

text \<open>\<^verbatim>\<open>os << n\<close>.\<close>

fun show_nat :: "nat \<Rightarrow> string" where
  "show_nat n =
     (if n < 10 then [char_of (48 + n)] else show_nat (n div 10) @ [char_of (48 + n mod 10)])"

declare show_nat.simps [simp del]

definition show_int :: "int \<Rightarrow> string" where
  "show_int i = (if i < 0 then CHR ''-'' # show_nat (nat (- i)) else show_nat (nat i))"

text \<open>
  \<^verbatim>\<open>struct sockaddr_in\<close> and \<^verbatim>\<open>struct sockaddr_vm\<close> of a peer, the fields the source reads.
  The 32-bit sum is widened to \<^verbatim>\<open>unsigned long\<close> on assignment.
\<close>

record sockaddr =
  s_addr :: "32 word"
  sin_port :: "16 word"
  svm_cid :: "32 word"

definition hash_ipaddr :: "bool \<Rightarrow> sockaddr \<Rightarrow> 64 word" where
  "hash_ipaddr HashUsesPort addr =
     (let a = s_addr addr;
          res = ucast ((drop_bit 24 a AND 0xff) * 256 + (drop_bit 16 a AND 0xff) * 256 +
                       (drop_bit 8 a AND 0xff) * 256 + (a AND 0xff) :: 32 word)
      in if HashUsesPort then res + ucast (sin_port addr) else res)"

section \<open>The accepted strings\<close>

lemma isInt_loop_iff [simp]: "isInt_loop s \<longleftrightarrow> list_all is_digit s"
  by (induction s) auto

lemma sign_not_digit [simp]: "is_sign c \<Longrightarrow> \<not> is_digit c"
  by (auto simp: is_sign_def is_digit_def)

lemma skip_sign_cases:
  obtains (unsigned) "skip_sign s = s" "\<forall>c cs. s = c # cs \<longrightarrow> \<not> is_sign c"
    | (signed) c where "is_sign c" "s = c # skip_sign s"
  by (cases s) auto

lemma isInt_iff:
  "isInt s \<longleftrightarrow> list_all is_digit s \<or>
     (\<exists>c ds. s = c # ds \<and> (c = CHR ''-'' \<or> c = CHR ''+'') \<and> list_all is_digit ds)"
proof (cases s)
  case Nil
  then show ?thesis by (simp add: isInt_def)
next
  case (Cons c cs)
  then show ?thesis
    using sign_not_digit [of c] by (cases "is_sign c") (auto simp: isInt_def is_sign_def)
qed

lemma isIntOrFloat_loop_iff:
  "isIntOrFloat_loop s dot dig \<longleftrightarrow>
     list_all (\<lambda>c. is_digit c \<or> c = CHR ''.'') s \<and>
     count_list s CHR ''.'' + of_bool dot \<le> 1 \<and>
     (dig \<or> list_ex is_digit s)"
proof (induction s dot dig rule: isIntOrFloat_loop.induct)
  case (1 dot dig)
  show ?case by auto
next
  case (2 c cs dot dig)
  have "\<not> is_digit CHR ''.''" by (simp add: is_digit_def)
  with 2 show ?case by (cases "c = CHR ''.''") auto
qed

section \<open>Conversions\<close>

lemma is_digit_char_of [simp]: "n < 10 \<Longrightarrow> is_digit (char_of (48 + n :: nat))"
  by (simp add: is_digit_def)

lemma digits_val_append:
  "list_all is_digit xs \<Longrightarrow> digits_val acc (xs @ ys) = digits_val (digits_val acc xs) ys"
  by (induction xs arbitrary: acc) auto

lemma show_nat_digits: "list_all is_digit (show_nat n)" and show_nat_nonempty: "show_nat n \<noteq> []"
proof (induction n rule: show_nat.induct)
  case (1 n)
  {
    case 1
    show ?case
      using "1.IH" by (cases "n < 10") (simp_all add: show_nat.simps [of n])
  next
    case 2
    show ?case by (simp add: show_nat.simps [of n])
  }
qed

lemma digits_val_show_nat: "digits_val 0 (show_nat n) = n"
proof (induction n rule: show_nat.induct)
  case (1 n)
  show ?case
  proof (cases "n < 10")
    case True
    then show ?thesis by (simp add: show_nat.simps [of n])
  next
    case False
    with "1.IH" have "digits_val 0 (show_nat (n div 10)) = n div 10" by simp
    with False show ?thesis
      by (simp add: show_nat.simps [of n] digits_val_append show_nat_digits)
  qed
qed

lemma show_nat_first:
  obtains c cs where "show_nat n = c # cs" "is_digit c" "\<not> is_sign c"
proof -
  obtain c cs where "show_nat n = c # cs"
    using show_nat_nonempty by (cases "show_nat n") auto
  with show_nat_digits [of n] have "show_nat n = c # cs" "is_digit c" by auto
  with sign_not_digit that show thesis by blast
qed

lemma skip_sign_show_int: "skip_sign (show_int i) = show_nat (nat \<bar>i\<bar>)"
  by (rule show_nat_first [of "nat \<bar>i\<bar>"]) (auto simp: show_int_def is_sign_def)

lemma signed_val_show_int: "signed_val (show_int i) = i"
proof (cases "i < 0")
  case True
  then show ?thesis
    by (simp add: signed_val_def Let_def skip_sign_show_int digits_val_show_nat)
       (simp add: show_int_def)
next
  case False
  obtain c cs where c: "show_nat (nat i) = c # cs" "\<not> is_sign c"
    by (rule show_nat_first)
  with False have "show_int i = c # cs" "c \<noteq> CHR ''-''"
    by (auto simp: show_int_def is_sign_def)
  moreover have "digits_val 0 (skip_sign (show_int i)) = nat i"
    using False by (simp add: skip_sign_show_int digits_val_show_nat)
  ultimately show ?thesis
    using False by (simp add: signed_val_def Let_def)
qed

lemma isInt_show_int: "isInt (show_int i)"
  by (simp add: isInt_def skip_sign_show_int show_nat_digits)

lemma stoi_isPositiveInt:
  assumes "isPositiveInt s"
  shows "stoi s = (if s \<in> {'''', ''+''} \<or> \<not> signed_val s < 2 ^ 31
                   then Fault Uncaught_exception else Ok (signed_val s))"
proof -
  have nonneg: "0 \<le> signed_val s"
    using assms by (auto simp: isPositiveInt_def signed_val_def Let_def split: list.splits if_splits)
  have digits: "list_all is_digit (skip_sign s)"
    using assms by (auto simp: isPositiveInt_def isInt_def split: list.splits if_splits)
  have empty: "skip_sign s = [] \<longleftrightarrow> s \<in> {'''', ''+''}"
    using assms
    by (cases s) (auto simp: isPositiveInt_def is_sign_def split: if_splits)
  show ?thesis
    using nonneg digits empty
    by (cases "skip_sign s") (auto simp: stoi_def in_s32_def)
qed

section \<open>The client identifier\<close>

definition octet :: "nat \<Rightarrow> 32 word \<Rightarrow> nat" where
  "octet k a = unat a div 256 ^ k mod 256"

lemma octet_word: "unat (drop_bit (8 * k) a AND 0xff :: 32 word) = octet k a"
proof -
  have "drop_bit (8 * k) a AND 0xff = take_bit 8 (drop_bit (8 * k) a)"
    by (simp add: take_bit_eq_mask mask_eq_exp_minus_1)
  moreover have "take_bit 32 (unat a) = unat a"
    using unsigned_less [of a] by (simp add: take_bit_nat_eq_self_iff)
  ultimately have "unat (drop_bit (8 * k) a AND 0xff) = take_bit 8 (drop_bit (8 * k) (unat a))"
    by (simp add: unsigned_take_bit_eq unsigned_drop_bit_eq)
  then show ?thesis
    by (simp add: octet_def take_bit_eq_mod drop_bit_eq_div power_mult)
qed

lemma octet_less: "octet k a < 256"
  by (simp add: octet_def)

lemma unat_hash_ipaddr:
  "unat (hash_ipaddr HashUsesPort addr) =
     256 * (octet 1 (s_addr addr) + octet 2 (s_addr addr) + octet 3 (s_addr addr)) +
     octet 0 (s_addr addr) + (if HashUsesPort then unat (sin_port addr) else 0)"
proof -
  define a where "a = s_addr addr"
  define r :: "32 word" where "r = (drop_bit 24 a AND 0xff) * 256 + (drop_bit 16 a AND 0xff) * 256 +
    (drop_bit 8 a AND 0xff) * 256 + (a AND 0xff)"
  note o = octet_word [of 3 a] octet_word [of 2 a] octet_word [of 1 a] octet_word [of 0 a]
  note b = octet_less [of 3 a] octet_less [of 2 a] octet_less [of 1 a] octet_less [of 0 a]
  have r: "unat r = 256 * (octet 1 a + octet 2 a + octet 3 a) + octet 0 a"
    using o b by (simp add: r_def unat_word_ariths)
  moreover have "unat (ucast r :: 64 word) = unat r"
    by (simp add: unsigned_ucast_eq take_bit_nat_eq_self_iff order.strict_trans2 [OF unsigned_less])
  moreover have "unat (sin_port addr) < 2 ^ 16"
    using unsigned_less [of "sin_port addr"] by simp
  moreover have "unat (ucast (sin_port addr) :: 64 word) = unat (sin_port addr)"
    by (simp add: unsigned_ucast_eq take_bit_nat_eq_self_iff order.strict_trans2 [OF unsigned_less])
  ultimately show ?thesis
    using b by (simp add: hash_ipaddr_def Let_def flip: a_def r_def) (simp add: unat_word_ariths)
qed

section \<open>Properties\<close>


text \<open>
  C39: the programs guard \<^verbatim>\<open>std::stoi\<close> with \<^verbatim>\<open>isPositiveInt\<close>, but an accepted string still
  makes it throw when it has no digit or does not fit 31 bits; otherwise its value is returned.
\<close>

theorem stoi_after_check:
  assumes "isPositiveInt s"
  shows "stoi s = (if s \<in> {'''', ''+''} \<or> \<not> signed_val s < 2 ^ 31
                   then Fault Uncaught_exception else Ok (signed_val s))"
  using assms by (rule stoi_isPositiveInt)

theorem stoi_after_check_witness:
  "isPositiveInt ''8214'' \<and> stoi ''8214'' = Ok 8214 \<and> isPositiveInt ''+'' \<and>
   stoi ''+'' = Fault Uncaught_exception"
proof -
  have a: "isPositiveInt ''8214''" "isPositiveInt ''+''" by code_simp+
  have v: "signed_val ''8214'' = 8214" by code_simp
  show ?thesis
    using stoi_after_check [OF a(1)] stoi_after_check [OF a(2)] a v by simp
qed

text \<open>
  A 32-bit integer printed in decimal, as \<^verbatim>\<open>vwifi-ctrl\<close> prints coordinates, is accepted by
  \<^verbatim>\<open>isInt\<close> and read back unchanged by \<^verbatim>\<open>atoi\<close> and \<^verbatim>\<open>stoi\<close>.
\<close>

theorem print_parse_int:
  "isInt (show_int (sint (w :: TValue))) \<and> atoi (show_int (sint w)) = Ok (sint w) \<and>
   stoi (show_int (sint w)) = Ok (sint w)"
proof (intro conjI)
  have r: "in_s32 (sint w)"
    using sint_ge [of w] sint_lt [of w] by (simp add: in_s32_def)
  obtain c cs where c: "show_nat (nat \<bar>sint w\<bar>) = c # cs" "is_digit c"
    by (rule show_nat_first)
  show "isInt (show_int (sint w))" by (rule isInt_show_int)
  show "atoi (show_int (sint w)) = Ok (sint w)" using r by (simp add: atoi_def signed_val_show_int)
  show "stoi (show_int (sint w)) = Ok (sint w)"
    using r c by (simp add: stoi_def signed_val_show_int skip_sign_show_int)
qed

text \<open>
  The identifier of a TCP client is 256 times the sum of the last three octets of its address
  plus the first octet, plus the port when asked: two hosts whose octets have the same sum, such as
  172.16.1.1 and 172.16.0.2, have the same identifier.
\<close>

theorem hash_is_octet_sum:
  "unat (hash_ipaddr u addr) =
     256 * (octet 1 (s_addr addr) + octet 2 (s_addr addr) + octet 3 (s_addr addr)) +
     octet 0 (s_addr addr) + (if u then unat (sin_port addr) else 0) \<and>
   hash_ipaddr u addr < 2 ^ 19"
proof (intro conjI)
  show e: "unat (hash_ipaddr u addr) =
     256 * (octet 1 (s_addr addr) + octet 2 (s_addr addr) + octet 3 (s_addr addr)) +
     octet 0 (s_addr addr) + (if u then unat (sin_port addr) else 0)"
    by (rule unat_hash_ipaddr)
  have "unat (sin_port addr) < 65536"
    using unsigned_less [of "sin_port addr"] by simp
  then have "unat (hash_ipaddr u addr) < 2 ^ 19"
    unfolding e using octet_less [of 0 "s_addr addr"] octet_less [of 1 "s_addr addr"]
      octet_less [of 2 "s_addr addr"] octet_less [of 3 "s_addr addr"]
    by auto
  then show "hash_ipaddr u addr < 2 ^ 19"
    by (simp add: word_less_nat_alt)
qed


end
