(* ===== verification/Vwifi_Sockets.thy ===== *)
theory Vwifi_Sockets
  imports Vwifi_Tools
begin

text \<open>
  The growing byte buffer (\<^verbatim>\<open>src/src/cdynbuffer.cc\<close>), the part of the operating system that the
  programs talk to, and the socket base class (\<^verbatim>\<open>src/src/csocket.cc\<close>).

  The operating system is a record. Each descriptor has the list of segments that its future
  \<^verbatim>\<open>recv\<close> calls find (an empty segment, or none, is a call that fails or reports the end of
  the stream), and the outcomes of its future \<^verbatim>\<open>send\<close> calls (an error, or how many bytes are
  taken; with no outcome listed the whole buffer is taken). These lists are arbitrary in every
  theorem, so the theorems hold for every segmentation and every failure of the network. What the
  programs do is recorded: the bytes each \<^verbatim>\<open>send\<close> took, in order, and the open descriptors.
  The ports a socket was bound to are recorded too. \<^verbatim>\<open>accept\<close> and \<^verbatim>\<open>socket\<close> return the lowest descriptor that is not open, as POSIX requires.

  A buffer cell is \<^const>\<open>None\<close> until it is written: reading it earlier is undefined.

  The interface \<open>byte_source\<close> is what \<^verbatim>\<open>Read\<close> promises about the stream of one descriptor;
  from it follows that \<^verbatim>\<open>ReadEqualSize\<close> returns exactly the next bytes of the stream, whatever
  the segmentation.
\<close>

section \<open>Class CDynBuffer\<close>

type_synonym cells = "byte option list"

record CDynBuffer =
  Buffer :: "cells option"
  Size :: int

definition DEFAULT_SIZE_BUFFER :: int where "DEFAULT_SIZE_BUFFER = 1024"

definition new_chars :: "int \<Rightarrow> cells result" where
  "new_chars sz =
     (if sz < 0 then Fault Uncaught_exception else Ok (replicate (nat sz) None))"

definition memcpy_cells :: "cells \<Rightarrow> cells \<Rightarrow> int \<Rightarrow> cells result" where
  "memcpy_cells dst src n =
     (if 0 \<le> n \<and> nat n \<le> length src \<and> nat n \<le> length dst
      then Ok (take (nat n) src @ drop (nat n) dst) else Fault Undefined_behaviour)"

definition Allocate :: "int \<Rightarrow> bool \<Rightarrow> CDynBuffer \<Rightarrow> CDynBuffer result" where
  "Allocate sz keepValues b =
     rbind (new_chars sz) (\<lambda>new.
     if \<not> keepValues then Ok (b\<lparr>Buffer := Some new, Size := sz\<rparr>)
     else rbind (case Buffer b of None \<Rightarrow> Ok new | Some old \<Rightarrow> memcpy_cells new old (Size b))
       (\<lambda>new. Ok (b\<lparr>Buffer := Some new, Size := sz\<rparr>)))"

definition CDynBuffer_new :: "CDynBuffer result" where
  "CDynBuffer_new = Allocate DEFAULT_SIZE_BUFFER False \<lparr>Buffer = None, Size = 0\<rparr>"

text \<open>The destructor frees an array with \<^verbatim>\<open>delete\<close>, not \<^verbatim>\<open>delete[]\<close>, which is undefined.\<close>

definition CDynBuffer_destroy :: "CDynBuffer \<Rightarrow> CDynBuffer result" where
  "CDynBuffer_destroy b = (if Buffer b \<noteq> None then Fault Undefined_behaviour else Ok b)"

definition NeededSize :: "int \<Rightarrow> bool \<Rightarrow> CDynBuffer \<Rightarrow> CDynBuffer result" where
  "NeededSize sz keepValues b = (if sz \<le> Size b then Ok b else Allocate sz keepValues b)"

text \<open>\<^verbatim>\<open>GetBuffer\<close>, and the first \<open>n\<close> bytes behind the pointer, when they are initialised.\<close>

definition GetBuffer :: "CDynBuffer \<Rightarrow> cells result" where
  "GetBuffer b = (case Buffer b of None \<Rightarrow> Fault Undefined_behaviour | Some cs \<Rightarrow> Ok cs)"

definition cell_bytes :: "nat \<Rightarrow> cells \<Rightarrow> byte list result" where
  "cell_bytes n cs =
     (if n \<le> length cs \<and> list_all (\<lambda>c. c \<noteq> None) (take n cs) then Ok (map the (take n cs))
      else Fault Undefined_behaviour)"

definition store_cells :: "nat \<Rightarrow> byte list \<Rightarrow> cells \<Rightarrow> cells result" where
  "store_cells off data cs =
     (if off + length data \<le> length cs
      then Ok (take off cs @ map Some data @ drop (off + length data) cs)
      else Fault Undefined_behaviour)"

section \<open>The operating system\<close>

text \<open>A connection waiting to be accepted: its peer and what will happen on it.\<close>

record connection =
  peer :: sockaddr
  segments :: "byte list list"
  outcomes :: "nat option list"

text \<open>
  An address to connect to, \<^verbatim>\<open>sockaddr_in\<close> (\<^verbatim>\<open>s_addr\<close> and \<^verbatim>\<open>sin_port\<close> as stored) or \<^verbatim>\<open>sockaddr_vm\<close>
  (\<^verbatim>\<open>svm_cid\<close> and \<^verbatim>\<open>svm_port\<close>).
\<close>

datatype endpoint = Inet "32 word" "16 word" | Vsock "32 word" "32 word"

record os =
  rx :: "TDescriptor \<Rightarrow> byte list list"
  tx :: "TDescriptor \<Rightarrow> nat option list"
  sent :: "(TDescriptor \<times> byte list) list"
  open_fds :: "TDescriptor list"
  pending :: "TDescriptor \<Rightarrow> connection list"
  rand_values :: "nat \<Rightarrow> nat"
  rand_calls :: nat
  call_fails :: "bool list"
  bound :: "(TDescriptor \<times> TPort) list"
  dials :: "endpoint \<Rightarrow> (byte list list \<times> nat option list) option list"
  local_addr :: "TDescriptor \<Rightarrow> sockaddr"
  local_cid :: "32 word"

definition os_recv :: "TDescriptor \<Rightarrow> nat \<Rightarrow> os \<Rightarrow> int \<times> byte list \<times> os" where
  "os_recv d n s =
     (case rx s d of
        [] \<Rightarrow> (0, [], s)
      | c # cs \<Rightarrow> (int (length (take n c)), take n c,
                  s\<lparr>rx := (rx s)(d := (if drop n c = [] then cs else drop n c # cs))\<rparr>))"

definition os_send :: "TDescriptor \<Rightarrow> byte list \<Rightarrow> os \<Rightarrow> int \<times> os" where
  "os_send d data s =
     (case tx s d of
        [] \<Rightarrow> (int (length data), s\<lparr>sent := sent s @ [(d, data)]\<rparr>)
      | None # ks \<Rightarrow> (-1, s\<lparr>tx := (tx s)(d := ks)\<rparr>)
      | Some k # ks \<Rightarrow> (int (min k (length data)),
                       s\<lparr>tx := (tx s)(d := ks), sent := sent s @ [(d, take k data)]\<rparr>))"

definition os_close :: "TDescriptor \<Rightarrow> os \<Rightarrow> os" where
  "os_close d s = s\<lparr>open_fds := removeAll d (open_fds s), bound := filter (\<lambda>b. fst b \<noteq> d) (bound s)\<rparr>"

definition lowest_free :: "TDescriptor list \<Rightarrow> TDescriptor" where
  "lowest_free fds = int (hd (filter (\<lambda>n. int n \<notin> set fds) [0..<Suc (length fds)]))"

definition os_accept :: "TDescriptor \<Rightarrow> os \<Rightarrow> (TDescriptor \<times> sockaddr) option \<times> os" where
  "os_accept master s =
     (case pending s master of
        [] \<Rightarrow> (None, s)
      | c # cs \<Rightarrow>
          (let d = lowest_free (open_fds s)
           in (Some (d, peer c),
               s\<lparr>pending := (pending s)(master := cs), open_fds := d # open_fds s,
                 rx := (rx s)(d := segments c), tx := (tx s)(d := outcomes c)\<rparr>)))"

definition os_rand :: "os \<Rightarrow> nat \<times> os" where
  "os_rand s = (rand_values s (rand_calls s), s\<lparr>rand_calls := Suc (rand_calls s)\<rparr>)"

text \<open>The next of the calls that set a socket up (\<^verbatim>\<open>setsockopt\<close>, \<^verbatim>\<open>bind\<close>, \<^verbatim>\<open>listen\<close>): does it succeed?\<close>

definition os_call :: "os \<Rightarrow> bool \<times> os" where
  "os_call s = (case call_fails s of [] \<Rightarrow> (True, s) | b # bs \<Rightarrow> (\<not> b, s\<lparr>call_fails := bs\<rparr>))"

definition os_socket :: "os \<Rightarrow> TDescriptor \<times> os" where
  "os_socket s =
     (let (ok, s) = os_call s; d = lowest_free (open_fds s)
      in if ok then (d, s\<lparr>open_fds := d # open_fds s\<rparr>) else (-1, s))"

definition os_bind :: "TDescriptor \<Rightarrow> TPort \<Rightarrow> os \<Rightarrow> bool \<times> os" where
  "os_bind d port s =
     (let (ok, s) = os_call s in if ok then (True, s\<lparr>bound := (d, port) # bound s\<rparr>) else (False, s))"

text \<open>
  \<^verbatim>\<open>connect\<close>: the next attempt on this address is refused (\<^const>\<open>None\<close>), or it makes a connection with
  the given stream and outcomes; when nothing is left, every further attempt is refused.
\<close>

definition os_connect :: "TDescriptor \<Rightarrow> endpoint \<Rightarrow> os \<Rightarrow> bool \<times> os" where
  "os_connect d ep s =
     (case dials s ep of
        [] \<Rightarrow> (False, s)
      | None # cs \<Rightarrow> (False, s\<lparr>dials := (dials s)(ep := cs)\<rparr>)
      | Some (segs, outs) # cs \<Rightarrow>
          (True, s\<lparr>dials := (dials s)(ep := cs), rx := (rx s)(d := segs), tx := (tx s)(d := outs)\<rparr>))"

section \<open>Class CSocket\<close>

record CSocket =
  Master :: TDescriptor

definition CSocket_new :: CSocket where
  "CSocket_new = \<lparr>Master = 0\<rparr>"

definition GetDescriptor :: "'a CSocket_scheme \<Rightarrow> TDescriptor" where
  "GetDescriptor s = Master s"

definition Send :: "TDescriptor \<Rightarrow> byte list \<Rightarrow> os \<Rightarrow> int \<times> os" where
  "Send descriptor data s =
     (let (ret, s) = os_send descriptor data s
      in if ret \<noteq> int (length data) then (SOCKET_ERROR, s) else (ret, s))"

definition Read :: "TDescriptor \<Rightarrow> nat \<Rightarrow> os \<Rightarrow> int \<times> byte list \<times> os" where
  "Read descriptor n s =
     (let (ret, data, s) = os_recv descriptor n s
      in if ret \<le> 0 then (SOCKET_ERROR, [], s) else (ret, data, s))"

text \<open>\<^verbatim>\<open>TMinimalSize\<close> is 16 bits: the length of a big datum is sent modulo 65536.\<close>

definition SendBigData :: "TDescriptor \<Rightarrow> byte list \<Rightarrow> os \<Rightarrow> int \<times> os" where
  "SendBigData descriptor data s =
     (let sizeOfData = word_of_nat (length data) :: 16 word;
          (ret, s) = Send descriptor (put_word sizeOfData) s
      in if ret = SOCKET_ERROR then (SOCKET_ERROR, s)
         else Send descriptor (take (unat sizeOfData) data) s)"

lemma os_recv_nonneg: "os_recv d n s = (r, data, s') \<Longrightarrow> r = int (length data)"
  by (auto simp: os_recv_def split: list.splits)

lemma Read_cases:
  assumes "Read d n s = (r, data, s')"
  obtains (failed) "r = SOCKET_ERROR" "data = []"
    | (got) "r = int (length data)" "data \<noteq> []" "0 < r"
  using assms os_recv_nonneg
  by (auto simp: Read_def split: prod.splits if_splits) fastforce+

lemma Read_pos: "(r, data, s') = Read d n s \<Longrightarrow> r \<noteq> SOCKET_ERROR \<Longrightarrow> 0 < r"
  by (auto simp: Read_def split: prod.splits if_splits)

function ReadEqualSize_loop ::
  "TDescriptor \<Rightarrow> nat \<Rightarrow> int \<Rightarrow> cells \<Rightarrow> os \<Rightarrow> (int \<times> cells \<times> os) result" where
  "ReadEqualSize_loop descriptor off sizeToRead buffer s =
     (if sizeToRead > 0 then
        (case Read descriptor (nat sizeToRead) s of (sizeRead, data, s) \<Rightarrow>
           if sizeRead = SOCKET_ERROR then Ok (SOCKET_ERROR, buffer, s)
           else rbind (store_cells off data buffer) (\<lambda>buffer.
             ReadEqualSize_loop descriptor (off + nat sizeRead) (sizeToRead - sizeRead) buffer s))
      else Ok (0, buffer, s))"
  by pat_completeness auto
termination
  by (relation "measure (\<lambda>(d, off, need, b, s). nat need)") (auto dest: Read_pos)

declare ReadEqualSize_loop.simps [simp del]

definition ReadEqualSize ::
  "TDescriptor \<Rightarrow> int \<Rightarrow> int \<Rightarrow> CDynBuffer \<Rightarrow> os \<Rightarrow> (int \<times> CDynBuffer \<times> os) result" where
  "ReadEqualSize descriptor byteAlreadyRead sizeToRead b s =
     rbind (NeededSize sizeToRead (byteAlreadyRead \<noteq> 0) b) (\<lambda>b.
     rbind (GetBuffer b) (\<lambda>buffer.
     rbind (ReadEqualSize_loop descriptor (nat byteAlreadyRead) (sizeToRead - byteAlreadyRead) buffer s)
       (\<lambda>(ret, buffer, s).
          Ok (if ret = SOCKET_ERROR then SOCKET_ERROR else sizeToRead, b\<lparr>Buffer := Some buffer\<rparr>, s))))"

text \<open>A short read leaves part of the length uninitialised.\<close>

definition ReadBigData :: "TDescriptor \<Rightarrow> CDynBuffer \<Rightarrow> os \<Rightarrow> (int \<times> CDynBuffer \<times> os) result" where
  "ReadBigData descriptor b s =
     (case Read descriptor 2 s of (ret, data, s) \<Rightarrow>
        if ret = SOCKET_ERROR then Ok (SOCKET_ERROR, b, s)
        else rbind (defined (length data = 2)) (\<lambda>_.
          ReadEqualSize descriptor 0 (int (unat (get_word data :: 16 word))) b s))"

definition CSocket_Close :: "'a CSocket_scheme \<Rightarrow> os \<Rightarrow> 'a CSocket_scheme \<times> os" where
  "CSocket_Close sk s =
     (if Master sk \<noteq> SOCKET_ERROR then (sk\<lparr>Master := SOCKET_ERROR\<rparr>, os_close (Master sk) s)
      else (sk, s))"

section \<open>Descriptors and close\<close>

lemma lowest_free_fresh: "lowest_free fds \<notin> set fds" and lowest_free_nonneg: "0 \<le> lowest_free fds"
  and lowest_free_bound: "lowest_free fds \<le> int (length fds)"
proof -
  let ?c = "filter (\<lambda>n. int n \<notin> set fds) [0..<Suc (length fds)]"
  have "?c \<noteq> []"
  proof
    assume none: "?c = []"
    then have "int ` {0..<Suc (length fds)} \<subseteq> set fds"
      by (auto simp: filter_empty_conv simp del: upt_Suc)
    then have "card (int ` {0..<Suc (length fds)}) \<le> card (set fds)"
      by (intro card_mono) simp_all
    moreover have "card (int ` {0..<Suc (length fds)}) = Suc (length fds)"
      by (subst card_image) simp_all
    ultimately show False
      using card_length [of fds] by linarith
  qed
  then have "hd ?c \<in> set ?c" by (rule hd_in_set)
  then show "lowest_free fds \<notin> set fds" "lowest_free fds \<le> int (length fds)"
    by (simp_all add: lowest_free_def del: upt_Suc)
  show "0 \<le> lowest_free fds" by (simp add: lowest_free_def)
qed

lemma lowest_free_le: "lowest_free fds \<le> int n" if "int n \<notin> set fds" and "n \<le> length fds"
proof -
  have n: "n \<in> set (filter (\<lambda>n. int n \<notin> set fds) [0..<Suc (length fds)])"
    using that by (simp del: upt_Suc)
  have "sorted (filter (\<lambda>n. int n \<notin> set fds) [0..<Suc (length fds)])"
    by (intro sorted_wrt_filter) (simp del: upt_Suc)
  with n have "hd (filter (\<lambda>n. int n \<notin> set fds) [0..<Suc (length fds)]) \<le> n"
    by (cases "filter (\<lambda>n. int n \<notin> set fds) [0..<Suc (length fds)]") (auto simp del: upt_Suc)
  then show ?thesis by (simp add: lowest_free_def del: upt_Suc)
qed

lemma set_open_fds_close [simp]: "set (open_fds (os_close d s)) = set (open_fds s) - {d}"
  by (simp add: os_close_def)

lemma os_close_frame [simp, frame_simps]:
  "rx (os_close d s) = rx s" "tx (os_close d s) = tx s" "sent (os_close d s) = sent s"
  "pending (os_close d s) = pending s" "rand_values (os_close d s) = rand_values s"
  "rand_calls (os_close d s) = rand_calls s"
  by (simp_all add: os_close_def)

section \<open>Sending\<close>

lemma Send_cases:
  assumes "Send d data s = (r, s')"
  obtains (all) "r = int (length data)" "sent s' = sent s @ [(d, data)]"
    | (failed) k where "r = SOCKET_ERROR" "sent s' = sent s \<or> sent s' = sent s @ [(d, take k data)]"
  using assms
  by (auto simp: Send_def os_send_def min_def split: list.splits option.splits if_splits prod.splits)

lemma Send_frame [frame_simps]:
  assumes "Send d data s = (r, s')"
  shows "rx s' = rx s" "open_fds s' = open_fds s" "pending s' = pending s"
    "rand_values s' = rand_values s" "rand_calls s' = rand_calls s"
    "e \<noteq> d \<Longrightarrow> tx s' e = tx s e"
  using assms
  by (auto simp: Send_def os_send_def split: list.splits option.splits if_splits prod.splits)

text \<open>A descriptor whose \<^verbatim>\<open>send\<close> calls all take the whole buffer.\<close>

definition healthy :: "os \<Rightarrow> TDescriptor \<Rightarrow> bool" where
  "healthy s d \<longleftrightarrow> tx s d = []"

lemma Send_healthy [simp]:
  "healthy s d \<Longrightarrow> Send d data s = (int (length data), s\<lparr>sent := sent s @ [(d, data)]\<rparr>)"
  by (simp add: healthy_def Send_def os_send_def)

lemma healthy_sent [simp]: "healthy (s\<lparr>sent := l\<rparr>) = healthy s"
  by (simp add: healthy_def fun_eq_iff)

section \<open>Receiving\<close>

text \<open>The bytes a descriptor delivers before its next failure or end of stream.\<close>

definition stream :: "TDescriptor \<Rightarrow> os \<Rightarrow> byte list" where
  "stream d s = concat (takeWhile (\<lambda>c. c \<noteq> []) (rx s d))"

locale byte_source =
  fixes read :: "nat \<Rightarrow> 's \<Rightarrow> int \<times> byte list \<times> 's"
    and avail :: "'s \<Rightarrow> byte list"
  assumes read_fails: "avail s = [] \<Longrightarrow> 0 < n \<Longrightarrow> fst (read n s) = SOCKET_ERROR"
    and read_some: "avail s \<noteq> [] \<Longrightarrow> 0 < n \<Longrightarrow> read n s = (r, data, s') \<Longrightarrow>
      r = int (length data) \<and> data \<noteq> [] \<and> length data \<le> n \<and> avail s = data @ avail s'"
begin

lemma read_error_iff: "0 < n \<Longrightarrow> read n s = (r, data, s') \<Longrightarrow> r = SOCKET_ERROR \<longleftrightarrow> avail s = []"
  using read_fails [of s n] read_some [of s n r data s']
  by (cases "avail s = []") (auto simp: SOCKET_ERROR_def)

lemma read_prefix:
  assumes "0 < n" and "avail s \<noteq> []" and "read n s = (r, data, s')"
  shows "data = take (nat r) (avail s)" "avail s' = drop (nat r) (avail s)"
    "0 < nat r" "nat r \<le> n" "nat r \<le> length (avail s)" "r = int (length data)"
  using read_some [OF assms(2,1,3)] by auto

text \<open>One byte is never split.\<close>

lemma read_one:
  assumes "avail s = b # bs" and "read 1 s = (r, data, s')"
  shows "r = 1" "data = [b]" "avail s' = bs"
  using read_prefix [of 1 s r data s'] assms by (auto simp: le_Suc_eq)

end

lemma os_recv_stream:
  assumes "stream d s \<noteq> []" and "0 < n" and "os_recv d n s = (r, data, s')"
  shows "data \<noteq> []" "length data \<le> n" "stream d s = data @ stream d s'"
proof -
  obtain c cs where c: "rx s d = c # cs" "c \<noteq> []"
    using assms(1) by (cases "rx s d") (auto simp: stream_def split: if_splits)
  with assms(2,3) show "data \<noteq> []" "length data \<le> n" "stream d s = data @ stream d s'"
    by (auto simp: os_recv_def stream_def)
qed

interpretation sock: byte_source "Read d" "stream d" for d
proof
  fix s :: os and n :: nat
  assume "stream d s = []" "0 < n"
  then show "fst (Read d n s) = SOCKET_ERROR"
    by (auto simp: Read_def os_recv_def stream_def split: list.splits if_splits)
next
  fix s s' :: os and n r data
  assume a: "stream d s \<noteq> []" "0 < n" and rd: "Read d n s = (r, data, s')"
  obtain q xs t where q: "os_recv d n s = (q, xs, t)"
    by (cases "os_recv d n s")
  note os_recv_stream [OF a q] os_recv_nonneg [OF q]
  with rd q show "r = int (length data) \<and> data \<noteq> [] \<and> length data \<le> n \<and> stream d s = data @ stream d s'"
    by (auto simp: Read_def split: if_splits)
qed

lemma Read_frame [frame_simps]:
  assumes "Read d n s = (r, data, s')"
  shows "s' = s\<lparr>rx := (rx s)(d := rx s' d)\<rparr>"
  using assms
  by (cases s) (auto simp: Read_def os_recv_def split: list.splits if_splits prod.splits)

lemma store_cells_Ok [simp]:
  "off + length data \<le> length cs \<Longrightarrow>
   store_cells off data cs = Ok (take off cs @ map Some data @ drop (off + length data) cs)"
  by (simp add: store_cells_def)

lemma ReadEqualSize_loop_done [simp]: "n \<le> 0 \<Longrightarrow> ReadEqualSize_loop d off n b s = Ok (0, b, s)"
  by (simp add: ReadEqualSize_loop.simps)

text \<open>The state after reading from \<open>d\<close> differs from the one before in what \<open>d\<close> still delivers.\<close>

definition read_from :: "TDescriptor \<Rightarrow> os \<Rightarrow> os \<Rightarrow> bool" where
  "read_from d s s' \<longleftrightarrow> (\<exists>cs. s' = s\<lparr>rx := (rx s)(d := cs)\<rparr>)"

lemma read_from_refl [simp]: "read_from d s s"
  by (auto simp: read_from_def intro!: exI [of _ "rx s d"])

lemma read_from_trans: "read_from d s t \<Longrightarrow> read_from d t u \<Longrightarrow> read_from d s u"
  by (auto simp: read_from_def)

lemma Read_read_from: "Read d n s = (r, data, s') \<Longrightarrow> read_from d s s'"
  unfolding read_from_def by (rule exI, rule Read_frame)

lemma read_from_frame [frame_simps]:
  assumes "read_from d s s'"
  shows "tx s' = tx s" "sent s' = sent s" "open_fds s' = open_fds s" "pending s' = pending s"
    "rand_values s' = rand_values s" "rand_calls s' = rand_calls s"
    "e \<noteq> d \<Longrightarrow> rx s' e = rx s e"
  using assms by (auto simp: read_from_def)

lemma ReadEqualSize_loop_exact:
  assumes "n \<le> length (stream d s)" and "off + n \<le> length b"
  shows "\<exists>s'. ReadEqualSize_loop d off (int n) b s =
           Ok (0, take off b @ map Some (take n (stream d s)) @ drop (off + n) b, s') \<and>
         stream d s' = drop n (stream d s) \<and> read_from d s s'"
  using assms
proof (induction n arbitrary: off b s rule: less_induct)
  case (less n)
  show ?case
  proof (cases "n = 0")
    case True
    then show ?thesis by (auto intro: exI [of _ s])
  next
    case False
    obtain r data t where rd: "Read d n s = (r, data, t)"
      by (cases "Read d n s")
    have ne: "stream d s \<noteq> []" and n: "0 < n"
      using less.prems(1) False by auto
    note p = sock.read_prefix [OF n ne rd]
    define k where "k = length data"
    have k: "r = int k" "0 < k" "k \<le> n" and data: "data = take k (stream d s)"
      and t: "stream d t = drop k (stream d s)"
      using p by (simp_all add: k_def)
    define b' where "b' = take off b @ map Some data @ drop (off + k) b"
    have st: "store_cells off data b = Ok b'"
      using less.prems(2) k by (simp add: b'_def k_def)
    have len: "length b' = length b" "k \<le> length (stream d s)"
      using less.prems k p(5) by (simp_all add: b'_def k_def)
    have "n - k < n" "n - k \<le> length (stream d t)" "off + k + (n - k) \<le> length b'"
      using less.prems k t len by auto
    from less.IH [OF this] obtain s' where
      IH: "ReadEqualSize_loop d (off + k) (int (n - k)) b' t =
        Ok (0, take (off + k) b' @ map Some (take (n - k) (stream d t)) @ drop (off + k + (n - k)) b', s')"
      and s': "stream d s' = drop (n - k) (stream d t)" "read_from d t s'"
      by blast
    have "take (off + k) b' = take off b @ map Some (take k (stream d s))"
      using less.prems k len(2) by (simp add: b'_def data)
    moreover have "drop (off + k + (n - k)) b' = drop (off + n) b"
      using less.prems k by (simp add: b'_def k_def [symmetric] add.commute)
    moreover have "take k (stream d s) @ take (n - k) (stream d t) = take n (stream d s)"
      using k(3) take_add [of k "n - k" "stream d s"] by (simp add: t)
    ultimately have cells: "take (off + k) b' @ map Some (take (n - k) (stream d t)) @
        drop (off + k + (n - k)) b' = take off b @ map Some (take n (stream d s)) @ drop (off + n) b"
      by (metis append_assoc map_append)
    have "ReadEqualSize_loop d off (int n) b s =
        ReadEqualSize_loop d (off + k) (int (n - k)) b' t"
      using n k rd st by (simp add: ReadEqualSize_loop.simps [of d off "int n"] SOCKET_ERROR_def of_nat_diff)
    moreover have "stream d s' = drop n (stream d s)"
      using s'(1) t k(3) by simp
    moreover have "read_from d s s'"
      using Read_read_from [OF rd] s'(2) by (rule read_from_trans)
    ultimately show ?thesis
      unfolding IH cells by blast
  qed
qed

lemma ReadEqualSize_loop_short:
  assumes "length (stream d s) < n" and "off + n \<le> length b"
  shows "\<exists>b' s'. ReadEqualSize_loop d off (int n) b s = Ok (SOCKET_ERROR, b', s') \<and>
           length b' = length b \<and> read_from d s s'"
  using assms
proof (induction n arbitrary: off b s rule: less_induct)
  case (less n)
  obtain r data t where rd: "Read d n s = (r, data, t)"
    by (cases "Read d n s")
  have n: "0 < n" using less.prems(1) by simp
  show ?case
  proof (cases "stream d s = []")
    case True
    then have "r = SOCKET_ERROR"
      using sock.read_error_iff [OF n rd] by simp
    then show ?thesis
      using rd n Read_read_from [OF rd] by (simp add: ReadEqualSize_loop.simps [of d off "int n"])
  next
    case False
    note p = sock.read_prefix [OF n False rd]
    define k where "k = length data"
    have k: "r = int k" "0 < k" "k \<le> n" and t: "stream d t = drop k (stream d s)"
      using p by (simp_all add: k_def)
    define b' where "b' = take off b @ map Some data @ drop (off + k) b"
    have st: "store_cells off data b = Ok b'" and len: "length b' = length b"
      using less.prems(2) k by (simp_all add: b'_def k_def)
    have "ReadEqualSize_loop d off (int n) b s =
        ReadEqualSize_loop d (off + k) (int (n - k)) b' t"
      using n k rd st by (simp add: ReadEqualSize_loop.simps [of d off "int n"] SOCKET_ERROR_def of_nat_diff)
    moreover have "\<exists>b'' s'. ReadEqualSize_loop d (off + k) (int (n - k)) b' t = Ok (SOCKET_ERROR, b'', s') \<and>
        length b'' = length b' \<and> read_from d t s'"
      using less.IH [of "n - k" t "off + k" b'] less.prems k t p(5) len by (simp add: k_def)
    ultimately show ?thesis
      using len read_from_trans [OF Read_read_from [OF rd]] by auto
  qed
qed

section \<open>The buffer\<close>

definition buf_ok :: "CDynBuffer \<Rightarrow> bool" where
  "buf_ok b \<longleftrightarrow> (\<exists>cs. Buffer b = Some cs \<and> Size b = int (length cs))"

lemma buf_okE:
  assumes "buf_ok b" obtains cs where "Buffer b = Some cs" and "Size b = int (length cs)"
  using assms by (auto simp: buf_ok_def)

lemma CDynBuffer_new_ok:
  "\<exists>b. CDynBuffer_new = Ok b \<and> buf_ok b \<and> Size b = DEFAULT_SIZE_BUFFER"
  by (simp add: CDynBuffer_new_def Allocate_def new_chars_def buf_ok_def DEFAULT_SIZE_BUFFER_def)

lemma NeededSize_grows:
  assumes "Buffer b = Some cs" and "Size b = int (length cs)"
  shows "\<exists>b' cs'. NeededSize (int n) keep b = Ok b' \<and> Buffer b' = Some cs' \<and>
    Size b' = int (length cs') \<and> length cs' = max (length cs) n \<and>
    (keep \<or> n \<le> length cs \<longrightarrow> take (length cs) cs' = cs)"
proof (cases "n \<le> length cs")
  case True
  then show ?thesis
    using assms by (simp add: NeededSize_def)
next
  case False
  then show ?thesis
    using assms
    by (auto simp: NeededSize_def Allocate_def new_chars_def memcpy_cells_def not_le)
qed

lemma NeededSize_nonpos: "buf_ok b \<Longrightarrow> n \<le> 0 \<Longrightarrow> NeededSize n keep b = Ok b"
  by (auto simp: buf_ok_def NeededSize_def)

text \<open>
  \<^verbatim>\<open>ReadEqualSize\<close> after \<open>a\<close> bytes have been read: when the stream is long enough the buffer
  starts with those and then the next bytes of the stream; otherwise the call fails. The buffer
  grows to the size asked for and never shrinks.
\<close>

lemma ReadEqualSize_exact:
  assumes b: "Buffer b = Some cs" "Size b = int (length cs)"
    and a: "a \<le> n" "a \<le> length cs" and n: "n - a \<le> length (stream d s)"
  shows "\<exists>b' cs' s'. ReadEqualSize d (int a) (int n) b s = Ok (int n, b', s') \<and>
    Buffer b' = Some cs' \<and> Size b' = int (length cs') \<and> length cs' = max (length cs) n \<and>
    take n cs' = take a cs @ map Some (take (n - a) (stream d s)) \<and>
    stream d s' = drop (n - a) (stream d s) \<and> read_from d s s'"
proof -
  obtain b1 cs1 where b1: "NeededSize (int n) (int a \<noteq> 0) b = Ok b1" "Buffer b1 = Some cs1"
      "Size b1 = int (length cs1)" "length cs1 = max (length cs) n"
    and keep: "int a \<noteq> 0 \<or> n \<le> length cs \<longrightarrow> take (length cs) cs1 = cs"
    using NeededSize_grows [OF b, of n "int a \<noteq> 0"] by (elim exE conjE)
  have pre: "take a cs1 = take a cs"
  proof (cases "a = 0")
    case False
    with keep have "take a (take (length cs) cs1) = take a cs" by simp
    with a(2) show ?thesis by (simp add: min_absorb1)
  qed simp
  have "a + (n - a) \<le> length cs1" using a b1(4) by simp
  from ReadEqualSize_loop_exact [OF n this] obtain s' where
    lp: "ReadEqualSize_loop d a (int (n - a)) cs1 s =
      Ok (0, take a cs1 @ map Some (take (n - a) (stream d s)) @ drop (a + (n - a)) cs1, s')"
    and s': "stream d s' = drop (n - a) (stream d s)" "read_from d s s'"
    by blast
  define cs' where "cs' = take a cs1 @ map Some (take (n - a) (stream d s)) @ drop n cs1"
  have "ReadEqualSize d (int a) (int n) b s = Ok (int n, b1\<lparr>Buffer := Some cs'\<rparr>, s')"
    using b1(1,2) lp a(1)
    by (simp add: ReadEqualSize_def GetBuffer_def cs'_def SOCKET_ERROR_def of_nat_diff)
  moreover have "length cs' = max (length cs) n" "take n cs' = take a cs @ map Some (take (n - a) (stream d s))"
    using b1(4) a n by (simp_all add: cs'_def pre min_absorb2 min_absorb1)
  ultimately show ?thesis
    using s' b1(3,4) by auto
qed

lemma ReadEqualSize_short:
  assumes "buf_ok b" and a: "a \<le> n" "length (stream d s) < n - a"
  shows "\<exists>b' s'. ReadEqualSize d (int a) (int n) b s = Ok (SOCKET_ERROR, b', s') \<and> buf_ok b' \<and>
    Size b' = max (Size b) (int n) \<and> read_from d s s'"
proof -
  obtain cs where b: "Buffer b = Some cs" "Size b = int (length cs)"
    using assms(1) by (rule buf_okE)
  obtain b1 cs1 where b1: "NeededSize (int n) (int a \<noteq> 0) b = Ok b1" "Buffer b1 = Some cs1"
      "Size b1 = int (length cs1)" "length cs1 = max (length cs) n"
    using NeededSize_grows [OF b, of n "int a \<noteq> 0"] by (elim exE conjE)
  have "a + (n - a) \<le> length cs1" using a b1(4) by simp
  from ReadEqualSize_loop_short [OF a(2) this] obtain cs' s' where
    lp: "ReadEqualSize_loop d a (int (n - a)) cs1 s = Ok (SOCKET_ERROR, cs', s')"
      "length cs' = length cs1" "read_from d s s'"
    by blast
  then have "ReadEqualSize d (int a) (int n) b s =
      Ok (SOCKET_ERROR, b1\<lparr>Buffer := Some cs'\<rparr>, s')"
    using b1(1,2) a(1) by (simp add: ReadEqualSize_def GetBuffer_def of_nat_diff)
  then show ?thesis
    using lp(2,3) b1(3,4) b(2) by (auto simp: buf_ok_def)
qed

lemma ReadEqualSize_nothing:
  assumes "Buffer b = Some cs" and "m \<le> Size b" and "m \<le> a"
  shows "ReadEqualSize d a m b s = Ok (m, b, s)"
  using assms by (simp add: ReadEqualSize_def NeededSize_def GetBuffer_def SOCKET_ERROR_def)

section \<open>Properties\<close>

text \<open>A system on which nothing has happened yet: the standard streams are open.\<close>

definition os_start :: os where
  "os_start = \<lparr>rx = (\<lambda>_. []), tx = (\<lambda>_. []), sent = [], open_fds = [0, 1, 2], pending = (\<lambda>_. []),
     rand_values = (\<lambda>_. 0), rand_calls = 0, call_fails = [], bound = [], dials = (\<lambda>_. []),
     local_addr = (\<lambda>_. \<lparr>s_addr = 0, sin_port = 0, svm_cid = 0\<rparr>), local_cid = 3\<rparr>"

text \<open>
  C30: \<^verbatim>\<open>ReadEqualSize\<close> is independent of how the network cuts the stream: when \<open>n\<close> bytes are to
  come it ends with exactly these bytes in the buffer and leaves the rest of the stream; when fewer
  come before the connection ends or fails it returns \<^verbatim>\<open>SOCKET_ERROR\<close>.
\<close>

theorem read_equal_size:
  assumes "buf_ok b"
  shows "(n \<le> length (stream d s) \<longrightarrow>
      (\<exists>b' s'. ReadEqualSize d 0 (int n) b s = Ok (int n, b', s') \<and> buf_ok b' \<and>
        rbind (GetBuffer b') (cell_bytes n) = Ok (take n (stream d s)) \<and> stream d s' = drop n (stream d s))) \<and>
    (length (stream d s) < n \<longrightarrow>
      (\<exists>b' s'. ReadEqualSize d 0 (int n) b s = Ok (SOCKET_ERROR, b', s') \<and> buf_ok b'))"
proof (intro conjI impI)
  assume n: "n \<le> length (stream d s)"
  obtain cs where b: "Buffer b = Some cs" "Size b = int (length cs)" using assms by (rule buf_okE)
  obtain b' cs' s' where r: "ReadEqualSize d (int 0) (int n) b s = Ok (int n, b', s')" "Buffer b' = Some cs'"
      "Size b' = int (length cs')" "length cs' = max (length cs) n"
      "take n cs' = take 0 cs @ map Some (take (n - 0) (stream d s))" "stream d s' = drop (n - 0) (stream d s)"
    using ReadEqualSize_exact [OF b, of 0 n d s] n by auto
  have "cell_bytes n cs' = Ok (take n (stream d s))"
    using r(4,5) by (simp add: cell_bytes_def list_all_length comp_def)
  with r show "\<exists>b' s'. ReadEqualSize d 0 (int n) b s = Ok (int n, b', s') \<and> buf_ok b' \<and>
        rbind (GetBuffer b') (cell_bytes n) = Ok (take n (stream d s)) \<and> stream d s' = drop n (stream d s)"
    by (auto simp: GetBuffer_def buf_ok_def)
next
  assume "length (stream d s) < n"
  then show "\<exists>b' s'. ReadEqualSize d 0 (int n) b s = Ok (SOCKET_ERROR, b', s') \<and> buf_ok b'"
    using ReadEqualSize_short [OF assms, of 0 n d s] by auto
qed

theorem read_equal_size_witness:
  "\<exists>b. CDynBuffer_new = Ok b \<and>
     (let s = os_start\<lparr>rx := (\<lambda>_. [''ab'', ''c'', ''def''])\<rparr> in
      (\<exists>b' s'. ReadEqualSize 5 0 4 b s = Ok (4, b', s') \<and> rbind (GetBuffer b') (cell_bytes 4) = Ok ''abcd'' \<and>
         stream 5 s' = ''ef'') \<and>
      (\<exists>b' s'. ReadEqualSize 5 0 7 b s = Ok (SOCKET_ERROR, b', s')))"
proof -
  obtain b where b: "CDynBuffer_new = Ok b" "buf_ok b" using CDynBuffer_new_ok by blast
  define s where "s = os_start\<lparr>rx := (\<lambda>_. [''ab'', ''c'', ''def''])\<rparr>"
  have st: "stream 5 s = ''abcdef''" by (simp add: stream_def s_def)
  show ?thesis
    using b(1) read_equal_size [OF b(2), of 4 5 s] read_equal_size [OF b(2), of 7 5 s]
    by (intro exI [of _ b]) (auto simp: st simp flip: s_def)
qed


end
