(* ===== verification/Vwifi_Client.thy ===== *)
theory Vwifi_Client
  imports Vwifi_Sockets
begin

text \<open>
  The connecting side (\<^verbatim>\<open>src/src/csocketclient.cc\<close> and its two variants for TCP and VSOCK): one
  attempt to connect, the loop that tries until it succeeds, and reading and writing guarded by the
  state of the connection. The loop is \<^theory_text>\<open>partial_function (option)\<close>: \<^const>\<open>None\<close> is a loop that
  never returns. The two seconds of \<^verbatim>\<open>sleep\<close> between attempts are not modelled.

  The virtual functions \<^verbatim>\<open>_Configure\<close> and \<^verbatim>\<open>_Connect\<close> are arguments. \<open>inet_addr\<close> and \<open>htons\<close> are
  the C library's.
\<close>

section \<open>Addresses\<close>

fun digit_in :: "nat \<Rightarrow> char \<Rightarrow> nat option" where
  "digit_in base c =
     (let n = of_char c :: nat;
          d = (if 48 \<le> n \<and> n \<le> 57 then n - 48 else if 97 \<le> n \<and> n \<le> 102 then n - 87
               else if 65 \<le> n \<and> n \<le> 70 then n - 55 else base)
      in if d < base then Some d else None)"

fun digits_in :: "nat \<Rightarrow> nat \<Rightarrow> string \<Rightarrow> nat \<times> string" where
  "digits_in base acc [] = (acc, [])"
| "digits_in base acc (c # cs) =
     (case digit_in base c of None \<Rightarrow> (acc, c # cs) | Some d \<Rightarrow> digits_in base (base * acc + d) cs)"

text \<open>\<^verbatim>\<open>strtoul\<close> with base 0 on a string that starts with a digit.\<close>

fun strtoul0 :: "string \<Rightarrow> nat \<times> string" where
  "strtoul0 (z # x # h # cs) =
     (if z = CHR ''0'' \<and> (x = CHR ''x'' \<or> x = CHR ''X'') \<and> digit_in 16 h \<noteq> None then digits_in 16 0 (h # cs)
      else digits_in (if z = CHR ''0'' then 8 else 10) 0 (z # x # h # cs))"
| "strtoul0 (z # cs) = digits_in (if z = CHR ''0'' then 8 else 10) 0 (z # cs)"
| "strtoul0 [] = (0, [])"

text \<open>The numbers of an address, at most \<open>n\<close> of them followed by a dot.\<close>

fun inet_parts :: "nat \<Rightarrow> string \<Rightarrow> (nat list \<times> string) option" where
  "inet_parts n str =
     (if str = [] \<or> digit_in 10 (hd str) = None then None
      else let (v, rest) = strtoul0 str in
        if v \<ge> 2 ^ 32 then None
        else if rest \<noteq> [] \<and> hd rest = CHR ''.'' then
          (case n of 0 \<Rightarrow> None
           | Suc m \<Rightarrow> if v > 255 then None
              else map_option (\<lambda>(vs, r). (v # vs, r)) (inet_parts m (tl rest)))
        else Some ([v], rest))"

definition bswap :: "nat \<Rightarrow> nat \<Rightarrow> nat" where
  "bswap n v = le_nat (rev (le_bytes n v))"

definition inet_addr :: "string \<Rightarrow> 32 word" where
  "inet_addr str =
     (case inet_parts 3 str of
        None \<Rightarrow> - 1
      | Some (vs, rest) \<Rightarrow>
          if (rest = [] \<or> is_space (hd rest)) \<and> last vs < 256 ^ (5 - length vs)
          then word_of_nat (foldr (\<lambda>v acc. v + 256 * acc) (butlast vs) 0 + bswap 4 (last vs))
          else - 1)"

definition htons :: "16 word \<Rightarrow> 16 word" where
  "htons w = word_of_nat (bswap 2 (unat w))"

section \<open>Class CSocketClient\<close>

record CSocketClient = CSocket +
  IsConnected :: bool
  StopTheReconnect :: bool

definition CSocketClient_Init :: "'a CSocketClient_scheme \<Rightarrow> 'a CSocketClient_scheme" where
  "CSocketClient_Init sk = sk\<lparr>IsConnected := False, StopTheReconnect := False\<rparr>"

definition CSocketClient_new :: "'a \<Rightarrow> 'a CSocketClient_scheme" where
  "CSocketClient_new rest =
     CSocketClient_Init (CSocket.extend CSocket_new \<lparr>IsConnected = False, StopTheReconnect = False, \<dots> = rest\<rparr>)"

definition CSocketClient_destroy :: "'a CSocketClient_scheme \<Rightarrow> os \<Rightarrow> os" where
  "CSocketClient_destroy sk s = snd (CSocket_Close sk s)"

partial_function (option) ConnectLoop ::
  "('a CSocketClient_scheme \<Rightarrow> os \<Rightarrow> bool \<times> 'a CSocketClient_scheme \<times> os) \<Rightarrow> 'a CSocketClient_scheme \<Rightarrow> os \<Rightarrow>
   (bool \<times> 'a CSocketClient_scheme \<times> os) option" where
  "ConnectLoop vConnect sk s =
     (if \<not> StopTheReconnect sk then
        (case vConnect sk s of (ok, sk, s) \<Rightarrow> if ok then Some (True, sk, s) else ConnectLoop vConnect sk s)
      else Some (False, sk, s))"

definition Connect ::
  "('a CSocketClient_scheme \<Rightarrow> os \<Rightarrow> bool \<times> 'a CSocketClient_scheme \<times> os) \<Rightarrow> endpoint \<Rightarrow>
   'a CSocketClient_scheme \<Rightarrow> os \<Rightarrow> bool \<times> 'a CSocketClient_scheme \<times> os" where
  "Connect vConfigure server sk s =
     (let (ok, sk, s) = vConfigure sk s
      in if \<not> ok then (False, sk, s)
         else let (ok, s) = os_connect (Master sk) server s
           in if ok then (True, sk\<lparr>IsConnected := True\<rparr>, s)
              else let (sk, s) = CSocket_Close sk s in (False, sk, s))"

definition CSocketClient_Send :: "byte list \<Rightarrow> 'a CSocketClient_scheme \<Rightarrow> os \<Rightarrow> int \<times> os" where
  "CSocketClient_Send data sk s = (if IsConnected sk then Send (Master sk) data s else (SOCKET_ERROR, s))"

definition CSocketClient_SendBigData :: "byte list \<Rightarrow> 'a CSocketClient_scheme \<Rightarrow> os \<Rightarrow> int \<times> os" where
  "CSocketClient_SendBigData data sk s =
     (if IsConnected sk then SendBigData (Master sk) data s else (SOCKET_ERROR, s))"

definition CSocketClient_Read :: "nat \<Rightarrow> 'a CSocketClient_scheme \<Rightarrow> os \<Rightarrow> int \<times> byte list \<times> os" where
  "CSocketClient_Read n sk s = (if IsConnected sk then Read (Master sk) n s else (SOCKET_ERROR, [], s))"

definition CSocketClient_ReadBigData ::
  "CDynBuffer \<Rightarrow> 'a CSocketClient_scheme \<Rightarrow> os \<Rightarrow> (int \<times> CDynBuffer \<times> os) result" where
  "CSocketClient_ReadBigData b sk s =
     (if IsConnected sk then ReadBigData (Master sk) b s else Ok (SOCKET_ERROR, b, s))"

section \<open>TCP and VSOCK\<close>

text \<open>\<^verbatim>\<open>_Configure\<close> is the same in both classes, but for the family of the socket.\<close>

definition Configure_client ::
  "'a CSocketClient_scheme \<Rightarrow> os \<Rightarrow> bool \<times> 'a CSocketClient_scheme \<times> os" where
  "Configure_client sk s =
     (let (master, s) = os_socket s; sk = sk\<lparr>Master := master\<rparr>
      in if Master sk = SOCKET_ERROR then (False, sk, s) else (True, sk, s))"

record CSocketClientITCP = CSocketClient +
  Server_in :: endpoint

definition CSocketClientITCP_new :: CSocketClientITCP where
  "CSocketClientITCP_new = CSocketClient_new \<lparr>Server_in = Inet 0 0\<rparr>"

definition Init_ITCP :: "string \<Rightarrow> TPort \<Rightarrow> CSocketClientITCP \<Rightarrow> CSocketClientITCP" where
  "Init_ITCP IP port sk = sk\<lparr>Server_in := Inet (inet_addr IP) (htons port)\<rparr>"

definition Connect_ITCP :: "CSocketClientITCP \<Rightarrow> os \<Rightarrow> bool \<times> CSocketClientITCP \<times> os" where
  "Connect_ITCP sk s = Connect Configure_client (Server_in sk) sk s"

text \<open>The address is uninitialised when \<^verbatim>\<open>getsockname\<close> fails. The hash is narrowed to \<^verbatim>\<open>int\<close>.\<close>

definition GetID_ITCP :: "bool \<Rightarrow> CSocketClientITCP \<Rightarrow> os \<Rightarrow> (int \<times> os) result" where
  "GetID_ITCP HashUsesPort sk s =
     (let (ok, s) = os_call s
      in rbind (defined ok) (\<lambda>_.
         Ok (sint (ucast (hash_ipaddr HashUsesPort (local_addr s (Master sk))) :: 32 word), s)))"

record CSocketClientVTCP = CSocketClient +
  Server_vm :: endpoint

definition CSocketClientVTCP_new :: CSocketClientVTCP where
  "CSocketClientVTCP_new = CSocketClient_new \<lparr>Server_vm = Vsock 0 0\<rparr>"

definition Init_VTCP :: "TPort \<Rightarrow> CSocketClientVTCP \<Rightarrow> CSocketClientVTCP" where
  "Init_VTCP port sk = sk\<lparr>Server_vm := Vsock 2 (ucast port)\<rparr>"

definition Connect_VTCP :: "CSocketClientVTCP \<Rightarrow> os \<Rightarrow> bool \<times> CSocketClientVTCP \<times> os" where
  "Connect_VTCP sk s = Connect Configure_client (Server_vm sk) sk s"

text \<open>\<^verbatim>\<open>open\<close> of \<^verbatim>\<open>/dev/vsock\<close> gives a descriptor the way \<^verbatim>\<open>socket\<close> does.\<close>

definition GetID_VTCP :: "CSocketClientVTCP \<Rightarrow> os \<Rightarrow> int \<times> os" where
  "GetID_VTCP sk s =
     (let (ioctl_fd, s) = os_socket s
      in if ioctl_fd < 0 then (-1, s)
         else let (ok, s) = os_call s
           in if \<not> ok then (-1, os_close ioctl_fd s) else (sint (local_cid s), os_close ioctl_fd s))"

section \<open>Connecting\<close>

text \<open>A new descriptor with a fresh connection, and nothing sent yet.\<close>

definition opened :: "TDescriptor \<Rightarrow> byte list list \<times> nat option list \<Rightarrow> os \<Rightarrow> os \<Rightarrow> bool" where
  "opened d c s s' \<longleftrightarrow> 0 \<le> d \<and> d \<notin> set (open_fds s) \<and> set (open_fds s') = insert d (set (open_fds s)) \<and>
     rx s' d = fst c \<and> tx s' d = snd c \<and> sent s' = sent s"

text \<open>The attempts that are still to come, from the first that is not refused.\<close>

definition coming :: "endpoint \<Rightarrow> os \<Rightarrow> (byte list list \<times> nat option list) option list" where
  "coming ep s = dropWhile (\<lambda>c. c = None) (dials s ep)"

locale dialer =
  fixes vConnect :: "'a CSocketClient_scheme \<Rightarrow> os \<Rightarrow> bool \<times> 'a CSocketClient_scheme \<times> os"
    and target :: "'a CSocketClient_scheme \<Rightarrow> endpoint"
  assumes attempt_made: "vConnect sk s = (True, sk', s') \<Longrightarrow>
      IsConnected sk' \<and> (\<exists>c. dials s (target sk) = Some c # dials s' (target sk) \<and> opened (Master sk') c s s')"
    and attempt_refused: "vConnect sk s = (False, sk', s') \<Longrightarrow>
      target sk' = target sk \<and> StopTheReconnect sk' = StopTheReconnect sk \<and>
      set (open_fds s') = set (open_fds s) \<and> sent s' = sent s \<and> coming (target sk) s' = coming (target sk) s \<and>
      (length (dials s' (target sk)) + length (call_fails s') < length (dials s (target sk)) + length (call_fails s) \<or>
       dials s (target sk) = [])"
begin

lemma loop_connects:
  assumes "\<not> StopTheReconnect sk" and "coming (target sk) s = Some c # cs"
  shows "\<exists>sk' s'. ConnectLoop vConnect sk s = Some (True, sk', s') \<and> IsConnected sk' \<and>
    opened (Master sk') c s s' \<and> dials s' (target sk) = cs"
  using assms
proof (induction "length (dials s (target sk)) + length (call_fails s)" arbitrary: sk s rule: less_induct)
  case less
  obtain ok sk1 s1 where v: "vConnect sk s = (ok, sk1, s1)" by (cases "vConnect sk s")
  show ?case
  proof (cases ok)
    case True
    then obtain c' where "IsConnected sk1" "dials s (target sk) = Some c' # dials s1 (target sk)" "opened (Master sk1) c' s s1"
      using attempt_made [of sk s sk1 s1] v by auto
    then show ?thesis
      using v True less.prems by (subst ConnectLoop.simps) (auto simp: coming_def)
  next
    case False
    from v False have v': "vConnect sk s = (False, sk1, s1)" by simp
    note r = attempt_refused [OF v']
    have "dials s (target sk) \<noteq> []" using less.prems(2) by (auto simp: coming_def)
    then have "\<exists>sk' s'. ConnectLoop vConnect sk1 s1 = Some (True, sk', s') \<and> IsConnected sk' \<and>
        opened (Master sk') c s1 s' \<and> dials s' (target sk1) = cs"
      using less.prems r by (intro less.hyps) auto
    moreover have "ConnectLoop vConnect sk s = ConnectLoop vConnect sk1 s1"
      using v False less.prems(1) by (subst ConnectLoop.simps) simp
    ultimately show ?thesis using r by (auto simp: opened_def)
  qed
qed

lemma loop_returns_only_if:
  assumes "ConnectLoop vConnect sk s = Some r"
  shows "StopTheReconnect sk \<or> coming (target sk) s \<noteq> []"
proof (rule ConnectLoop.raw_induct [where P = "\<lambda>v sk s r. v = vConnect \<longrightarrow> StopTheReconnect sk \<or> coming (target sk) s \<noteq> []",
      THEN mp, OF _ assms refl])
  fix loop v sk s r
  assume ih: "\<And>v sk s r. loop v sk s = Some r \<Longrightarrow> v = vConnect \<longrightarrow> StopTheReconnect sk \<or> coming (target sk) s \<noteq> []"
    and body: "(if \<not> StopTheReconnect sk then
        (case v sk s of (ok, sk, s) \<Rightarrow> if ok then Some (True, sk, s) else loop v sk s)
      else Some (False, sk, s)) = Some r"
  show "v = vConnect \<longrightarrow> StopTheReconnect sk \<or> coming (target sk) s \<noteq> []"
  proof (rule impI, rule ccontr)
    assume [simp]: "v = vConnect" and n: "\<not> (StopTheReconnect sk \<or> coming (target sk) s \<noteq> [])"
    obtain ok sk1 s1 where v: "vConnect sk s = (ok, sk1, s1)" by (cases "vConnect sk s")
    have "\<not> ok" using attempt_made [of sk s sk1 s1] v n by (auto simp: coming_def)
    moreover from this have "StopTheReconnect sk1 \<or> coming (target sk1) s1 \<noteq> []"
      using ih [of vConnect sk1 s1 r] body v n by simp
    ultimately show False using attempt_refused [of sk s sk1 s1] v n by auto
  qed
qed

end

lemma os_socket_cases:
  assumes "os_socket s = (d, s')"
  obtains (failed) "d = SOCKET_ERROR" "open_fds s' = open_fds s" "length (call_fails s') < length (call_fails s)"
      "sent s' = sent s" "dials s' = dials s"
  | (fresh) "0 \<le> d" "d \<notin> set (open_fds s)" "open_fds s' = d # open_fds s" "length (call_fails s') \<le> length (call_fails s)"
      "sent s' = sent s" "dials s' = dials s"
  using assms lowest_free_fresh [of "open_fds s"] lowest_free_nonneg [of "open_fds s"]
  by (auto simp: os_socket_def os_call_def SOCKET_ERROR_def Let_def split: list.splits if_splits)

text \<open>Both classes keep their target while they connect.\<close>

lemma dialer_family:
  assumes f: "\<And>sk s. f sk s = Connect Configure_client (target sk) sk s"
    and t: "\<And>sk m. target (sk\<lparr>Master := m\<rparr>) = target sk"
  shows "dialer f target"
proof
  fix sk s sk' s' assume a: "f sk s = (True, sk', s')"
  obtain d t where os: "os_socket s = (d, t)" by (cases "os_socket s")
  from os show "IsConnected sk' \<and> (\<exists>c. dials s (target sk) = Some c # dials s' (target sk) \<and> opened (Master sk') c s s')"
  proof (cases rule: os_socket_cases)
    case failed
    with a show ?thesis by (simp add: f os Connect_def Configure_client_def)
  next
    case fresh
    with a show ?thesis
      by (auto simp: f os Connect_def Configure_client_def os_connect_def SOCKET_ERROR_def opened_def Let_def
          split: list.splits option.splits prod.splits if_splits)
  qed
next
  fix sk s sk' s' assume a: "f sk s = (False, sk', s')"
  obtain d t where os: "os_socket s = (d, t)" by (cases "os_socket s")
  from os show "target sk' = target sk \<and> StopTheReconnect sk' = StopTheReconnect sk \<and>
      set (open_fds s') = set (open_fds s) \<and> sent s' = sent s \<and> coming (target sk) s' = coming (target sk) s \<and>
      (length (dials s' (target sk)) + length (call_fails s') < length (dials s (target sk)) + length (call_fails s) \<or>
       dials s (target sk) = [])"
  proof (cases rule: os_socket_cases)
    case failed
    with a show ?thesis by (auto simp: f t os Connect_def Configure_client_def coming_def)
  next
    case fresh
    with a show ?thesis
      by (auto simp: f t os Connect_def Configure_client_def CSocket_Close_def os_connect_def os_close_def SOCKET_ERROR_def
          coming_def Let_def split: list.splits option.splits prod.splits if_splits)
  qed
qed

interpretation itcp_client: dialer Connect_ITCP Server_in
  by (rule dialer_family) (simp_all add: Connect_ITCP_def)

interpretation vtcp_client: dialer Connect_VTCP Server_vm
  by (rule dialer_family) (simp_all add: Connect_VTCP_def)

section \<open>Properties\<close>

text \<open>
  C24: the loop that connects returns exactly when some attempt is going to succeed, whatever number of
  refusals and failed system calls comes before; it then returns with a new connected descriptor,
  every descriptor of a failed attempt closed. When every attempt is refused it runs for ever.
\<close>

theorem connect_loop_returns:
  assumes "\<not> StopTheReconnect sk"
  shows "(ConnectLoop Connect_ITCP sk s \<noteq> None \<longleftrightarrow> (\<exists>c. Some c \<in> set (dials s (Server_in sk)))) \<and>
    (\<forall>r. ConnectLoop Connect_ITCP sk s = Some r \<longrightarrow>
       (\<exists>sk' s' c. r = (True, sk', s') \<and> IsConnected sk' \<and> opened (Master sk') c s s'))"
proof -
  have coming: "coming (Server_in sk) s \<noteq> [] \<longleftrightarrow> (\<exists>c. Some c \<in> set (dials s (Server_in sk)))"
    by (auto simp: coming_def dropWhile_eq_Nil_conv)
  have con: "\<exists>sk' s' c. ConnectLoop Connect_ITCP sk s = Some (True, sk', s') \<and> IsConnected sk' \<and> opened (Master sk') c s s'"
    if ne: "coming (Server_in sk) s \<noteq> []"
  proof -
    obtain x cs where x: "coming (Server_in sk) s = x # cs" using ne by (cases "coming (Server_in sk) s") simp_all
    then have "x \<noteq> None" unfolding coming_def by (metis (mono_tags) hd_dropWhile list.discI list.sel(1))
    with x obtain c where "coming (Server_in sk) s = Some c # cs" by auto
    from itcp_client.loop_connects [OF assms this] show ?thesis by blast
  qed
  show ?thesis
    using con coming itcp_client.loop_returns_only_if [of sk s] assms by fastforce
qed

theorem connect_loop_returns_witness:
  "ConnectLoop Connect_ITCP CSocketClientITCP_new os_start = None \<and>
   ConnectLoop Connect_ITCP CSocketClientITCP_new (os_start\<lparr>dials := (\<lambda>_. [None, None, Some ([], [])])\<rparr>) \<noteq> None"
proof -
  have s: "\<not> StopTheReconnect CSocketClientITCP_new"
    by (simp add: CSocketClientITCP_new_def CSocketClient_new_def CSocketClient_Init_def CSocket.defs CSocket_new_def)
  have "dials os_start = (\<lambda>_. [])" by (simp add: os_start_def)
  then have "ConnectLoop Connect_ITCP CSocketClientITCP_new os_start = None"
    using connect_loop_returns [OF s, of os_start] by (metis empty_iff list.set(1))
  moreover have "ConnectLoop Connect_ITCP CSocketClientITCP_new (os_start\<lparr>dials := (\<lambda>_. [None, None, Some ([], [])])\<rparr>) \<noteq> None"
    using connect_loop_returns [OF s, of "os_start\<lparr>dials := (\<lambda>_. [None, None, Some ([], [])])\<rparr>"] by simp
  ultimately show ?thesis by blast
qed

end
