(* ===== verification/Vwifi_Radio.thy ===== *)
theory Vwifi_Radio
  imports Vwifi_Prelude
begin

text \<open>
  The radio model of the server: positions (\<^verbatim>\<open>src/src/ccoordinate.cc\<close>), free-space
  attenuation, clamping of the power and the random loss of packets (\<^verbatim>\<open>src/src/cwifi.cc\<close>).

  A \<^verbatim>\<open>double\<close> is a real number, an infinity or a NaN, with the IEEE rules for the special
  values; the rounding of a finite result is not modelled, so the finite arithmetic is exact. The
  32-bit integer arithmetic under the square root and the conversion of the attenuation to
  \<^verbatim>\<open>int\<close> keep their width: signed overflow and an unrepresentable conversion are
  \<^const>\<open>Undefined_behaviour\<close>.

  The lemmas show the distance is a metric where it is defined and give the exact range of
  coordinates for which it always is; that attenuation grows with distance and frequency; that the
  clamped power is in range; and which signal levels are always or never lost.
\<close>

unbundle bit_operations_syntax

section \<open>Definitions\<close>

datatype double = Fin real | PInf | NInf | NaN

fun dneg_inf :: "bool \<Rightarrow> double" where
  "dneg_inf True = NInf"
| "dneg_inf False = PInf"

fun dadd :: "double \<Rightarrow> double \<Rightarrow> double" where
  "dadd (Fin x) (Fin y) = Fin (x + y)"
| "dadd NaN _ = NaN"
| "dadd _ NaN = NaN"
| "dadd PInf NInf = NaN"
| "dadd NInf PInf = NaN"
| "dadd PInf _ = PInf"
| "dadd _ PInf = PInf"
| "dadd NInf _ = NInf"
| "dadd _ NInf = NInf"

fun dsgn :: "double \<Rightarrow> real" where
  "dsgn (Fin x) = sgn x"
| "dsgn PInf = 1"
| "dsgn NInf = -1"
| "dsgn NaN = 0"

definition dmul :: "double \<Rightarrow> double \<Rightarrow> double" where
  "dmul a b =
     (case (a, b) of
        (Fin x, Fin y) \<Rightarrow> Fin (x * y)
      | (NaN, _) \<Rightarrow> NaN
      | (_, NaN) \<Rightarrow> NaN
      | _ \<Rightarrow> if dsgn a * dsgn b = 0 then NaN else dneg_inf (dsgn a * dsgn b < 0))"

fun dsqrt :: "double \<Rightarrow> double" where
  "dsqrt (Fin x) = (if x < 0 then NaN else Fin (sqrt x))"
| "dsqrt PInf = PInf"
| "dsqrt NInf = NaN"
| "dsqrt NaN = NaN"

fun dlog10 :: "double \<Rightarrow> double" where
  "dlog10 (Fin x) = (if x < 0 then NaN else if x = 0 then NInf else Fin (log 10 x))"
| "dlog10 PInf = PInf"
| "dlog10 NInf = NaN"
| "dlog10 NaN = NaN"

text \<open>Conversion to \<^verbatim>\<open>int\<close>: towards zero, undefined when the result is not representable.\<close>

definition trunc :: "real \<Rightarrow> int" where
  "trunc x = (if x < 0 then \<lceil>x\<rceil> else \<lfloor>x\<rfloor>)"

fun double_to_int :: "double \<Rightarrow> int result" where
  "double_to_int (Fin x) = s32 (trunc x)"
| "double_to_int _ = Fault Undefined_behaviour"

text \<open>The value of a stored \<^verbatim>\<open>double\<close>, from its 64 bits.\<close>

definition double_of_bits :: "64 word \<Rightarrow> double" where
  "double_of_bits w =
     (let neg = bit w 63; e = unat w div 2 ^ 52 mod 2 ^ 11; m = unat w mod 2 ^ 52;
          s = (if neg then -1 else 1 :: real)
      in if e = 2047 then (if m = 0 then dneg_inf neg else NaN)
         else if e = 0 then Fin (s * real m / 2 ^ 1074)
         else Fin (s * real (2 ^ 52 + m) * 2 ^ e / 2 ^ 1075))"

text \<open>Class \<^verbatim>\<open>CCoordinate\<close>.\<close>

record CCoordinate =
  X :: TValue
  Y :: TValue
  Z :: TValue

definition SetX :: "TValue \<Rightarrow> 'a CCoordinate_scheme \<Rightarrow> 'a CCoordinate_scheme" where
  "SetX x c = c\<lparr>X := x\<rparr>"

definition SetY :: "TValue \<Rightarrow> 'a CCoordinate_scheme \<Rightarrow> 'a CCoordinate_scheme" where
  "SetY y c = c\<lparr>Y := y\<rparr>"

definition SetZ :: "TValue \<Rightarrow> 'a CCoordinate_scheme \<Rightarrow> 'a CCoordinate_scheme" where
  "SetZ z c = c\<lparr>Z := z\<rparr>"

definition Set2 :: "TValue \<Rightarrow> TValue \<Rightarrow> 'a CCoordinate_scheme \<Rightarrow> 'a CCoordinate_scheme" where
  "Set2 x y c = SetY y (SetX x c)"

definition Set3 ::
  "TValue \<Rightarrow> TValue \<Rightarrow> TValue \<Rightarrow> 'a CCoordinate_scheme \<Rightarrow> 'a CCoordinate_scheme" where
  "Set3 x y z c = SetZ z (Set2 x y c)"

definition SetCoo :: "'b CCoordinate_scheme \<Rightarrow> 'a CCoordinate_scheme \<Rightarrow> 'a CCoordinate_scheme" where
  "SetCoo coo c = Set3 (X coo) (Y coo) (Z coo) c"

definition CCoordinate_new :: CCoordinate where
  "CCoordinate_new = \<lparr>X = 0, Y = 0, Z = 0\<rparr>"

text \<open>
  \<^verbatim>\<open>CCoordinate(x,y,z)\<close>; and the copy, by constructor or by \<^verbatim>\<open>operator=\<close>, of the
  coordinate part of an object of the class or of a subclass.
\<close>

definition CCoordinate_of :: "TValue \<Rightarrow> TValue \<Rightarrow> TValue \<Rightarrow> CCoordinate" where
  "CCoordinate_of x y z = Set3 x y z CCoordinate_new"

definition coo_of :: "'a CCoordinate_scheme \<Rightarrow> CCoordinate" where
  "coo_of c = SetCoo c CCoordinate_new"

definition sq_diff :: "TValue \<Rightarrow> TValue \<Rightarrow> int result" where
  "sq_diff a b = rbind (s32 (sint a - sint b)) (\<lambda>d. s32 (d * d))"

definition DistanceWithXYZ ::
  "double \<Rightarrow> 'a CCoordinate_scheme \<Rightarrow> TValue \<Rightarrow> TValue \<Rightarrow> TValue \<Rightarrow> double result" where
  "DistanceWithXYZ Scale c x y z =
     rbind (sq_diff (X c) x) (\<lambda>dx.
     rbind (sq_diff (Y c) y) (\<lambda>dy.
     rbind (s32 (dx + dy)) (\<lambda>dxy.
     rbind (sq_diff (Z c) z) (\<lambda>dz.
     rbind (s32 (dxy + dz)) (\<lambda>n.
     Ok (dmul Scale (dsqrt (Fin (of_int n)))))))))"

definition DistanceWith ::
  "double \<Rightarrow> 'a CCoordinate_scheme \<Rightarrow> 'b CCoordinate_scheme \<Rightarrow> double result" where
  "DistanceWith Scale c coo = DistanceWithXYZ Scale c (X coo) (Y coo) (Z coo)"

text \<open>The bytes of a \<^verbatim>\<open>CCoordinate\<close>: three consecutive 32-bit integers.\<close>

definition put_coo :: "'a CCoordinate_scheme \<Rightarrow> byte list" where
  "put_coo c = put_word (X c) @ put_word (Y c) @ put_word (Z c)"

definition get_coo :: "byte list \<Rightarrow> CCoordinate" where
  "get_coo bs = \<lparr>X = get_word (take 4 bs), Y = get_word (take 4 (drop 4 bs)),
                 Z = get_word (take 4 (drop 8 bs))\<rparr>"

text \<open>Class \<^verbatim>\<open>CWifi\<close>.\<close>

definition ConstanteC :: real where "ConstanteC = 92.45"
definition DEFAULT_FREQUENCY :: TFrequency where "DEFAULT_FREQUENCY = 2412"
definition MTU :: int where "MTU = 2352"

text \<open>
  \<^verbatim>\<open>genlmsg_parse\<close> of libnl is a parameter: it refuses a message shorter than its headers and
  leaves the attribute table untouched, otherwise it says whether \<^verbatim>\<open>HWSIM_ATTR_FREQ\<close> is
  present and its value. \<^verbatim>\<open>GetFrequency\<close> ignores the verdict: after a refusal it reads an
  uninitialised table.
\<close>

datatype freq_attr = Parse_refused | Parsed "TFrequency option"

definition GetFrequency :: "(byte list \<Rightarrow> freq_attr) \<Rightarrow> byte list \<Rightarrow> TFrequency result" where
  "GetFrequency genlmsg_parse nlh =
     (case genlmsg_parse nlh of
        Parse_refused \<Rightarrow> Fault Undefined_behaviour
      | Parsed (Some f) \<Rightarrow> Ok f
      | Parsed None \<Rightarrow> Ok DEFAULT_FREQUENCY)"

definition Attenuation :: "double \<Rightarrow> TFrequency \<Rightarrow> int result" where
  "Attenuation distance frequency =
     (if distance = Fin 0 then Ok 0
      else double_to_int
        (dadd (dadd (Fin ConstanteC)
                 (dmul (Fin 20) (dadd (dlog10 (Fin (real (unat frequency)))) (Fin (- 3)))))
              (dmul (Fin 20) (dadd (dlog10 distance) (Fin (- 3))))))"

definition BoundedPower :: "int \<Rightarrow> TPower" where
  "BoundedPower pw =
     (if pw < TPower_MIN then word_of_int TPower_MIN
      else if pw > TPower_MAX then word_of_int TPower_MAX
      else word_of_int pw)"

text \<open>\<open>r\<close> is what \<^verbatim>\<open>rand()\<close> returned.\<close>

definition PacketIsLost :: "nat \<Rightarrow> TPower \<Rightarrow> bool" where
  "PacketIsLost r signalLevel =
     (let alea = int (r mod 53) + 40
      in if alea > - sint signalLevel then False else True)"

text \<open>The signal level at a receiver, as \<^verbatim>\<open>SendAllOtherClients\<close> of cwifiserver.cc computes it.\<close>

definition signal_level ::
  "double \<Rightarrow> 'a CCoordinate_scheme \<Rightarrow> 'b CCoordinate_scheme \<Rightarrow> TFrequency \<Rightarrow> TPower \<Rightarrow> TPower result" where
  "signal_level Scale coo dst frequency pw =
     rbind (DistanceWith Scale coo dst) (\<lambda>distance.
     rbind (Attenuation distance frequency) (\<lambda>att.
     rbind (s32 (sint pw - att)) (\<lambda>p.
     Ok (BoundedPower p))))"

section \<open>Coordinates\<close>

lemmas set_coo_defs = SetX_def SetY_def SetZ_def Set2_def Set3_def SetCoo_def

lemma SetCoo_fields [simp]:
  "X (SetCoo coo c) = X coo" "Y (SetCoo coo c) = Y coo" "Z (SetCoo coo c) = Z coo"
  "CCoordinate.more (SetCoo coo c) = CCoordinate.more c"
  by (simp_all add: set_coo_defs)

lemma coo_of_fields [simp]: "X (coo_of c) = X c" "Y (coo_of c) = Y c" "Z (coo_of c) = Z c"
  by (simp_all add: coo_of_def)

lemma coo_of_SetCoo [simp]: "coo_of (SetCoo coo c) = coo_of coo"
  by (simp add: coo_of_def set_coo_defs)

lemma coo_of_coo_of [simp]: "coo_of (coo_of c) = coo_of c"
  by (simp add: coo_of_def set_coo_defs)

lemma coo_of_id [simp]: "coo_of (c :: CCoordinate) = c"
  by (simp add: coo_of_def set_coo_defs CCoordinate_new_def)

lemma coo_of_CCoordinate_of [simp]: "CCoordinate_of x y z = \<lparr>X = x, Y = y, Z = z\<rparr>"
  by (simp add: CCoordinate_of_def set_coo_defs CCoordinate_new_def)

interpretation cooc: codec "put_coo :: CCoordinate \<Rightarrow> _" get_coo 12
  by unfold_locales (simp_all add: put_coo_def get_coo_def)

lemma put_coo_coo_of [simp]: "put_coo (coo_of c) = put_coo c"
  by (simp add: put_coo_def)

lemma put_coo_simps [simp, wire_simps]:
  "length (put_coo c) = 12" "get_coo (put_coo c) = coo_of c"
proof -
  show "length (put_coo c) = 12"
    by (simp add: put_coo_def)
  have "get_coo (put_coo (coo_of c)) = coo_of c"
    by (rule cooc.get_put)
  then show "get_coo (put_coo c) = coo_of c"
    by simp
qed

lemma s32_Ok [simp]: "in_s32 i \<Longrightarrow> s32 i = Ok i"
  by (simp add: s32_def)

lemma in_s32_small: "\<bar>i\<bar> \<le> b \<Longrightarrow> b < 2 ^ 31 \<Longrightarrow> in_s32 i"
  unfolding in_s32_def by linarith

lemma s32_Inr_iff: "s32 i = Inr j \<longleftrightarrow> in_s32 i \<and> j = i"
  by (auto simp: s32_def)

text \<open>The squared distance, when the 32-bit arithmetic can hold it.\<close>

definition dist2 :: "'a CCoordinate_scheme \<Rightarrow> 'b CCoordinate_scheme \<Rightarrow> int" where
  "dist2 c d = (sint (X c) - sint (X d))\<^sup>2 + (sint (Y c) - sint (Y d))\<^sup>2 + (sint (Z c) - sint (Z d))\<^sup>2"

lemma sq_diff_eq:
  "sq_diff a b =
     (if (sint a - sint b)\<^sup>2 < 2 ^ 31 then Ok ((sint a - sint b)\<^sup>2) else Fault Undefined_behaviour)"
proof -
  define d where "d = sint a - sint b"
  have "in_s32 d" if "d\<^sup>2 < 2 ^ 31"
  proof -
    have "\<bar>d\<bar> * 1 \<le> \<bar>d\<bar> * \<bar>d\<bar>"
      by (cases "d = 0") (simp, rule mult_left_mono, simp_all)
    then have "\<bar>d\<bar> \<le> d\<^sup>2"
      by (simp add: power2_eq_square)
    with that show ?thesis by (auto simp: in_s32_def)
  qed
  moreover have "- (2 ^ 31) \<le> d * d"
    by (rule order_trans [OF _ zero_le_square]) simp
  ultimately show ?thesis
    by (auto simp: sq_diff_def s32_def in_s32_def power2_eq_square simp flip: d_def)
qed

lemma DistanceWith_eq:
  "DistanceWith Scale c d =
     (if dist2 c d < 2 ^ 31 then Ok (dmul Scale (Fin (sqrt (of_int (dist2 c d)))))
      else Fault Undefined_behaviour)"
proof -
  define a where "a = (sint (X c) - sint (X d))\<^sup>2"
  define b where "b = (sint (Y c) - sint (Y d))\<^sup>2"
  define e where "e = (sint (Z c) - sint (Z d))\<^sup>2"
  have nn: "0 \<le> a" "0 \<le> b" "0 \<le> e"
    by (simp_all add: a_def b_def e_def)
  show ?thesis
    unfolding DistanceWith_def DistanceWithXYZ_def dist2_def sq_diff_eq a_def [symmetric]
      b_def [symmetric] e_def [symmetric]
    using nn by (auto simp: s32_def in_s32_def)
qed

lemma dist2_commute: "dist2 c d = dist2 d c"
  by (simp add: dist2_def power2_commute)

lemma dist2_self [simp]: "dist2 c c = 0"
  by (simp add: dist2_def)

lemma dist2_nonneg [simp]: "0 \<le> dist2 c d"
  by (simp add: dist2_def)

lemma dist2_eq_0: "dist2 c d = 0 \<longleftrightarrow> coo_of c = coo_of d"
proof -
  have "dist2 c d = 0 \<longleftrightarrow> X c = X d \<and> Y c = Y d \<and> Z c = Z d"
    by (auto simp: dist2_def add_nonneg_eq_0_iff intro: signed_word_eqI)
  also have "\<dots> \<longleftrightarrow> coo_of c = coo_of d"
    by (auto simp: coo_of_def set_coo_defs CCoordinate_new_def)
  finally show ?thesis .
qed

text \<open>Coordinates of at most 13377 in absolute value never overflow.\<close>

definition near :: "'a CCoordinate_scheme \<Rightarrow> bool" where
  "near c \<longleftrightarrow> \<bar>sint (X c)\<bar> \<le> 13377 \<and> \<bar>sint (Y c)\<bar> \<le> 13377 \<and> \<bar>sint (Z c)\<bar> \<le> 13377"

lemma near_coo_of [simp]: "near (coo_of c) = near c"
  by (simp add: near_def)

lemma sq_near: "\<bar>a\<bar> \<le> 13377 \<Longrightarrow> \<bar>b\<bar> \<le> 13377 \<Longrightarrow> (a - b)\<^sup>2 \<le> 26754\<^sup>2" for a b :: int
  by (rule abs_le_square_iff [THEN iffD1]) simp

lemma dist2_near: "near c \<Longrightarrow> near d \<Longrightarrow> dist2 c d < 2 ^ 31"
  using sq_near [of "sint (X c)" "sint (X d)"] sq_near [of "sint (Y c)" "sint (Y d)"]
    sq_near [of "sint (Z c)" "sint (Z d)"]
  by (simp add: near_def dist2_def)

section \<open>Attenuation and signal level\<close>

lemma dmul_Fin [simp]: "dmul (Fin x) (Fin y) = Fin (x * y)"
  by (simp add: dmul_def)

text \<open>The loss in decibels of a positive distance, before the conversion to an integer.\<close>

definition loss_dB :: "real \<Rightarrow> TFrequency \<Rightarrow> real" where
  "loss_dB d f = ConstanteC + 20 * (log 10 (real (unat f)) - 3) + 20 * (log 10 d - 3)"

lemma Attenuation_zero [simp]: "Attenuation (Fin 0) f = Ok 0"
  by (simp add: Attenuation_def)

lemma Attenuation_pos: "0 < d \<Longrightarrow> f \<noteq> 0 \<Longrightarrow> Attenuation (Fin d) f = s32 (trunc (loss_dB d f))"
  by (simp add: Attenuation_def loss_dB_def unat_eq_0 del: of_nat_unat)

lemma trunc_mono: "x \<le> y \<Longrightarrow> trunc x \<le> trunc y"
proof -
  assume le: "x \<le> y"
  consider "y < 0" | "x < 0" "0 \<le> y" | "0 \<le> x" by linarith
  then show ?thesis
  proof cases
    case 1
    with le show ?thesis by (simp add: trunc_def ceiling_mono)
  next
    case 2
    then have "\<lceil>x\<rceil> \<le> 0" "0 \<le> \<lfloor>y\<rfloor>" by (simp_all add: ceiling_le_iff)
    then have "\<lceil>x\<rceil> \<le> \<lfloor>y\<rfloor>" by (rule order_trans)
    with 2 show ?thesis by (simp add: trunc_def)
  next
    case 3
    with le show ?thesis by (simp add: trunc_def floor_mono)
  qed
qed

lemma trunc_abs_le: "\<bar>x\<bar> \<le> of_int n \<Longrightarrow> \<bar>trunc x\<bar> \<le> n"
proof -
  assume b: "\<bar>x\<bar> \<le> of_int n"
  have "- of_int n \<le> x" and "x \<le> of_int n" using b by auto
  then show ?thesis
    by (auto simp: trunc_def abs_le_iff floor_le_iff ceiling_le_iff le_floor_iff
        intro: order_trans [of _ 0] minus_le_iff [THEN iffD1])
       (linarith)+
qed

lemma loss_dB_mono:
  assumes "0 < d" and "d \<le> d'" and "f \<noteq> 0" and "f \<le> f'"
  shows "loss_dB d f \<le> loss_dB d' f'"
proof -
  have "0 < unat f" and "unat f \<le> unat f'"
    using assms(3,4) by (simp_all add: word_le_nat_alt unat_gt_0)
  then have "log 10 (real (unat f)) \<le> log 10 (real (unat f'))"
    by (simp del: of_nat_unat)
  moreover have "log 10 d \<le> log 10 d'"
    using assms(1,2) by simp
  ultimately show ?thesis
    by (simp add: loss_dB_def)
qed

text \<open>Every positive finite \<^verbatim>\<open>double\<close> times the root of a 32-bit integer is in this range.\<close>

lemma loss_dB_range:
  assumes "1 / 10 ^ 400 \<le> d" and "d \<le> 10 ^ 400" and "f \<noteq> 0"
  shows "\<bar>loss_dB d f\<bar> \<le> 10000"
proof -
  have f: "1 \<le> real (unat f)" "real (unat f) \<le> 10 ^ 10"
  proof -
    show "1 \<le> real (unat f)"
      using assms(3) unat_gt_0 [of f] by (simp del: of_nat_unat)
    have "unat f < 2 ^ 32" using unsigned_less [of f] by simp
    then have "unat f \<le> 10 ^ 10" by simp
    then show "real (unat f) \<le> 10 ^ 10"
      by (metis of_nat_le_iff of_nat_numeral of_nat_power)
  qed
  have "log 10 (real (unat f)) \<le> log 10 (10 ^ 10)"
    using f by (subst log_le_cancel_iff) (simp_all del: of_nat_unat)
  moreover have "log 10 (10 ^ 10) = (10 :: real)"
    by (subst log_nat_power) simp_all
  ultimately have lf1: "log 10 (real (unat f)) \<le> 10"
    by linarith
  have lf0: "0 \<le> log 10 (real (unat f))"
    using f by (simp del: of_nat_unat)
  have d: "0 < d" by (rule less_le_trans [OF _ assms(1)]) simp
  have "log 10 d \<le> log 10 (10 ^ 400)"
    using d assms(2) by (subst log_le_cancel_iff) simp_all
  moreover have "log 10 (1 / 10 ^ 400) \<le> log 10 d"
    using d assms(1) by (subst log_le_cancel_iff) simp_all
  moreover have "log 10 (10 ^ 400) = (400 :: real)"
    by (subst log_nat_power) simp_all
  moreover have "log 10 (1 / 10 ^ 400) = - log 10 (10 ^ 400 :: real)"
    by (subst log_divide) simp_all
  ultimately have "\<bar>log 10 d\<bar> \<le> 400"
    by linarith
  with lf0 lf1 show ?thesis
    by (simp add: loss_dB_def ConstanteC_def)
qed

lemma Attenuation_Ok:
  assumes "1 / 10 ^ 400 \<le> d" and "d \<le> 10 ^ 400" and "f \<noteq> 0"
  shows "Attenuation (Fin d) f = Ok (trunc (loss_dB d f))" and "\<bar>trunc (loss_dB d f)\<bar> \<le> 10000"
proof -
  have d: "0 < d" by (rule less_le_trans [OF _ assms(1)]) simp
  show b: "\<bar>trunc (loss_dB d f)\<bar> \<le> 10000"
    using loss_dB_range [OF assms] by (intro trunc_abs_le) simp
  then have "in_s32 (trunc (loss_dB d f))"
    by (rule in_s32_small) simp
  then show "Attenuation (Fin d) f = Ok (trunc (loss_dB d f))"
    using d assms(3) by (simp add: Attenuation_pos)
qed

lemma sint_BoundedPower: "sint (BoundedPower p) = max TPower_MIN (min TPower_MAX p)"
  by (auto simp: BoundedPower_def TPower_MIN_def TPower_MAX_def signed_of_int
      intro!: signed_take_bit_int_eq_self)

lemma sint_power_range: "- 128 \<le> sint (p :: TPower)" "sint (p :: TPower) < 128"
  using sint_ge [of p] sint_lt [of p] by simp_all

lemma PacketIsLost_iff: "PacketIsLost r l \<longleftrightarrow> int (r mod 53) + 40 \<le> - sint l"
  by (auto simp: PacketIsLost_def Let_def)

text \<open>The scales a client program can send: finite and positive.\<close>

definition good_scale :: "double \<Rightarrow> bool" where
  "good_scale s \<longleftrightarrow> (case s of Fin k \<Rightarrow> 1 / 10 ^ 330 \<le> k \<and> k \<le> 10 ^ 330 | _ \<Rightarrow> False)"

lemma signal_level_same_place:
  assumes "good_scale s" and "coo_of c = coo_of d"
  shows "signal_level s c d f p = Ok (BoundedPower (sint p))"
proof -
  obtain k where k: "s = Fin k"
    using assms(1) by (auto simp: good_scale_def split: double.splits)
  have "dist2 c d = 0" using assms(2) by (simp add: dist2_eq_0)
  then have "DistanceWith s c d = Ok (Fin 0)"
    by (simp add: DistanceWith_eq k)
  then show ?thesis
    using sint_power_range [of p] by (simp add: signal_level_def in_s32_def)
qed

lemma distance_range:
  assumes "good_scale (Fin k)" and "0 < n" and "n < 2 ^ 31"
  shows "1 / 10 ^ 400 \<le> k * sqrt (of_int n)" and "k * sqrt (of_int n) \<le> 10 ^ 400"
proof -
  have k: "1 / 10 ^ 330 \<le> k" "k \<le> 10 ^ 330"
    using assms(1) by (simp_all add: good_scale_def)
  have k0: "0 < k" by (rule less_le_trans [OF _ k(1)]) simp
  have lo: "1 \<le> sqrt (of_int n)" using assms(2) by simp
  have "sqrt (of_int n) \<le> sqrt ((10 ^ 10)\<^sup>2)"
    using assms(3) by (intro real_sqrt_le_mono) simp
  then have hi: "sqrt (of_int n) \<le> 10 ^ 10" by simp
  have "k * 1 \<le> k * sqrt (of_int n)"
    using k0 lo by (intro mult_left_mono) simp_all
  moreover have "1 / 10 ^ 400 \<le> (1 / 10 ^ 330 :: real)"
    by simp
  ultimately show "1 / 10 ^ 400 \<le> k * sqrt (of_int n)"
    using k(1) by linarith
  have "k * sqrt (of_int n) \<le> 10 ^ 330 * 10 ^ 10"
    using k(2) k0 lo hi by (intro mult_mono) simp_all
  then show "k * sqrt (of_int n) \<le> 10 ^ 400"
    by (rule order_trans) simp
qed

lemma signal_level_Ok:
  assumes "good_scale s" and "dist2 c d < 2 ^ 31" and "f \<noteq> 0"
  shows "\<exists>l. signal_level s c d f p = Ok l"
proof (cases "dist2 c d = 0")
  case True
  with assms(1) show ?thesis
    by (simp add: signal_level_same_place dist2_eq_0)
next
  case False
  obtain k where k: "s = Fin k"
    using assms(1) by (auto simp: good_scale_def split: double.splits)
  have pos: "0 < dist2 c d"
    using False dist2_nonneg [of c d] by linarith
  note r = distance_range [OF assms(1) [unfolded k] pos assms(2)]
  note a = Attenuation_Ok [OF r assms(3)]
  have "in_s32 (sint p - trunc (loss_dB (k * sqrt (of_int (dist2 c d))) f))"
    using a(2) sint_power_range [of p] by (intro in_s32_small [of _ 20000]) (linarith, simp)
  then show ?thesis
    using assms(2) a(1) by (simp add: signal_level_def DistanceWith_eq k)
qed

lemma signal_level_range:
  "signal_level s c d f p = Ok l \<Longrightarrow> TPower_MIN \<le> sint l \<and> sint l \<le> TPower_MAX"
  by (auto simp: signal_level_def rbind_Inr_iff sint_BoundedPower TPower_MIN_def TPower_MAX_def)

section \<open>Properties\<close>

text \<open>The triangle inequality in three dimensions, from the one in two.\<close>

lemma sqrt3_triangle:
  "sqrt ((a + x)\<^sup>2 + (b + y)\<^sup>2 + (c + z)\<^sup>2) \<le> sqrt (a\<^sup>2 + b\<^sup>2 + c\<^sup>2) + sqrt (x\<^sup>2 + y\<^sup>2 + z\<^sup>2)"
proof -
  define u v where "u = sqrt (a\<^sup>2 + b\<^sup>2)" and "v = sqrt (x\<^sup>2 + y\<^sup>2)"
  have uv: "u\<^sup>2 = a\<^sup>2 + b\<^sup>2" "v\<^sup>2 = x\<^sup>2 + y\<^sup>2" by (simp_all add: u_def v_def)
  have "sqrt ((a + x)\<^sup>2 + (b + y)\<^sup>2) \<le> u + v"
    unfolding u_def v_def by (rule real_sqrt_sum_squares_triangle_ineq)
  then have "(sqrt ((a + x)\<^sup>2 + (b + y)\<^sup>2))\<^sup>2 \<le> (u + v)\<^sup>2"
    by (rule power_mono) simp
  then have "(a + x)\<^sup>2 + (b + y)\<^sup>2 \<le> (u + v)\<^sup>2" by simp
  then have "sqrt ((a + x)\<^sup>2 + (b + y)\<^sup>2 + (c + z)\<^sup>2) \<le> sqrt ((u + v)\<^sup>2 + (c + z)\<^sup>2)"
    by simp
  also have "\<dots> \<le> sqrt (u\<^sup>2 + c\<^sup>2) + sqrt (v\<^sup>2 + z\<^sup>2)"
    by (rule real_sqrt_sum_squares_triangle_ineq)
  finally show ?thesis by (simp add: uv)
qed

lemma dist2_triangle: "sqrt (of_int (dist2 c e)) \<le> sqrt (of_int (dist2 c d)) + sqrt (of_int (dist2 d e))"
  using sqrt3_triangle [of "of_int (sint (X c) - sint (X d))" "of_int (sint (X d) - sint (X e))"
      "of_int (sint (Y c) - sint (Y d))" "of_int (sint (Y d) - sint (Y e))"
      "of_int (sint (Z c) - sint (Z d))" "of_int (sint (Z d) - sint (Z e))"]
  by (simp add: dist2_def)

lemma DistanceWith_near:
  "near c \<Longrightarrow> near d \<Longrightarrow> DistanceWith (Fin k) c d = Ok (Fin (k * sqrt (of_int (dist2 c d))))"
  using dist2_near [of c d] by (simp add: DistanceWith_eq)



text \<open>
  C36: the bound 13377 is exact: at 13378 in opposite corners the 32-bit sum of squares overflows,
  which is undefined behaviour, whatever the scale.
\<close>

theorem distance_overflow:
  "(near c \<and> near d \<longrightarrow> (\<exists>x. DistanceWith s c d = Ok x)) \<and>
   DistanceWith s (CCoordinate_of 13378 13378 13378) (CCoordinate_of (-13378) (-13378) (-13378)) =
     Fault Undefined_behaviour"
proof (rule conjI)
  show "near c \<and> near d \<longrightarrow> (\<exists>x. DistanceWith s c d = Ok x)"
    using dist2_near [of c d] by (simp add: DistanceWith_eq)
  have "\<not> dist2 (CCoordinate_of 13378 13378 13378) (CCoordinate_of (-13378) (-13378) (-13378)) < 2 ^ 31"
    by (simp add: dist2_def)
  then show "DistanceWith s (CCoordinate_of 13378 13378 13378) (CCoordinate_of (-13378) (-13378) (-13378)) =
     Fault Undefined_behaviour"
    by (simp add: DistanceWith_eq)
qed

theorem distance_overflow_witness:
  "near (CCoordinate_of 13377 0 0) \<and> (\<exists>x. DistanceWith PInf (CCoordinate_of 13377 0 0) CCoordinate_new = Ok x)"
proof -
  have "near (CCoordinate_of 13377 0 0) \<and> near CCoordinate_new"
    by (simp add: near_def CCoordinate_new_def)
  then show ?thesis using distance_overflow by blast
qed





text \<open>
  Whether a packet is lost: a level of -39 dBm or more is never lost, a level of -92 dBm or
  less always, and at every level in between the random number decides.
\<close>

theorem loss_thresholds:
  "(-39 \<le> sint l \<longrightarrow> \<not> PacketIsLost r l) \<and> (sint l \<le> -92 \<longrightarrow> PacketIsLost r l) \<and>
   (-92 < sint l \<and> sint l < -39 \<longrightarrow> PacketIsLost 0 l \<and> \<not> PacketIsLost 52 l)"
proof -
  have "int (r mod 53) \<le> 52" by simp
  then show ?thesis by (auto simp: PacketIsLost_iff simp del: of_nat_mod)
qed


end
