(* ===== verification/Vwifi_Infos.thy ===== *)
theory Vwifi_Infos
  imports Vwifi_Sockets Vwifi_Radio
begin

text \<open>
  What the server keeps for a client: the state of its socket
  (\<^verbatim>\<open>src/src/cinfosocket.cc\<close>) and its identity, name and position
  (\<^verbatim>\<open>src/src/cinfowifi.cc\<close>). \<^verbatim>\<open>CInfoWifi\<close> derives from \<^verbatim>\<open>CCoordinate\<close>, so its record
  extends the record of the latter. Uninitialised memory that a constructor starts from is an
  argument; the results do not depend on it.
\<close>

section \<open>Class CInfoSocket\<close>

record CInfoSocket =
  Descriptor :: TDescriptor
  Enable :: bool

definition EnableIt :: "CInfoSocket \<Rightarrow> CInfoSocket result" where
  "EnableIt i = rbind (assertion (Descriptor i \<ge> 0)) (\<lambda>_. Ok (i\<lparr>Enable := True\<rparr>))"

definition DisableIt :: "CInfoSocket \<Rightarrow> CInfoSocket" where
  "DisableIt i = i\<lparr>Enable := False\<rparr>"

definition SetDescriptor :: "TDescriptor \<Rightarrow> CInfoSocket \<Rightarrow> CInfoSocket result" where
  "SetDescriptor descriptor i = EnableIt (i\<lparr>Descriptor := descriptor\<rparr>)"

definition CInfoSocket_default :: "CInfoSocket \<Rightarrow> CInfoSocket result" where
  "CInfoSocket_default raw = rbind (SetDescriptor (-1) raw) (\<lambda>i. Ok (DisableIt i))"

definition CInfoSocket_of :: "TDescriptor \<Rightarrow> CInfoSocket \<Rightarrow> CInfoSocket result" where
  "CInfoSocket_of descriptor raw = rbind (SetDescriptor descriptor raw) EnableIt"

definition CInfoSocket_Close :: "CInfoSocket \<Rightarrow> os \<Rightarrow> CInfoSocket \<times> os" where
  "CInfoSocket_Close i s = (if Enable i then (DisableIt i, os_close (Descriptor i) s) else (i, s))"

text \<open>An object as the allocator hands it out; any value serves.\<close>

definition raw_CInfoSocket :: CInfoSocket where
  "raw_CInfoSocket = \<lparr>Descriptor = 0, Enable = False\<rparr>"

section \<open>Class CInfoWifi\<close>

record CInfoWifi = CCoordinate +
  Cid :: TCID
  Name :: string

definition SetCid :: "TCID \<Rightarrow> CInfoWifi \<Rightarrow> CInfoWifi result" where
  "SetCid cid w = rbind (assertion (cid = 0 \<or> cid \<ge> TCID_GUEST_MIN)) (\<lambda>_. Ok (w\<lparr>Cid := cid\<rparr>))"

definition SetName :: "string \<Rightarrow> CInfoWifi \<Rightarrow> CInfoWifi" where
  "SetName name w =
     (let name = (if length name > MAX_SIZE_NAME then take MAX_SIZE_NAME name else name)
      in w\<lparr>Name := name\<rparr>)"

definition GetSizeName :: "CInfoWifi \<Rightarrow> nat" where
  "GetSizeName w = length (Name w)"

definition HasName :: "CInfoWifi \<Rightarrow> bool" where
  "HasName w \<longleftrightarrow> Name w \<noteq> []"

text \<open>\<^verbatim>\<open>CInfoWifi()\<close>: position (0,0,0), empty name, then \<^verbatim>\<open>SetCid(0)\<close>; and \<^verbatim>\<open>CInfoWifi(cid,coo)\<close>.\<close>

definition CInfoWifi_raw :: "CCoordinate \<Rightarrow> CInfoWifi" where
  "CInfoWifi_raw coo = CCoordinate.extend coo \<lparr>Cid = 0, Name = []\<rparr>"

definition CInfoWifi_default :: "CInfoWifi result" where
  "CInfoWifi_default = SetCid 0 (CInfoWifi_raw CCoordinate_new)"

definition CInfoWifi_of :: "TCID \<Rightarrow> CCoordinate \<Rightarrow> CInfoWifi result" where
  "CInfoWifi_of cid coo = SetCid cid (CInfoWifi_raw coo)"

definition CCoordinate_Display :: "'a CCoordinate_scheme \<Rightarrow> string" where
  "CCoordinate_Display c =
     show_int (sint (X c)) @ '' '' @ show_int (sint (Y c)) @ '' '' @ show_int (sint (Z c))"

definition CInfoWifi_Display :: "CInfoWifi \<Rightarrow> string" where
  "CInfoWifi_Display w =
     show_nat (unat (Cid w)) @ '' '' @ (if HasName w then ''('' @ Name w @ '') '' else []) @
     CCoordinate_Display w"

section \<open>Sockets\<close>

lemma CInfoSocket_of_eq:
  "CInfoSocket_of d raw =
     (if 0 \<le> d then Ok \<lparr>Descriptor = d, Enable = True\<rparr> else Fault Assertion_failed)"
  by (simp add: CInfoSocket_of_def SetDescriptor_def EnableIt_def assertion_def)

lemma DisableIt_fields [simp]: "Descriptor (DisableIt i) = Descriptor i" "\<not> Enable (DisableIt i)"
  by (simp_all add: DisableIt_def)

section \<open>Well-formed identities\<close>

text \<open>The identifiers and names the program produces: no reserved identifier, no long name.\<close>

definition info_ok :: "CInfoWifi \<Rightarrow> bool" where
  "info_ok w \<longleftrightarrow> (Cid w = 0 \<or> TCID_GUEST_MIN \<le> Cid w) \<and> length (Name w) \<le> MAX_SIZE_NAME \<and>
     CHR 0x00 \<notin> set (Name w)"

lemma SetCid_Inr_iff:
  "SetCid cid w = Inr w' \<longleftrightarrow> (cid = 0 \<or> TCID_GUEST_MIN \<le> cid) \<and> w' = w\<lparr>Cid := cid\<rparr>"
  by (auto simp: SetCid_def rbind_Inr_iff)

lemma SetName_fields [simp]:
  "Cid (SetName n w) = Cid w" "Name (SetName n w) = take MAX_SIZE_NAME n"
  "X (SetName n w) = X w" "Y (SetName n w) = Y w" "Z (SetName n w) = Z w"
  by (simp_all add: SetName_def Let_def)

lemma coo_of_SetName [simp]: "coo_of (SetName n w) = coo_of w"
  by (simp add: coo_of_def set_coo_defs)

lemma SetCoo_info [simp]: "Cid (SetCoo coo w) = Cid w" "Name (SetCoo coo w) = Name w"
  by (simp_all add: set_coo_defs)

lemma coo_of_Cid [simp]: "coo_of (w\<lparr>Cid := cid\<rparr>) = coo_of w"
  by (simp add: coo_of_def set_coo_defs)

lemma info_ok_SetCoo [simp]: "info_ok (SetCoo coo w) = info_ok w"
  by (simp add: info_ok_def)

lemma info_ok_SetName: "info_ok w \<Longrightarrow> CHR 0x00 \<notin> set n \<Longrightarrow> info_ok (SetName n w)"
  by (auto simp: info_ok_def dest: in_set_takeD)

lemma info_ok_SetCid: "info_ok w \<Longrightarrow> SetCid cid w = Inr w' \<Longrightarrow> info_ok w'"
  by (auto simp: info_ok_def SetCid_Inr_iff)

lemma CInfoWifi_raw_fields [simp]:
  "Cid (CInfoWifi_raw coo) = 0" "Name (CInfoWifi_raw coo) = []" "coo_of (CInfoWifi_raw coo) = coo"
  "info_ok (CInfoWifi_raw coo)"
  by (simp_all add: CInfoWifi_raw_def CCoordinate.defs info_ok_def coo_of_def set_coo_defs
      CCoordinate_new_def)

lemma CInfoWifi_default_eq [simp]: "CInfoWifi_default = Ok (CInfoWifi_raw CCoordinate_new)"
  by (simp add: CInfoWifi_default_def SetCid_def CInfoWifi_raw_def CCoordinate.defs)

end
