(* ===== verification/Vwifi_Signal.thy ===== *)
theory Vwifi_Signal
  imports Vwifi_Infos
begin

text \<open>
  How a radio frame travels between client and server (\<^verbatim>\<open>SendSignalWithSocket\<close> and
  \<^verbatim>\<open>RecvSignalWithSocket\<close> of \<^verbatim>\<open>src/src/cwifi.cc\<close>): one byte of power, then a netlink message
  whose first four bytes are its total length. The receiver reads the power, the 16 bytes of the
  netlink header, and then as many bytes as the header announces, at most \<^verbatim>\<open>MTU\<close>.

  The lemmas show that receiving never runs outside the buffer and never hands on uninitialised
  bytes, whatever arrives; and that a frame sent as one message is received unchanged under every
  segmentation.
\<close>

section \<open>Definitions\<close>

definition SIZEOF_NLMSGHDR :: int where "SIZEOF_NLMSGHDR = 16"

definition SendSignalWithSocket :: "TDescriptor \<Rightarrow> TPower \<Rightarrow> byte list \<Rightarrow> os \<Rightarrow> int \<times> os" where
  "SendSignalWithSocket descriptor pw data s =
     (let (val, s) = Send descriptor (put_word pw) s
      in if val \<le> 0 then (val, s) else Send descriptor data s)"

text \<open>The returned power is \<^const>\<open>None\<close> while the caller's variable is uninitialised.\<close>

definition RecvSignalWithSocket ::
  "TDescriptor \<Rightarrow> CDynBuffer \<Rightarrow> os \<Rightarrow> (int \<times> TPower option \<times> CDynBuffer \<times> os) result" where
  "RecvSignalWithSocket descriptor b s =
     (case Read descriptor 1 s of (valread, data, s) \<Rightarrow>
        if valread \<le> 0 then Ok (valread, None, b, s)
        else let pw = Some (get_word data :: TPower) in
          rbind (ReadEqualSize descriptor 0 SIZEOF_NLMSGHDR b s) (\<lambda>(sizeRead, b, s).
          if sizeRead = SOCKET_ERROR then Ok (SOCKET_ERROR, pw, b, s)
          else rbind (GetBuffer b) (\<lambda>cs.
            rbind (cell_bytes 4 cs) (\<lambda>len.
            let sizeTotal = sint (get_word len :: 32 word) in
            if sizeTotal > MTU then Ok (SOCKET_ERROR, pw, b, s)
            else rbind (ReadEqualSize descriptor sizeRead sizeTotal b s) (\<lambda>(r, b, s).
              Ok (r, pw, b, s))))))"

text \<open>A well-formed message: it announces its own length, and the length is acceptable.\<close>

definition frame_ok :: "byte list \<Rightarrow> bool" where
  "frame_ok data \<longleftrightarrow> 16 \<le> length data \<and> length data \<le> 2352 \<and>
     get_word (take 4 data) = (word_of_nat (length data) :: 32 word)"

section \<open>Sending\<close>

lemma SendSignal_healthy:
  assumes "healthy s d"
  shows "SendSignalWithSocket d pw data s =
    (int (length data), s\<lparr>sent := sent s @ [(d, put_word pw), (d, data)]\<rparr>)"
  using assms by (simp add: SendSignalWithSocket_def)

lemma SendSignal_frame [frame_simps]:
  assumes "SendSignalWithSocket d pw data s = (r, s')"
  shows "rx s' = rx s" "open_fds s' = open_fds s" "pending s' = pending s"
    "rand_values s' = rand_values s" "rand_calls s' = rand_calls s"
    "e \<noteq> d \<Longrightarrow> tx s' e = tx s e"
proof -
  obtain v t where t: "Send d (put_word pw) s = (v, t)"
    by (cases "Send d (put_word pw) s")
  obtain w u where u: "Send d data t = (w, u)"
    by (cases "Send d data t")
  have "s' = t \<or> s' = u"
    using assms t u by (auto simp: SendSignalWithSocket_def split: if_splits)
  then show "rx s' = rx s" "open_fds s' = open_fds s" "pending s' = pending s"
    "rand_values s' = rand_values s" "rand_calls s' = rand_calls s"
    "e \<noteq> d \<Longrightarrow> tx s' e = tx s e"
    using Send_frame [OF t] Send_frame [OF u] by auto
qed

section \<open>Receiving\<close>

lemma cell_bytes_prefix:
  assumes "take n cs = map Some xs" and "k \<le> n"
  shows "cell_bytes k cs = Ok (take k xs) \<or> length cs < k"
proof (cases "k \<le> length cs")
  case True
  have "take k cs = map Some (take k xs)"
    using arg_cong [OF assms(1), of "take k"] assms(2) by (simp add: min_absorb1 take_map)
  with True show ?thesis
    by (simp add: cell_bytes_def list_all_length comp_def)
qed simp

text \<open>After the power and the header: what happens next depends on the announced length only.\<close>

definition announced :: "byte list \<Rightarrow> int" where
  "announced data = sint (get_word (take 4 data) :: 32 word)"

lemma RecvSignal_no_header:
  assumes "buf_ok b" and "length (stream d s) < 17"
  shows "\<exists>pw b' s'. RecvSignalWithSocket d b s = Ok (SOCKET_ERROR, pw, b', s') \<and> buf_ok b' \<and>
    Size b' \<le> max (Size b) 16 \<and> read_from d s s'"
proof -
  obtain r data t where rd: "Read d 1 s = (r, data, t)"
    by (cases "Read d 1 s")
  note t = Read_read_from [OF rd]
  show ?thesis
  proof (cases "stream d s")
    case Nil
    with rd have "r = SOCKET_ERROR"
      using sock.read_error_iff [OF _ rd] by simp
    with rd t assms(1) show ?thesis
      by (simp add: RecvSignalWithSocket_def SOCKET_ERROR_def)
  next
    case (Cons p rest)
    note one = sock.read_one [OF Cons rd]
    have "length (stream d t) < 16 - 0" using one(3) Cons assms(2) by simp
    from ReadEqualSize_short [OF assms(1) _ this] obtain b' s' where
      "ReadEqualSize d 0 16 b t = Ok (SOCKET_ERROR, b', s')" "buf_ok b'"
      "Size b' = max (Size b) 16" "read_from d t s'"
      by auto
    with rd one t show ?thesis
      by (auto simp: RecvSignalWithSocket_def SIZEOF_NLMSGHDR_def intro: read_from_trans)
  qed
qed

lemma RecvSignal_header:
  assumes "buf_ok b" and st: "stream d s = p # hd16 @ rest" and len: "length hd16 = 16"
  shows "\<exists>b1 cs1 s1. Buffer b1 = Some cs1 \<and> Size b1 = int (length cs1) \<and>
      int (length cs1) = max (Size b) 16 \<and> take 16 cs1 = map Some hd16 \<and>
      stream d s1 = rest \<and> read_from d s s1 \<and>
      RecvSignalWithSocket d b s =
        (if announced hd16 > MTU then Ok (SOCKET_ERROR, Some (get_word [p]), b1, s1)
         else rbind (ReadEqualSize d 16 (announced hd16) b1 s1) (\<lambda>(r, b, s).
                Ok (r, Some (get_word [p]), b, s)))"
proof -
  obtain r data t where rd: "Read d 1 s = (r, data, t)"
    by (cases "Read d 1 s")
  note one = sock.read_one [OF st rd]
  obtain cs where b: "Buffer b = Some cs" "Size b = int (length cs)"
    using assms(1) by (rule buf_okE)
  have "16 - 0 \<le> length (stream d t)" using one(3) len by simp
  from ReadEqualSize_exact [OF b _ _ this] obtain b1 cs1 s1 where
    b1: "ReadEqualSize d 0 16 b t = Ok (16, b1, s1)" "Buffer b1 = Some cs1"
      "Size b1 = int (length cs1)" "length cs1 = max (length cs) 16"
      "take 16 cs1 = map Some (take 16 (stream d t))" "stream d s1 = drop 16 (stream d t)"
    and s1: "read_from d t s1"
    by auto
  have c: "take 16 cs1 = map Some hd16" "stream d s1 = rest"
    using b1(5,6) one(3) len by simp_all
  have "cell_bytes 4 cs1 = Ok (take 4 hd16)"
    using cell_bytes_prefix [OF c(1), of 4] b1(4) by simp
  then have "RecvSignalWithSocket d b s =
        (if announced hd16 > MTU then Ok (SOCKET_ERROR, Some (get_word [p]), b1, s1)
         else rbind (ReadEqualSize d 16 (announced hd16) b1 s1) (\<lambda>(r, b, s).
                Ok (r, Some (get_word [p]), b, s)))"
    using rd one b1 by (simp add: RecvSignalWithSocket_def SIZEOF_NLMSGHDR_def GetBuffer_def
        SOCKET_ERROR_def announced_def Let_def)
  moreover have "read_from d s s1"
    using Read_read_from [OF rd] s1 by (rule read_from_trans)
  moreover have "int (length cs1) = max (Size b) 16"
    using b(2) b1(4) by simp
  ultimately show ?thesis
    using b1 c by blast
qed

text \<open>
  The specification of receiving, on the bytes alone: the power, the message of the announced
  length and what follows, when there is a message that the receiver accepts. A message that
  announces between 1 and 15 bytes is cut to that length although its header of 16 has been read.
\<close>

definition frame_of :: "byte list \<Rightarrow> (TPower \<times> byte list \<times> byte list) option" where
  "frame_of st =
     (if length st < 17 then None
      else let n = announced (tl st) in
        if n > MTU \<or> n \<le> 0 \<or> int (length (tl st)) < n then None
        else Some (get_word [hd st], take (nat n) (tl st), drop (max 16 (nat n)) (tl st)))"

lemma announced_append: "4 \<le> length h \<Longrightarrow> announced (h @ r) = announced h"
  by (simp add: announced_def)

definition received ::
  "TDescriptor \<Rightarrow> byte list \<Rightarrow> int \<Rightarrow> TPower option \<Rightarrow> CDynBuffer \<Rightarrow> os \<Rightarrow> bool" where
  "received d st r pw b s \<longleftrightarrow>
     (case frame_of st of
        None \<Rightarrow> r \<le> 0
      | Some (p, data, rest) \<Rightarrow> r = int (length data) \<and> 0 < r \<and> pw = Some p \<and> stream d s = rest \<and>
          rbind (GetBuffer b) (cell_bytes (length data)) = Ok data)"

lemma RecvSignal_spec:
  assumes b: "buf_ok b"
  shows "\<exists>r pw b' s'. RecvSignalWithSocket d b s = Ok (r, pw, b', s') \<and> buf_ok b' \<and>
    Size b' \<le> max (Size b) MTU \<and> read_from d s s' \<and> received d (stream d s) r pw b' s'"
proof (cases "length (stream d s) < 17")
  case True
  from RecvSignal_no_header [OF b this] show ?thesis
    using True by (fastforce simp: received_def frame_of_def SOCKET_ERROR_def MTU_def)
next
  case False
  define p where "p = hd (stream d s)"
  define h where "h = take 16 (tl (stream d s))"
  define rest where "rest = drop 16 (tl (stream d s))"
  have st: "stream d s = p # h @ rest" and h: "length h = 16"
    using False by (cases "stream d s"; simp add: p_def h_def rest_def)+
  obtain b1 cs1 s1 where b1: "Buffer b1 = Some cs1" "Size b1 = int (length cs1)"
      "int (length cs1) = max (Size b) 16" "take 16 cs1 = map Some h"
    and s1: "stream d s1 = rest" "read_from d s s1"
    and eq: "RecvSignalWithSocket d b s =
        (if announced h > MTU then Ok (SOCKET_ERROR, Some (get_word [p]), b1, s1)
         else rbind (ReadEqualSize d 16 (announced h) b1 s1) (\<lambda>(r, b, s).
                Ok (r, Some (get_word [p]), b, s)))"
    using RecvSignal_header [OF b st h] by (elim exE conjE)
  have b1ok: "buf_ok b1" using b1 by (simp add: buf_ok_def)
  have ann: "announced (h @ rest) = announced h" using h by (simp add: announced_append)
  have fr: "frame_of (stream d s) =
      (if announced h > MTU \<or> announced h \<le> 0 \<or> 16 + int (length rest) < announced h then None
       else Some (get_word [p], take (nat (announced h)) (h @ rest),
              drop (max 16 (nat (announced h))) (h @ rest)))"
    using h unfolding frame_of_def st by (simp add: ann Let_def)
  consider (big) "announced h > MTU" | (small) "announced h \<le> 16" "announced h \<le> MTU"
    | (short) "16 < announced h" "announced h \<le> MTU" "16 + int (length rest) < announced h"
    | (full) "16 < announced h" "announced h \<le> MTU" "announced h \<le> 16 + int (length rest)"
    by linarith
  then show ?thesis
  proof cases
    case big
    then show ?thesis
      using eq fr b1ok b1 s1 by (simp add: received_def SOCKET_ERROR_def MTU_def)
  next
    case small
    have "ReadEqualSize d 16 (announced h) b1 s1 = Ok (announced h, b1, s1)"
      using b1 small by (intro ReadEqualSize_nothing) auto
    moreover have "cell_bytes (nat (announced h)) cs1 = Ok (take (nat (announced h)) h)"
      using cell_bytes_prefix [OF b1(4), of "nat (announced h)"] small b1(3) by (auto simp: nat_le_iff)
    ultimately show ?thesis
      using eq fr small b1ok b1 s1 h
      by (auto simp: received_def MTU_def GetBuffer_def max_def)
  next
    case short
    define n where "n = nat (announced h)"
    have n: "announced h = int n" "16 \<le> n" "length (stream d s1) < n - 16"
      using short s1 by (auto simp: n_def)
    obtain b' s' where r: "ReadEqualSize d (int 16) (int n) b1 s1 = Ok (SOCKET_ERROR, b', s')" "buf_ok b'"
        "Size b' = max (Size b1) (int n)" "read_from d s1 s'"
      using ReadEqualSize_short [OF b1ok n(2,3)] by (elim exE conjE)
    have "RecvSignalWithSocket d b s = Ok (SOCKET_ERROR, Some (get_word [p]), b', s')"
      using eq short n(1) r(1) by simp
    moreover have "Size b' \<le> max (Size b) MTU"
      using r(3) b1(2,3) short(2) n(1) by (auto simp: MTU_def max_def)
    moreover have "read_from d s s'" using s1(2) r(4) by (rule read_from_trans)
    moreover have "received d (stream d s) SOCKET_ERROR (Some (get_word [p])) b' s'"
      using fr short by (simp add: received_def SOCKET_ERROR_def)
    ultimately show ?thesis using r(2) by blast
  next
    case full
    define n where "n = nat (announced h)"
    have n: "announced h = int n" "16 \<le> n" "n - 16 \<le> length (stream d s1)" "16 \<le> length cs1"
      using full s1 b1(3) by (auto simp: n_def)
    obtain b' cs' s' where r: "ReadEqualSize d (int 16) (int n) b1 s1 = Ok (int n, b', s')"
        "Buffer b' = Some cs'" "Size b' = int (length cs')" "length cs' = max (length cs1) n"
        "take n cs' = take 16 cs1 @ map Some (take (n - 16) (stream d s1))"
        "stream d s' = drop (n - 16) (stream d s1)" "read_from d s1 s'"
      using ReadEqualSize_exact [OF b1(1,2) n(2,4,3)] by (elim exE conjE)
    have tk: "take n (h @ rest) = h @ take (n - 16) rest" using h n by simp
    have "take n cs' = map Some (take n (h @ rest))" using r(5) b1(4) s1 tk by simp
    then have "cell_bytes n cs' = Ok (take n (h @ rest))"
      using cell_bytes_prefix [of n cs' "take n (h @ rest)" n] r(4)
      unfolding take_take min.idem by (auto simp del: take_append)
    moreover have "length (take n (h @ rest)) = n" "drop n (h @ rest) = drop (n - 16) rest"
      using n h s1 by simp_all
    moreover have "read_from d s s'" using s1(2) r(7) by (rule read_from_trans)
    moreover have "int (length cs') \<le> max (Size b) MTU"
      unfolding r(4) using b1(3) full(2) n(1) by (simp add: MTU_def max_def split: if_splits)
    ultimately show ?thesis
      using eq fr full n r s1 b1 h
      by (auto simp: received_def GetBuffer_def buf_ok_def max_def)
  qed
qed

lemma frame_of_frame:
  assumes "frame_ok data"
  shows "frame_of (put_word pw @ data @ rest) = Some (pw, data, rest)"
proof -
  obtain p where p: "put_word pw = [p]"
    using u8c.put_width [of pw] by (cases "put_word pw") auto
  have "get_word [p] = pw" using p u8c.get_put [of pw] by simp
  moreover have "announced data = int (length data)"
  proof -
    have "announced data = sint (word_of_nat (length data) :: 32 word)"
      using assms by (simp add: announced_def frame_ok_def)
    also have "\<dots> = int (length data)"
      using assms by (intro sint_word_of_nat) (simp add: frame_ok_def)
    finally show ?thesis .
  qed
  ultimately show ?thesis
    using assms by (auto simp: frame_of_def frame_ok_def p Let_def announced_append MTU_def)
qed

lemma frame_of_bounds:
  assumes "frame_of st = Some (p, data, rest)"
  shows "data \<noteq> []" "int (length data) \<le> MTU" "\<exists>h. st = h # data @ drop (length data) (tl st)"
  using assms by (cases st; auto simp: frame_of_def Let_def split: if_splits)+

section \<open>Properties\<close>

text \<open>
  C5: receiving a frame refines its specification on the byte stream: whatever arrives and however
  it is cut, the call returns, the buffer grows to at most the larger of its size and \<^verbatim>\<open>MTU\<close>, and
  the outcome is the frame that the stream starts with, all of it initialised, or a result of at
  most zero when there is none that is acceptable.
\<close>

theorem receive_refines:
  assumes "buf_ok b"
  shows "\<exists>r pw b' s'. RecvSignalWithSocket d b s = Ok (r, pw, b', s') \<and> buf_ok b' \<and>
    Size b' \<le> max (Size b) MTU \<and>
    (case frame_of (stream d s) of
       None \<Rightarrow> r \<le> 0
     | Some (p, data, rest) \<Rightarrow> r = int (length data) \<and> 0 < r \<and> pw = Some p \<and> stream d s' = rest \<and>
         rbind (GetBuffer b') (cell_bytes (length data)) = Ok data)"
  using RecvSignal_spec [OF assms, of d s] unfolding received_def by blast

text \<open>A message of 16 bytes that announces its length.\<close>

definition sample_frame :: "byte list" where
  "sample_frame = put_word (16 :: 32 word) @ replicate 12 CHR ''x''"

lemma sample_frame_ok: "frame_ok sample_frame"
  using u32c.get_put [of 16] by (simp add: frame_ok_def sample_frame_def length_put_word)

lemma stream_pieces: "list_all (\<lambda>c. c \<noteq> []) cs \<Longrightarrow> stream d (os_start\<lparr>rx := (\<lambda>_. cs)\<rparr>) = concat cs"
  by (simp add: stream_def list_all_iff takeWhile_eq_all_conv [THEN iffD2])

theorem receive_refines_witness:
  "\<exists>b. CDynBuffer_new = Ok b \<and> (\<exists>b' s'.
     RecvSignalWithSocket 5 b (os_start\<lparr>rx := (\<lambda>_. [put_word (-20 :: TPower), sample_frame])\<rparr>) =
       Ok (16, Some (-20), b', s'))"
proof -
  obtain b where b: "CDynBuffer_new = Ok b" "buf_ok b" using CDynBuffer_new_ok by blast
  define s where "s = os_start\<lparr>rx := (\<lambda>_. [put_word (-20 :: TPower), sample_frame])\<rparr>"
  have ne: "put_word (-20 :: TPower) \<noteq> []" "sample_frame \<noteq> []"
    using sample_frame_ok by (auto simp: frame_ok_def simp flip: length_0_conv simp: length_put_word)
  have st: "stream 5 s = put_word (-20 :: TPower) @ sample_frame @ []"
    unfolding s_def using ne by (subst stream_pieces) simp_all
  have len: "length sample_frame = 16" by (simp add: sample_frame_def length_put_word)
  obtain r pw b' s' where "RecvSignalWithSocket 5 b s = Ok (r, pw, b', s')" "r = int (length sample_frame)"
      "pw = Some (-20)"
    using receive_refines [OF b(2), of 5 s] unfolding st frame_of_frame [OF sample_frame_ok] by auto
  then show ?thesis
    using b(1) len by (intro exI [of _ b]) (auto simp: s_def)
qed

text \<open>
  C10: a well-formed frame sent with \<^verbatim>\<open>SendSignalWithSocket\<close> and delivered in any pieces is
  received unchanged, with its power, and exactly its bytes are consumed.
\<close>

theorem signal_roundtrip:
  assumes "frame_ok data" and "healthy s d" and "buf_ok b" and "SendSignalWithSocket d pw data s = (r, s')"
    and "stream e t = concat (map snd (drop (length (sent s)) (sent s'))) @ rest"
  shows "\<exists>b' t'. RecvSignalWithSocket e b t = Ok (r, Some pw, b', t') \<and>
    rbind (GetBuffer b') (cell_bytes (nat r)) = Ok data \<and> stream e t' = rest"
proof -
  have r: "r = int (length data)" and st: "stream e t = put_word pw @ data @ rest"
    using assms(2,4,5) by (auto simp: SendSignal_healthy)
  show ?thesis
    using RecvSignal_spec [OF assms(3), of e t]
    unfolding received_def st r frame_of_frame [OF assms(1)] by auto
qed

theorem signal_roundtrip_witness:
  "\<exists>b. CDynBuffer_new = Ok b \<and> (\<exists>b' t'. RecvSignalWithSocket 7 b
      (os_start\<lparr>rx := (\<lambda>_. [put_word (-33 :: TPower) @ sample_frame, ''more''])\<rparr>) = Ok (16, Some (-33), b', t') \<and>
    rbind (GetBuffer b') (cell_bytes 16) = Ok sample_frame \<and> stream 7 t' = ''more'')"
proof -
  obtain b where b: "CDynBuffer_new = Ok b" "buf_ok b" using CDynBuffer_new_ok by blast
  have h: "healthy os_start 4" by (simp add: healthy_def os_start_def)
  have len: "length sample_frame = 16" by (simp add: sample_frame_def length_put_word)
  then have ne: "sample_frame \<noteq> []" by auto
  have s: "SendSignalWithSocket 4 (-33) sample_frame os_start =
      (16, os_start\<lparr>sent := [(4, put_word (-33 :: TPower)), (4, sample_frame)]\<rparr>)"
    using SendSignal_healthy [OF h] len by (simp add: os_start_def)
  have st: "stream 7 (os_start\<lparr>rx := (\<lambda>_. [put_word (-33 :: TPower) @ sample_frame, ''more''])\<rparr>) =
      concat (map snd (drop (length (sent os_start))
        (sent (os_start\<lparr>sent := [(4, put_word (-33 :: TPower)), (4, sample_frame)]\<rparr>)))) @ ''more''"
    using ne by (subst stream_pieces) (simp_all add: os_start_def)
  show ?thesis
    using signal_roundtrip [OF sample_frame_ok h b(2) s st] b(1) by (intro exI [of _ b]) simp
qed


end
