(* ===== verification/Vwifi_Server.thy ===== *)
theory Vwifi_Server
  imports Vwifi_Signal
begin

text \<open>
  A listening socket and its clients: \<^verbatim>\<open>CSocketServer\<close> (\<^verbatim>\<open>src/src/csocketserver.cc\<close>) and
  the two address families it is combined with
  (\<^verbatim>\<open>src/src/csocketserverfunctionitcp.cc\<close>, \<^verbatim>\<open>src/src/csocketserverfunctionvtcp.cc\<close>). The
  virtual \<^verbatim>\<open>_Listen\<close> and \<^verbatim>\<open>_Accept\<close> are arguments of the base class's operations.

  \<open>accepting\<close> is what the base class relies on from a family's \<^verbatim>\<open>_Accept\<close>: it fails and
  changes nothing, or it hands out a fresh open descriptor and the identifier of the peer. Both
  families are shown to provide it.
\<close>

section \<open>Class CSocketServer\<close>

record CSocketServer = CSocket +
  Port :: TPort
  ListInfoSelfManaged :: bool
  InfoSockets :: "CInfoSocket list"

definition Init :: "TPort \<Rightarrow> 'a CSocketServer_scheme \<Rightarrow> 'a CSocketServer_scheme" where
  "Init port sv = sv\<lparr>Port := port\<rparr>"

text \<open>\<open>None\<close> is the null pointer: the object then owns a new, empty list.\<close>

definition CSocketServer_new :: "CInfoSocket list option \<Rightarrow> CSocketServer" where
  "CSocketServer_new infoSockets =
     Init 0 (CSocket.extend CSocket_new
       (case infoSockets of
          None \<Rightarrow> \<lparr>Port = 0, ListInfoSelfManaged = True, InfoSockets = []\<rparr>
        | Some l \<Rightarrow> \<lparr>Port = 0, ListInfoSelfManaged = False, InfoSockets = l\<rparr>))"

definition GetPort :: "'a CSocketServer_scheme \<Rightarrow> TPort" where
  "GetPort sv = Port sv"

definition Listen ::
  "(TDescriptor \<Rightarrow> TPort \<Rightarrow> os \<Rightarrow> bool \<times> TDescriptor \<times> os) \<Rightarrow> 'a CSocketServer_scheme \<Rightarrow> os \<Rightarrow>
   bool \<times> 'a CSocketServer_scheme \<times> os" where
  "Listen vListen sv s =
     (let (ok, master, s) = vListen (Master sv) (Port sv) s in (ok, sv\<lparr>Master := master\<rparr>, s))"

type_synonym accept_fn = "TDescriptor \<Rightarrow> os \<Rightarrow> TDescriptor \<times> TCID option \<times> os"

text \<open>The identifier is \<^const>\<open>None\<close> while the caller's variable is uninitialised.\<close>

definition Accept_cid ::
  "accept_fn \<Rightarrow> 'a CSocketServer_scheme \<Rightarrow> os \<Rightarrow>
   (TDescriptor \<times> TCID option \<times> 'a CSocketServer_scheme \<times> os) result" where
  "Accept_cid vAccept sv s =
     (let (new_socket, cid, s) = vAccept (Master sv) s
      in if new_socket = SOCKET_ERROR then Ok (SOCKET_ERROR, cid, sv, s)
         else rbind (CInfoSocket_of new_socket raw_CInfoSocket) (\<lambda>i.
           Ok (new_socket, cid, sv\<lparr>InfoSockets := InfoSockets sv @ [i]\<rparr>, s)))"

definition Accept ::
  "accept_fn \<Rightarrow> 'a CSocketServer_scheme \<Rightarrow> os \<Rightarrow> (TDescriptor \<times> 'a CSocketServer_scheme \<times> os) result" where
  "Accept vAccept sv s =
     rbind (Accept_cid vAccept sv s) (\<lambda>(new_socket, cid, sv, s). Ok (new_socket, sv, s))"

definition GetSocketClient :: "TIndex \<Rightarrow> 'a CSocketServer_scheme \<Rightarrow> TDescriptor result" where
  "GetSocketClient index sv =
     rbind (assertion (index < length (InfoSockets sv))) (\<lambda>_.
     rbind (nth_r (InfoSockets sv) index) (\<lambda>i. Ok (Descriptor i)))"

definition GetNumberClient :: "'a CSocketServer_scheme \<Rightarrow> nat" where
  "GetNumberClient sv = length (InfoSockets sv)"

definition IsEnable :: "TIndex \<Rightarrow> 'a CSocketServer_scheme \<Rightarrow> bool result" where
  "IsEnable index sv =
     rbind (assertion (index < GetNumberClient sv)) (\<lambda>_.
     rbind (nth_r (InfoSockets sv) index) (\<lambda>i. Ok (Enable i)))"

definition DisableClient :: "TIndex \<Rightarrow> 'a CSocketServer_scheme \<Rightarrow> 'a CSocketServer_scheme result" where
  "DisableClient index sv =
     rbind (assertion (index < length (InfoSockets sv))) (\<lambda>_.
     rbind (nth_r (InfoSockets sv) index) (\<lambda>i.
     Ok (sv\<lparr>InfoSockets := (InfoSockets sv)[index := DisableIt i]\<rparr>)))"

definition CSocketServer_CloseClient ::
  "TIndex \<Rightarrow> 'a CSocketServer_scheme \<Rightarrow> os \<Rightarrow> ('a CSocketServer_scheme \<times> os) result" where
  "CSocketServer_CloseClient index sv s =
     rbind (assertion (index < length (InfoSockets sv))) (\<lambda>_.
     rbind (nth_r (InfoSockets sv) index) (\<lambda>i.
     case CInfoSocket_Close i s of (i, s) \<Rightarrow>
       rbind (erase_r index ((InfoSockets sv)[index := i])) (\<lambda>l.
       Ok (sv\<lparr>InfoSockets := l\<rparr>, s))))"

text \<open>
  The destructor closes every client and the listening socket, and deletes the list whether or not
  the object owns it: deleting a list that lives elsewhere is undefined.
\<close>

fun close_infos :: "CInfoSocket list \<Rightarrow> os \<Rightarrow> CInfoSocket list \<times> os" where
  "close_infos [] s = ([], s)"
| "close_infos (i # is) s =
     (let (i, s) = CInfoSocket_Close i s; (is, s) = close_infos is s in (i # is, s))"

definition CSocketServer_destroy :: "'a CSocketServer_scheme \<Rightarrow> os \<Rightarrow> os result" where
  "CSocketServer_destroy sv s =
     (let (is, s) = close_infos (InfoSockets sv) s
      in rbind (defined (ListInfoSelfManaged sv)) (\<lambda>_.
         Ok (snd (CSocket_Close (sv\<lparr>InfoSockets := []\<rparr>) s))))"

section \<open>TCP over IP and over VSOCK\<close>

definition Configure :: "os \<Rightarrow> bool \<times> TDescriptor \<times> os" where
  "Configure s =
     (let (master, s) = os_socket s in if master = SOCKET_ERROR then (False, master, s) else (True, master, s))"

definition Setup_ITCP :: "TDescriptor \<Rightarrow> TPort \<Rightarrow> os \<Rightarrow> bool \<times> os" where
  "Setup_ITCP master port s =
     (let (reuse, s) = os_call s
      in if \<not> reuse then (False, s)
         else let (rcvtimeo, s) = os_call s; (sndtimeo, s) = os_call s; (ok, s) = os_bind master port s
           in if \<not> ok then (False, s)
              else let (ok, s) = os_call s in if \<not> ok then (False, s) else (True, s))"

definition Setup_VTCP :: "TDescriptor \<Rightarrow> TPort \<Rightarrow> os \<Rightarrow> bool \<times> os" where
  "Setup_VTCP master port s =
     (let (ok, s) = os_bind master port s
      in if \<not> ok then (False, s)
         else let (ok, s) = os_call s in if \<not> ok then (False, s) else (True, s))"

definition Listen_with ::
  "(TDescriptor \<Rightarrow> TPort \<Rightarrow> os \<Rightarrow> bool \<times> os) \<Rightarrow> TPort \<Rightarrow> os \<Rightarrow> bool \<times> TDescriptor \<times> os" where
  "Listen_with Setup port s =
     (let (ok, master, s) = Configure s
      in if \<not> ok then (False, master, s)
         else let (ok, s) = Setup master port s
           in if \<not> ok then (False, master, os_close master s) else (True, master, s))"

definition Listen_ITCP :: "TDescriptor \<Rightarrow> TPort \<Rightarrow> os \<Rightarrow> bool \<times> TDescriptor \<times> os" where
  "Listen_ITCP master port s = Listen_with Setup_ITCP port s"

definition Listen_VTCP :: "TDescriptor \<Rightarrow> TPort \<Rightarrow> os \<Rightarrow> bool \<times> TDescriptor \<times> os" where
  "Listen_VTCP master port s = Listen_with Setup_VTCP port s"

definition Accept_ITCP :: "bool \<Rightarrow> accept_fn" where
  "Accept_ITCP HashUsesPort master s =
     (case os_accept master s of
        (None, s) \<Rightarrow> (SOCKET_ERROR, None, s)
      | (Some (new_socket, address), s) \<Rightarrow>
          (new_socket, Some (ucast (hash_ipaddr HashUsesPort address)), s))"

definition Accept_VTCP :: accept_fn where
  "Accept_VTCP master s =
     (case os_accept master s of
        (None, s) \<Rightarrow> (SOCKET_ERROR, None, s)
      | (Some (new_socket, address), s) \<Rightarrow> (new_socket, Some (svm_cid address), s))"

section \<open>Listening\<close>

lemma os_call_frame [simp]:
  "open_fds (snd (os_call s)) = open_fds s" "rx (snd (os_call s)) = rx s"
  "sent (snd (os_call s)) = sent s" "pending (snd (os_call s)) = pending s"
  "bound (snd (os_call s)) = bound s"
  by (auto simp: os_call_def split: list.splits)

lemma os_bind_frame [simp]:
  "open_fds (snd (os_bind d p s)) = open_fds s"
  "fst (os_bind d p s) \<Longrightarrow> bound (snd (os_bind d p s)) = (d, p) # bound s"
  "\<not> fst (os_bind d p s) \<Longrightarrow> bound (snd (os_bind d p s)) = bound s"
  by (auto simp: os_bind_def os_call_def split: list.splits if_splits)

lemma Setup_open [simp]:
  "open_fds (snd (Setup_ITCP m p s)) = open_fds s" "open_fds (snd (Setup_VTCP m p s)) = open_fds s"
  by (simp_all add: Setup_ITCP_def Setup_VTCP_def case_prod_beta Let_def)

lemma Setup_bound:
  "fst (Setup_ITCP m p s) \<Longrightarrow> bound (snd (Setup_ITCP m p s)) = (m, p) # bound s"
  "fst (Setup_VTCP m p s) \<Longrightarrow> bound (snd (Setup_VTCP m p s)) = (m, p) # bound s"
  by (auto simp: Setup_ITCP_def Setup_VTCP_def case_prod_beta Let_def split: if_splits)

text \<open>Listening either succeeds with a fresh bound socket, or leaves the open descriptors as they were.\<close>

lemma Listen_with_outcome:
  assumes "Listen_with Setup port s = (ok, m, s')"
    and op: "\<And>m p s. open_fds (snd (Setup m p s)) = open_fds s"
    and bd: "\<And>m p s. fst (Setup m p s) \<Longrightarrow> bound (snd (Setup m p s)) = (m, p) # bound s"
  shows "ok \<Longrightarrow> m \<notin> set (open_fds s) \<and> 0 \<le> m \<and> open_fds s' = m # open_fds s \<and> (m, port) \<in> set (bound s')"
    and "\<not> ok \<Longrightarrow> set (open_fds s') = set (open_fds s)"
proof -
  obtain d t where t: "os_socket s = (d, t)" by (cases "os_socket s")
  obtain k u where u: "Setup d port t = (k, u)" by (cases "Setup d port t")
  have d: "d = SOCKET_ERROR \<and> open_fds t = open_fds s \<or>
      d = lowest_free (open_fds s) \<and> open_fds t = d # open_fds s"
    using t by (auto simp: os_socket_def SOCKET_ERROR_def case_prod_beta Let_def split: if_splits)
  have u1: "open_fds u = open_fds t" "k \<Longrightarrow> bound u = (d, port) # bound t"
    using op [of d port t] bd [of d port t] u by simp_all
  note fr = lowest_free_fresh [of "open_fds s"] lowest_free_nonneg [of "open_fds s"]
  show "ok \<Longrightarrow> m \<notin> set (open_fds s) \<and> 0 \<le> m \<and> open_fds s' = m # open_fds s \<and> (m, port) \<in> set (bound s')"
    using assms(1) t u d u1 fr
    by (auto simp: Listen_with_def Configure_def SOCKET_ERROR_def split: if_splits)
  show "\<not> ok \<Longrightarrow> set (open_fds s') = set (open_fds s)"
    using assms(1) t u d u1 fr
    by (auto simp: Listen_with_def Configure_def SOCKET_ERROR_def split: if_splits)
qed

section \<open>Accepting\<close>

locale accepting =
  fixes vAccept :: accept_fn
  assumes accept_cases: "vAccept m s = (d, c, s') \<Longrightarrow>
      d = SOCKET_ERROR \<and> s' = s \<or>
      0 \<le> d \<and> d \<notin> set (open_fds s) \<and> c \<noteq> None \<and> open_fds s' = d # open_fds s \<and> sent s' = sent s"
    and accept_pending: "pending s m \<noteq> [] \<Longrightarrow> fst (vAccept m s) \<noteq> SOCKET_ERROR"
begin

text \<open>Accepting never stops the program, and adds one enabled client with a fresh descriptor.\<close>

lemma Accept_cid_cases:
  obtains (failed) c where "Accept_cid vAccept sv s = Ok (SOCKET_ERROR, c, sv, s)" "pending s (Master sv) = []"
  | (accepted) d c s' where
    "Accept_cid vAccept sv s =
       Ok (d, Some c, sv\<lparr>InfoSockets := InfoSockets sv @ [\<lparr>Descriptor = d, Enable = True\<rparr>]\<rparr>, s')"
    "vAccept (Master sv) s = (d, Some c, s')"
    "0 \<le> d" "d \<notin> set (open_fds s)" "open_fds s' = d # open_fds s" "sent s' = sent s"
proof -
  obtain d c s' where a: "vAccept (Master sv) s = (d, c, s')"
    by (cases "vAccept (Master sv) s")
  consider "d = SOCKET_ERROR" "s' = s" | "0 \<le> d" "d \<notin> set (open_fds s)" "c \<noteq> None"
      "open_fds s' = d # open_fds s" "sent s' = sent s"
    using accept_cases [OF a] by auto
  then show thesis
  proof cases
    case 1
    moreover from this have "pending s (Master sv) = []"
      using accept_pending [of s "Master sv"] a by auto
    ultimately show thesis
      using a by (intro failed [of c]) (simp_all add: Accept_cid_def)
  next
    case 2
    then obtain k where k: "c = Some k" by auto
    show thesis
      by (rule accepted [of d k s'])
        (use 2 a k in \<open>simp_all add: Accept_cid_def CInfoSocket_of_eq SOCKET_ERROR_def\<close>)
  qed
qed

end

lemma os_accept_cases:
  assumes "os_accept m s = (r, s')"
  obtains (none) "r = None" "s' = s" "pending s m = []"
  | (some) d a where "r = Some (d, a)" "0 \<le> d" "d \<notin> set (open_fds s)" "open_fds s' = d # open_fds s"
      "sent s' = sent s" "pending s m \<noteq> []"
proof (cases "pending s m")
  case Nil
  with assms none show thesis by (simp add: os_accept_def)
next
  case (Cons c cs)
  show thesis
    by (rule some [of "lowest_free (open_fds s)" "peer c"])
      (use assms Cons lowest_free_fresh lowest_free_nonneg in \<open>auto simp: os_accept_def Let_def\<close>)
qed

lemma accepting_family:
  assumes "\<And>m s. f m s = (case os_accept m s of (None, s) \<Rightarrow> (SOCKET_ERROR, None, s)
      | (Some (d, a), s) \<Rightarrow> (d, Some (cid a), s))"
  shows "accepting f"
proof
  show "d = SOCKET_ERROR \<and> s' = s \<or>
      0 \<le> d \<and> d \<notin> set (open_fds s) \<and> c \<noteq> None \<and> open_fds s' = d # open_fds s \<and> sent s' = sent s"
    if "f m s = (d, c, s')" for m s d c s'
  proof -
    obtain r t where rt: "os_accept m s = (r, t)" by (cases "os_accept m s")
    from this that show ?thesis
      by (elim os_accept_cases) (auto simp: assms rt)
  qed
  show "fst (f m s) \<noteq> SOCKET_ERROR" if "pending s m \<noteq> []" for m s
  proof -
    obtain r t where rt: "os_accept m s = (r, t)" by (cases "os_accept m s")
    from this that show ?thesis
      by (elim os_accept_cases) (auto simp: assms rt SOCKET_ERROR_def)
  qed
qed

interpretation itcp: accepting "Accept_ITCP HashUsesPort" for HashUsesPort
  by (rule accepting_family [of _ "\<lambda>a. ucast (hash_ipaddr HashUsesPort a)"])
    (simp add: Accept_ITCP_def split: prod.splits option.splits)

interpretation vtcp: accepting Accept_VTCP
  by (rule accepting_family [of _ svm_cid]) (simp add: Accept_VTCP_def split: prod.splits option.splits)

section \<open>Clients\<close>

abbreviation descriptors :: "'a CSocketServer_scheme \<Rightarrow> TDescriptor list" where
  "descriptors sv \<equiv> map Descriptor (InfoSockets sv)"

lemma GetSocketClient_Ok [simp]:
  "i < length (InfoSockets sv) \<Longrightarrow> GetSocketClient i sv = Ok (Descriptor (InfoSockets sv ! i))"
  by (simp add: GetSocketClient_def)

lemma IsEnable_Ok [simp]:
  "i < length (InfoSockets sv) \<Longrightarrow> IsEnable i sv = Ok (Enable (InfoSockets sv ! i))"
  by (simp add: IsEnable_def GetNumberClient_def)

lemma DisableClient_Ok [simp]:
  "i < length (InfoSockets sv) \<Longrightarrow>
   DisableClient i sv = Ok (sv\<lparr>InfoSockets := (InfoSockets sv)[i := DisableIt (InfoSockets sv ! i)]\<rparr>)"
  by (simp add: DisableClient_def)

text \<open>A client that was disabled is forgotten without its descriptor being closed.\<close>

lemma CSocketServer_CloseClient_Ok [simp]:
  assumes "i < length (InfoSockets sv)"
  shows "CSocketServer_CloseClient i sv s =
    Ok (sv\<lparr>InfoSockets := erase i (InfoSockets sv)\<rparr>,
        if Enable (InfoSockets sv ! i) then os_close (Descriptor (InfoSockets sv ! i)) s else s)"
  using assms by (simp add: CSocketServer_CloseClient_def CInfoSocket_Close_def erase_def)

lemma CSocketServer_destroy_shared:
  "\<not> ListInfoSelfManaged sv \<Longrightarrow> CSocketServer_destroy sv s = Fault Undefined_behaviour"
  by (simp add: CSocketServer_destroy_def split: prod.splits)

lemma map_Descriptor_disable [simp]:
  "map Descriptor (is[i := DisableIt (is ! i)]) = map Descriptor is"
  by (cases "i < length is") (simp_all add: map_update list_update_same_conv list_update_beyond)

end
