(* ===== verification/Vwifi_WifiServer.thy ===== *)
theory Vwifi_WifiServer
  imports Vwifi_Server
begin

text \<open>
  \<^verbatim>\<open>CWifiServer\<close> (\<^verbatim>\<open>src/src/cwifiserver.cc\<close>): the clients of a radio medium with their
  identifier, name and position, the clients that left and whose position is remembered, and the
  distribution of a frame to the other clients with the attenuated power and the random loss.

  The global variables \<^verbatim>\<open>CanLostPackets\<close>, \<^verbatim>\<open>Scale\<close> and \<^verbatim>\<open>HashUsesPort\<close> are the record
  \<open>globals\<close>; \<^verbatim>\<open>Scale\<close> is kept as the 64 bits that the control program sends. libnl's parser
  is the argument \<open>genlmsg_parse\<close>.

  The lemmas give the invariant of the lists, what a leaving and returning client keeps, and
  exactly which bytes are sent to whom.
\<close>

section \<open>Class CWifiServer\<close>

record globals =
  CanLostPackets :: bool
  Scale :: "64 word"
  HashUsesPort :: bool

definition globals_new :: globals where
  "globals_new = \<lparr>CanLostPackets = LOST_PACKET_BY_DEFAULT, Scale = 0x3FF0000000000000, HashUsesPort = False\<rparr>"

record CWifiServer = CSocketServer +
  MaxClientDeconnected :: TIndex
  InfoWifis :: "CInfoWifi list"
  InfoWifisDeconnected :: "CInfoWifi list"

definition DefaultValues :: "CWifiServer \<Rightarrow> CWifiServer" where
  "DefaultValues sv = sv\<lparr>MaxClientDeconnected := 0\<rparr>"

text \<open>\<^verbatim>\<open>CWifiServer()\<close> owns its lists; the other constructor is given lists that it shares.\<close>

definition CWifiServer_new ::
  "(CInfoSocket list \<times> CInfoWifi list \<times> CInfoWifi list) option \<Rightarrow> CWifiServer" where
  "CWifiServer_new shared =
     (case shared of
        None \<Rightarrow> DefaultValues (CSocketServer.extend (CSocketServer_new None)
          \<lparr>MaxClientDeconnected = 0, InfoWifis = [], InfoWifisDeconnected = []\<rparr>)
      | Some (infoSockets, infoWifis, infoWifisDeconnected) \<Rightarrow>
          DefaultValues (CSocketServer.extend (CSocketServer_new (Some infoSockets))
          \<lparr>MaxClientDeconnected = 0, InfoWifis = infoWifis, InfoWifisDeconnected = infoWifisDeconnected\<rparr>))"

definition CWifiServer_destroy :: "CWifiServer \<Rightarrow> os \<Rightarrow> os result" where
  "CWifiServer_destroy sv s =
     CSocketServer_destroy
       (if ListInfoSelfManaged sv then sv\<lparr>InfoWifis := [], InfoWifisDeconnected := []\<rparr> else sv) s"

definition CWifiServer_Listen ::
  "(TDescriptor \<Rightarrow> TPort \<Rightarrow> os \<Rightarrow> bool \<times> TDescriptor \<times> os) \<Rightarrow> TIndex \<Rightarrow> CWifiServer \<Rightarrow> os \<Rightarrow>
   bool \<times> CWifiServer \<times> os" where
  "CWifiServer_Listen vListen maxClientDeconnected sv s =
     (let sv = sv\<lparr>MaxClientDeconnected := maxClientDeconnected\<rparr>;
          (ok, master, s) = vListen (Master sv) (Port sv) s;
          sv = sv\<lparr>Master := master\<rparr>
      in if \<not> ok then (False, sv, s) else (True, sv, s))"

text \<open>What was remembered about an identifier, and the list without that entry.\<close>

fun RecoverInfosOfInfoWifiDeconnected_loop ::
  "TCID \<Rightarrow> CInfoWifi list \<Rightarrow> CInfoWifi list \<Rightarrow> ((CCoordinate \<times> string) \<times> CInfoWifi list) option" where
  "RecoverInfosOfInfoWifiDeconnected_loop cid passed [] = None"
| "RecoverInfosOfInfoWifiDeconnected_loop cid passed (w # ws) =
     (if Cid w = cid then Some ((coo_of w, Name w), passed @ ws)
      else RecoverInfosOfInfoWifiDeconnected_loop cid (passed @ [w]) ws)"

definition RecoverInfosOfInfoWifiDeconnected ::
  "TCID \<Rightarrow> CWifiServer \<Rightarrow> (CCoordinate \<times> string) option \<times> CWifiServer" where
  "RecoverInfosOfInfoWifiDeconnected cid sv =
     (case RecoverInfosOfInfoWifiDeconnected_loop cid [] (InfoWifisDeconnected sv) of
        None \<Rightarrow> (None, sv)
      | Some (r, l) \<Rightarrow> (Some r, sv\<lparr>InfoWifisDeconnected := l\<rparr>))"

fun RecoverInfosOfInfoWifi_loop ::
  "TCID \<Rightarrow> TIndex \<Rightarrow> CInfoWifi list \<Rightarrow> CWifiServer \<Rightarrow> ((CCoordinate \<times> string) option \<times> CWifiServer) result" where
  "RecoverInfosOfInfoWifi_loop cid index [] sv = Ok (None, sv)"
| "RecoverInfosOfInfoWifi_loop cid index (w # ws) sv =
     rbind (IsEnable index sv) (\<lambda>enable.
     if enable \<and> Cid w = cid then
       rbind (DisableClient index sv) (\<lambda>sv. Ok (Some (coo_of w, Name w), sv))
     else RecoverInfosOfInfoWifi_loop cid (Suc index) ws sv)"

definition RecoverInfosOfInfoWifi ::
  "TCID \<Rightarrow> CWifiServer \<Rightarrow> ((CCoordinate \<times> string) option \<times> CWifiServer) result" where
  "RecoverInfosOfInfoWifi cid sv = RecoverInfosOfInfoWifi_loop cid 0 (InfoWifis sv) sv"

text \<open>The condition \<^verbatim>\<open>Recover...Deconnected(...) || Recover...(...)\<close> of \<^verbatim>\<open>Accept\<close>.\<close>

definition RecoverInfos ::
  "TCID \<Rightarrow> CWifiServer \<Rightarrow> ((CCoordinate \<times> string) option \<times> CWifiServer) result" where
  "RecoverInfos cid sv =
     (case RecoverInfosOfInfoWifiDeconnected cid sv of
        (Some r, sv) \<Rightarrow> Ok (Some r, sv)
      | (None, sv) \<Rightarrow> RecoverInfosOfInfoWifi cid sv)"

definition CWifiServer_Accept ::
  "accept_fn \<Rightarrow> CWifiServer \<Rightarrow> os \<Rightarrow> (TDescriptor \<times> CWifiServer \<times> os) result" where
  "CWifiServer_Accept vAccept sv s =
     rbind (Accept_cid vAccept sv s) (\<lambda>(new_socket, cid, sv, s).
     if new_socket = SOCKET_ERROR then Ok (SOCKET_ERROR, sv, s)
     else rbind (case cid of None \<Rightarrow> Fault Undefined_behaviour | Some c \<Rightarrow> Ok c) (\<lambda>cid.
       rbind CInfoWifi_default (\<lambda>infoWifi.
       rbind (RecoverInfos cid sv) (\<lambda>(found, sv).
       let infoWifi = (case found of None \<Rightarrow> infoWifi
                       | Some (coo, name) \<Rightarrow> SetName name (SetCoo coo infoWifi))
       in rbind (SetCid cid infoWifi) (\<lambda>infoWifi.
          Ok (new_socket, sv\<lparr>InfoWifis := InfoWifis sv @ [infoWifi]\<rparr>, s))))))"

text \<open>The text that \<^verbatim>\<open>ShowInfoWifi\<close> prints.\<close>

definition ShowInfoWifi :: "TIndex \<Rightarrow> CWifiServer \<Rightarrow> string result" where
  "ShowInfoWifi index sv =
     rbind (assertion (index < GetNumberClient sv)) (\<lambda>_.
     rbind (nth_r (InfoWifis sv) index) (\<lambda>w. Ok (CInfoWifi_Display w)))"

definition AddInfoWifiDeconnected :: "CInfoWifi \<Rightarrow> CWifiServer \<Rightarrow> CWifiServer result" where
  "AddInfoWifiDeconnected infoWifi sv =
     rbind (if length (InfoWifisDeconnected sv) \<ge> MaxClientDeconnected sv
            then erase_r 0 (InfoWifisDeconnected sv) else Ok (InfoWifisDeconnected sv)) (\<lambda>l.
     Ok (sv\<lparr>InfoWifisDeconnected := l @ [infoWifi]\<rparr>))"

definition CloseClient :: "TIndex \<Rightarrow> CWifiServer \<Rightarrow> os \<Rightarrow> (CWifiServer \<times> os) result" where
  "CloseClient index sv s =
     rbind (assertion (index < GetNumberClient sv)) (\<lambda>_.
     rbind (CSocketServer_CloseClient index sv s) (\<lambda>(sv, s).
     rbind (nth_r (InfoWifis sv) index) (\<lambda>w.
     rbind (AddInfoWifiDeconnected w sv) (\<lambda>sv.
     rbind (erase_r index (InfoWifis sv)) (\<lambda>l.
     Ok (sv\<lparr>InfoWifis := l\<rparr>, s))))))"

fun CloseAllClient_loop :: "nat \<Rightarrow> CWifiServer \<Rightarrow> os \<Rightarrow> (CWifiServer \<times> os) result" where
  "CloseAllClient_loop 0 sv s = Ok (sv, s)"
| "CloseAllClient_loop (Suc n) sv s = rbind (CloseClient 0 sv s) (\<lambda>(sv, s). CloseAllClient_loop n sv s)"

definition CloseAllClient :: "CWifiServer \<Rightarrow> os \<Rightarrow> (CWifiServer \<times> os) result" where
  "CloseAllClient sv s = CloseAllClient_loop (GetNumberClient sv) sv s"

section \<open>Distribution of a frame\<close>

text \<open>\<^verbatim>\<open>if( SendSignal(...) < 0 ) (*InfoSockets)[i].DisableIt();\<close>\<close>

definition send_or_disable ::
  "TIndex \<Rightarrow> TPower \<Rightarrow> byte list \<Rightarrow> CWifiServer \<times> os \<Rightarrow> (CWifiServer \<times> os) result" where
  "send_or_disable i pw data = (\<lambda>(sv, s).
     rbind (nth_r (InfoSockets sv) i) (\<lambda>info.
     let (r, s) = SendSignalWithSocket (Descriptor info) pw data s
     in if r < 0 then Ok (sv\<lparr>InfoSockets := (InfoSockets sv)[i := DisableIt info]\<rparr>, s)
        else Ok (sv, s)))"

text \<open>\<^verbatim>\<open>rand()\<close> is called only when packets can be lost.\<close>

definition packet_lost :: "globals \<Rightarrow> TPower \<Rightarrow> os \<Rightarrow> bool \<times> os" where
  "packet_lost g signalLevel s =
     (if CanLostPackets g then (let (r, s) = os_rand s in (PacketIsLost r signalLevel, s)) else (False, s))"

definition SendAllOtherClients_step ::
  "(byte list \<Rightarrow> freq_attr) \<Rightarrow> globals \<Rightarrow> TIndex \<Rightarrow> CCoordinate \<Rightarrow> TPower \<Rightarrow> byte list \<Rightarrow> TIndex \<Rightarrow>
   CWifiServer \<times> os \<Rightarrow> (CWifiServer \<times> os) result" where
  "SendAllOtherClients_step genlmsg_parse g index coo pw data i = (\<lambda>(sv, s).
     if i = index then Ok (sv, s)
     else rbind (IsEnable i sv) (\<lambda>enable.
       if \<not> enable then Ok (sv, s)
       else rbind (GetFrequency genlmsg_parse data) (\<lambda>frequency.
         rbind (nth_r (InfoWifis sv) i) (\<lambda>dst.
         rbind (signal_level (double_of_bits (Scale g)) coo dst frequency pw) (\<lambda>signalLevel.
         let (lost, s) = packet_lost g signalLevel s
         in if lost then Ok (sv, s) else send_or_disable i signalLevel data (sv, s))))))"

definition SendAllOtherClients ::
  "(byte list \<Rightarrow> freq_attr) \<Rightarrow> globals \<Rightarrow> TIndex \<Rightarrow> TPower \<Rightarrow> byte list \<Rightarrow> CWifiServer \<Rightarrow> os \<Rightarrow>
   (CWifiServer \<times> os) result" where
  "SendAllOtherClients genlmsg_parse g index pw data sv s =
     rbind (nth_r (InfoWifis sv) index) (\<lambda>w.
     run_events (SendAllOtherClients_step genlmsg_parse g index (coo_of w) pw data)
       [0..<GetNumberClient sv] (sv, s))"

definition send_if_enabled ::
  "TPower \<Rightarrow> byte list \<Rightarrow> TIndex \<Rightarrow> CWifiServer \<times> os \<Rightarrow> (CWifiServer \<times> os) result" where
  "send_if_enabled pw data i = (\<lambda>(sv, s).
     rbind (IsEnable i sv) (\<lambda>enable. if enable then send_or_disable i pw data (sv, s) else Ok (sv, s)))"

definition SendAllOtherClientsWithoutLoss ::
  "TIndex \<Rightarrow> TPower \<Rightarrow> byte list \<Rightarrow> CWifiServer \<Rightarrow> os \<Rightarrow> (CWifiServer \<times> os) result" where
  "SendAllOtherClientsWithoutLoss index pw data sv s =
     run_events (\<lambda>i st. if i \<noteq> index then send_if_enabled pw data i st else Ok st)
       [0..<GetNumberClient sv] (sv, s)"

definition SendAllClientsWithoutLoss ::
  "TPower \<Rightarrow> byte list \<Rightarrow> CWifiServer \<Rightarrow> os \<Rightarrow> (CWifiServer \<times> os) result" where
  "SendAllClientsWithoutLoss pw data sv s =
     run_events (send_if_enabled pw data) [0..<GetNumberClient sv] (sv, s)"

section \<open>Looking a client up\<close>

text \<open>A pointer into a list is the index of the element; \<open>None\<close> is the null pointer.\<close>

fun find_cid :: "TCID \<Rightarrow> TIndex \<Rightarrow> CInfoWifi list \<Rightarrow> TIndex option" where
  "find_cid cid i [] = None"
| "find_cid cid i (w # ws) = (if Cid w = cid then Some i else find_cid cid (Suc i) ws)"

definition GetReferenceOnInfoWifiByCID :: "TCID \<Rightarrow> CWifiServer \<Rightarrow> TIndex option" where
  "GetReferenceOnInfoWifiByCID cid sv = find_cid cid 0 (InfoWifis sv)"

definition GetReferenceOnInfoWifiDeconnectedByCID :: "TCID \<Rightarrow> CWifiServer \<Rightarrow> TIndex option" where
  "GetReferenceOnInfoWifiDeconnectedByCID cid sv = find_cid cid 0 (InfoWifisDeconnected sv)"

definition GetReferenceOnInfoWifiByIndex :: "TIndex \<Rightarrow> CWifiServer \<Rightarrow> CInfoWifi result" where
  "GetReferenceOnInfoWifiByIndex index sv =
     rbind (assertion (index < GetNumberClient sv)) (\<lambda>_. nth_r (InfoWifis sv) index)"

section \<open>The lists of a medium agree\<close>

definition wifi_ok :: "CWifiServer \<Rightarrow> bool" where
  "wifi_ok sv \<longleftrightarrow> length (InfoSockets sv) = length (InfoWifis sv) \<and>
     length (InfoWifisDeconnected sv) \<le> MaxClientDeconnected sv \<and> 0 < MaxClientDeconnected sv \<and>
     list_all info_ok (InfoWifis sv) \<and> list_all info_ok (InfoWifisDeconnected sv) \<and>
     distinct (descriptors sv) \<and> list_all (\<lambda>d. 0 \<le> d) (descriptors sv)"

text \<open>Only the most recent entries are remembered.\<close>

definition latest :: "nat \<Rightarrow> 'a list \<Rightarrow> 'a list" where
  "latest n xs = drop (length xs - n) xs"

lemma latest_snoc: "length xs \<le> n \<Longrightarrow> 0 < n \<Longrightarrow>
    latest n (xs @ [x]) = (if length xs \<ge> n then tl xs else xs) @ [x]"
  by (auto simp: latest_def drop_Suc)

lemma latest_latest: "latest n (latest n xs @ ys) = latest n (xs @ ys)"
  by (cases "length xs \<le> n") (auto simp: latest_def add.commute)

lemma length_latest [simp]: "length (latest n xs) = min n (length xs)"
  by (simp add: latest_def)

lemma latest_short: "length xs \<le> n \<Longrightarrow> latest n xs = xs"
  by (simp add: latest_def)

lemma list_all_latest: "list_all P xs \<Longrightarrow> list_all P (latest n xs)"
  by (auto simp: list_all_iff latest_def dest: in_set_dropD)

lemma AddInfoWifiDeconnected_Ok:
  assumes "wifi_ok sv"
  shows "AddInfoWifiDeconnected w sv =
    Ok (sv\<lparr>InfoWifisDeconnected := latest (MaxClientDeconnected sv) (InfoWifisDeconnected sv @ [w])\<rparr>)"
proof (cases "InfoWifisDeconnected sv")
  case Nil
  with assms show ?thesis
    by (simp add: wifi_ok_def AddInfoWifiDeconnected_def latest_def)
next
  case (Cons a l)
  have le: "length (InfoWifisDeconnected sv) \<le> MaxClientDeconnected sv" "0 < MaxClientDeconnected sv"
    using assms by (simp_all add: wifi_ok_def)
  show ?thesis
    unfolding latest_snoc [OF le] using le(2) Cons by (simp add: AddInfoWifiDeconnected_def)
qed

lemma CloseClient_Ok:
  assumes "wifi_ok sv" and "i < length (InfoSockets sv)"
  shows "CloseClient i sv s =
    Ok (sv\<lparr>InfoSockets := erase i (InfoSockets sv),
           InfoWifisDeconnected :=
             latest (MaxClientDeconnected sv) (InfoWifisDeconnected sv @ [InfoWifis sv ! i]),
           InfoWifis := erase i (InfoWifis sv)\<rparr>,
        if Enable (InfoSockets sv ! i) then os_close (Descriptor (InfoSockets sv ! i)) s else s)"
proof -
  have "length (InfoWifisDeconnected sv) \<le> MaxClientDeconnected sv" "0 < MaxClientDeconnected sv"
    using assms by (simp_all add: wifi_ok_def)
  note l = latest_snoc [OF this, of "InfoWifis sv ! i"]
  show ?thesis
    unfolding l using assms
    by (cases "InfoWifisDeconnected sv")
      (auto simp: CloseClient_def GetNumberClient_def AddInfoWifiDeconnected_def wifi_ok_def)
qed

lemma CloseClient_wifi_ok:
  assumes "wifi_ok sv" and "CloseClient i sv s = Inr (sv', s')"
  shows "wifi_ok sv'"
proof -
  have i: "i < length (InfoSockets sv)"
    using assms(2) by (auto simp: CloseClient_def GetNumberClient_def rbind_Inr_iff)
  have "list_all info_ok (InfoWifisDeconnected sv @ [InfoWifis sv ! i])"
    using assms(1) i by (auto simp: wifi_ok_def list_all_iff)
  then have "list_all info_ok (latest (MaxClientDeconnected sv) (InfoWifisDeconnected sv @ [InfoWifis sv ! i]))"
    by (rule list_all_latest)
  with assms CloseClient_Ok [OF assms(1) i, of s] i show ?thesis
    by (auto simp: wifi_ok_def list_all_erase map_erase distinct_erase)
qed

text \<open>Closing every client: no client is left, every enabled one is closed, all are remembered.\<close>

definition enabled_descriptors :: "'a CSocketServer_scheme \<Rightarrow> TDescriptor set" where
  "enabled_descriptors sv = Descriptor ` {i \<in> set (InfoSockets sv). Enable i}"

lemma CloseAllClient_loop_Ok:
  assumes "wifi_ok sv" and "n = length (InfoSockets sv)"
  shows "\<exists>s'. CloseAllClient_loop n sv s =
      Ok (sv\<lparr>InfoSockets := [], InfoWifis := [],
             InfoWifisDeconnected :=
               latest (MaxClientDeconnected sv) (InfoWifisDeconnected sv @ InfoWifis sv)\<rparr>, s') \<and>
    set (open_fds s') = set (open_fds s) - enabled_descriptors sv \<and>
    rx s' = rx s \<and> tx s' = tx s \<and> sent s' = sent s \<and> pending s' = pending s"
  using assms
proof (induction n arbitrary: sv s)
  case 0
  then have "InfoSockets sv = []" "InfoWifis sv = []"
    "length (InfoWifisDeconnected sv) \<le> MaxClientDeconnected sv"
    by (auto simp: wifi_ok_def)
  then show ?case
    by (simp add: enabled_descriptors_def latest_short)
next
  case (Suc n)
  obtain i il where i: "InfoSockets sv = i # il" using Suc.prems(2) by (cases "InfoSockets sv") auto
  obtain w ws where w: "InfoWifis sv = w # ws"
    using Suc.prems i by (cases "InfoWifis sv") (auto simp: wifi_ok_def)
  define sv1 where "sv1 = sv\<lparr>InfoSockets := il, InfoWifisDeconnected :=
      latest (MaxClientDeconnected sv) (InfoWifisDeconnected sv @ [w]), InfoWifis := ws\<rparr>"
  define s1 where "s1 = (if Enable i then os_close (Descriptor i) s else s)"
  have c: "CloseClient 0 sv s = Inr (sv1, s1)"
    using CloseClient_Ok [OF Suc.prems(1), of 0 s] i w by (simp add: sv1_def s1_def)
  have ok: "wifi_ok sv1" using CloseClient_wifi_ok [OF Suc.prems(1) c] .
  have len: "n = length (InfoSockets sv1)" using Suc.prems(2) i by (simp add: sv1_def)
  obtain s' where "CloseAllClient_loop n sv1 s1 =
      Ok (sv1\<lparr>InfoSockets := [], InfoWifis := [], InfoWifisDeconnected :=
               latest (MaxClientDeconnected sv1) (InfoWifisDeconnected sv1 @ InfoWifis sv1)\<rparr>, s')"
    and s': "set (open_fds s') = set (open_fds s1) - enabled_descriptors sv1"
      "rx s' = rx s1" "tx s' = tx s1" "sent s' = sent s1" "pending s' = pending s1"
    using Suc.IH [OF ok len, of s1] by (elim exE conjE)
  then have "CloseAllClient_loop (Suc n) sv s =
      Ok (sv\<lparr>InfoSockets := [], InfoWifis := [], InfoWifisDeconnected :=
               latest (MaxClientDeconnected sv) (InfoWifisDeconnected sv @ InfoWifis sv)\<rparr>, s')"
    using c w by (simp add: sv1_def latest_latest)
  moreover have "set (open_fds s') = set (open_fds s) - enabled_descriptors sv"
    using s'(1) i by (auto simp: s1_def sv1_def enabled_descriptors_def)
  moreover have "rx s' = rx s" "tx s' = tx s" "sent s' = sent s" "pending s' = pending s"
    using s'(2-) by (simp_all add: s1_def)
  ultimately show ?case by blast
qed

lemmas CloseAllClient_Ok =
  CloseAllClient_loop_Ok [of sv "GetNumberClient sv" s for sv s, folded CloseAllClient_def,
    unfolded GetNumberClient_def, OF _ refl]

section \<open>Finding and recovering a client\<close>

lemma find_cid_shift: "find_cid cid k ws = map_option ((+) k) (find_cid cid 0 ws)"
proof (induction ws arbitrary: k)
  case (Cons w ws)
  show ?case
    using Cons.IH [of "Suc k"] Cons.IH [of "Suc 0"] by (simp add: option.map_comp comp_def)
qed simp

lemma find_cid_Cons: "find_cid cid 0 (w # ws) = (if Cid w = cid then Some 0 else map_option Suc (find_cid cid 0 ws))"
  using find_cid_shift [of cid "Suc 0" ws] by (cases "find_cid cid 0 ws") simp_all

lemma find_cid_SomeD: "find_cid cid 0 ws = Some i \<Longrightarrow> i < length ws \<and> Cid (ws ! i) = cid"
  by (induction ws arbitrary: i) (auto simp: find_cid_Cons simp del: find_cid.simps(2) split: if_splits)

lemma find_cid_first: "find_cid cid 0 ws = Some i \<Longrightarrow> j < i \<Longrightarrow> Cid (ws ! j) \<noteq> cid"
  by (induction ws arbitrary: i j)
    (auto simp: find_cid_Cons nth_Cons simp del: find_cid.simps(2) split: if_splits nat.splits)

lemma find_cid_None_iff: "find_cid cid 0 ws = None \<longleftrightarrow> cid \<notin> Cid ` set ws"
  by (induction ws) (auto simp: find_cid_Cons simp del: find_cid.simps(2))

lemma find_cid_append:
  "find_cid cid 0 (us @ ws) =
     (case find_cid cid 0 us of Some i \<Rightarrow> Some i | None \<Rightarrow> map_option ((+) (length us)) (find_cid cid 0 ws))"
  by (induction us; cases "find_cid cid 0 ws")
    (auto simp: find_cid_Cons simp del: find_cid.simps(2) split: option.splits)

lemma RecoverDeconnected_loop_eq:
  "RecoverInfosOfInfoWifiDeconnected_loop cid passed ws =
     map_option (\<lambda>i. ((coo_of (ws ! i), Name (ws ! i)), passed @ erase i ws)) (find_cid cid 0 ws)"
  by (induction ws arbitrary: passed)
    (auto simp: find_cid_Cons option.map_comp comp_def erase_def simp del: find_cid.simps(2))

lemma RecoverInfosOfInfoWifiDeconnected_eq:
  "RecoverInfosOfInfoWifiDeconnected cid sv =
     (case GetReferenceOnInfoWifiDeconnectedByCID cid sv of
        None \<Rightarrow> (None, sv)
      | Some i \<Rightarrow> (Some (coo_of (InfoWifisDeconnected sv ! i), Name (InfoWifisDeconnected sv ! i)),
                  sv\<lparr>InfoWifisDeconnected := erase i (InfoWifisDeconnected sv)\<rparr>))"
  by (simp add: RecoverInfosOfInfoWifiDeconnected_def RecoverDeconnected_loop_eq
      GetReferenceOnInfoWifiDeconnectedByCID_def split: option.splits)

text \<open>The first enabled client with the identifier, when there is one, is disabled.\<close>

definition same_cid :: "TCID \<Rightarrow> CWifiServer \<Rightarrow> TIndex \<Rightarrow> bool" where
  "same_cid cid sv i \<longleftrightarrow> Enable (InfoSockets sv ! i) \<and> Cid (InfoWifis sv ! i) = cid"

lemma RecoverInfosOfInfoWifi_loop_cases:
  assumes "InfoWifis sv = us @ ws" and "k = length us" and "length (InfoWifis sv) \<le> length (InfoSockets sv)"
  shows "(\<forall>i. k \<le> i \<and> i < length (InfoWifis sv) \<longrightarrow> \<not> same_cid cid sv i) \<and>
           RecoverInfosOfInfoWifi_loop cid k ws sv = Ok (None, sv) \<or>
         (\<exists>i. k \<le> i \<and> i < length (InfoWifis sv) \<and> same_cid cid sv i \<and>
           (\<forall>j. k \<le> j \<and> j < i \<longrightarrow> \<not> same_cid cid sv j) \<and>
           RecoverInfosOfInfoWifi_loop cid k ws sv =
             Ok (Some (coo_of (InfoWifis sv ! i), Name (InfoWifis sv ! i)),
                 sv\<lparr>InfoSockets := (InfoSockets sv)[i := DisableIt (InfoSockets sv ! i)]\<rparr>))"
  using assms
proof (induction ws arbitrary: us k)
  case Nil
  then show ?case by auto
next
  case (Cons w ws)
  have k: "k < length (InfoWifis sv)" "k < length (InfoSockets sv)" "InfoWifis sv ! k = w"
    using Cons.prems by auto
  show ?case
  proof (cases "same_cid cid sv k")
    case True
    with k show ?thesis
      by (intro disjI2 exI [of _ k]) (auto simp: same_cid_def)
  next
    case False
    have step: "RecoverInfosOfInfoWifi_loop cid k (w # ws) sv = RecoverInfosOfInfoWifi_loop cid (Suc k) ws sv"
      using False k by (auto simp: same_cid_def)
    have le: "k \<le> i \<longleftrightarrow> i = k \<or> Suc k \<le> i" for i by auto
    show ?thesis
      using Cons.IH [of "us @ [w]" "Suc k"] Cons.prems False unfolding step le by auto
  qed
qed

lemma RecoverInfosOfInfoWifi_cases:
  assumes "length (InfoWifis sv) \<le> length (InfoSockets sv)"
  obtains (absent) "\<forall>i < length (InfoWifis sv). \<not> same_cid cid sv i"
      "RecoverInfosOfInfoWifi cid sv = Ok (None, sv)"
  | (present) i where "i < length (InfoWifis sv)" "same_cid cid sv i" "\<forall>j < i. \<not> same_cid cid sv j"
      "RecoverInfosOfInfoWifi cid sv = Ok (Some (coo_of (InfoWifis sv ! i), Name (InfoWifis sv ! i)),
         sv\<lparr>InfoSockets := (InfoSockets sv)[i := DisableIt (InfoSockets sv ! i)]\<rparr>)"
  using RecoverInfosOfInfoWifi_loop_cases [of sv "[]" "InfoWifis sv" 0 cid] assms
  by (auto simp: RecoverInfosOfInfoWifi_def)

section \<open>A client joins\<close>

text \<open>
  The specification of joining. A remembered client takes its entry back; otherwise an enabled
  client with the same identifier is disabled and the newcomer gets a copy of its entry; otherwise
  the newcomer stands at (0,0,0) without a name.
\<close>

definition join_as :: "TDescriptor \<Rightarrow> CInfoWifi \<Rightarrow> CWifiServer \<Rightarrow> CWifiServer" where
  "join_as d w sv = sv\<lparr>InfoSockets := InfoSockets sv @ [\<lparr>Descriptor = d, Enable = True\<rparr>],
                       InfoWifis := InfoWifis sv @ [w]\<rparr>"

definition rejoin :: "TCID \<Rightarrow> TDescriptor \<Rightarrow> CWifiServer \<Rightarrow> CWifiServer" where
  "rejoin cid d sv =
     (case GetReferenceOnInfoWifiDeconnectedByCID cid sv of
        Some i \<Rightarrow> join_as d (InfoWifisDeconnected sv ! i)
                    (sv\<lparr>InfoWifisDeconnected := erase i (InfoWifisDeconnected sv)\<rparr>)
      | None \<Rightarrow>
          (case find (same_cid cid sv) [0..<length (InfoWifis sv)] of
             Some i \<Rightarrow> join_as d (InfoWifis sv ! i)
               (sv\<lparr>InfoSockets := (InfoSockets sv)[i := DisableIt (InfoSockets sv ! i)]\<rparr>)
           | None \<Rightarrow> join_as d ((CInfoWifi_raw CCoordinate_new)\<lparr>Cid := cid\<rparr>) sv))"

lemma rebuilt_entry:
  assumes "info_ok w" and "Cid w = cid"
  shows "(SetName (Name w) (SetCoo (coo_of w) (CInfoWifi_raw coo)))\<lparr>Cid := cid\<rparr> = w"
  using assms
  by (auto simp: info_ok_def SetName_def set_coo_defs CInfoWifi_raw_def CCoordinate.defs coo_of_def)

lemma RecoverInfosOfInfoWifi_eq:
  assumes "length (InfoWifis sv) \<le> length (InfoSockets sv)"
  shows "RecoverInfosOfInfoWifi cid sv =
    (case find (same_cid cid sv) [0..<length (InfoWifis sv)] of
       None \<Rightarrow> Ok (None, sv)
     | Some i \<Rightarrow> Ok (Some (coo_of (InfoWifis sv ! i), Name (InfoWifis sv ! i)),
         sv\<lparr>InfoSockets := (InfoSockets sv)[i := DisableIt (InfoSockets sv ! i)]\<rparr>))"
  using assms
proof (cases rule: RecoverInfosOfInfoWifi_cases [where cid = cid])
  case absent
  then have "find (same_cid cid sv) [0..<length (InfoWifis sv)] = None"
    by (auto simp: find_None_iff)
  with absent show ?thesis by simp
next
  case (present i)
  then have "find (same_cid cid sv) [0..<length (InfoWifis sv)] = Some i"
    by (auto simp: find_Some_iff intro!: exI [of _ i])
  with present show ?thesis by simp
qed

lemma same_cid_append [simp]:
  "i < length (InfoSockets sv) \<Longrightarrow> same_cid cid (sv\<lparr>InfoSockets := InfoSockets sv @ x\<rparr>) i = same_cid cid sv i"
  by (simp add: same_cid_def nth_append)

context accepting
begin

lemma CWifiServer_Accept_eq:
  assumes ok: "wifi_ok sv" and acc: "vAccept (Master sv) s = (d, c, s')"
  shows "CWifiServer_Accept vAccept sv s =
    (if d = SOCKET_ERROR then Ok (SOCKET_ERROR, sv, s)
     else if the c = 0 \<or> TCID_GUEST_MIN \<le> the c then Ok (d, rejoin (the c) d sv, s')
     else Fault Assertion_failed)"
proof (cases rule: Accept_cid_cases [of sv s])
  case (failed c')
  then show ?thesis
    using acc accept_cases [OF acc]
    by (auto simp: CWifiServer_Accept_def Accept_cid_def split: if_splits)
next
  case (accepted e cid t)
  have eq: "e = d" "c = Some cid" "t = s'" and ne: "d \<noteq> SOCKET_ERROR"
    using acc accepted by (auto simp: SOCKET_ERROR_def)
  define new where "new = \<lparr>Descriptor = d, Enable = True\<rparr>"
  define sv1 where "sv1 = sv\<lparr>InfoSockets := InfoSockets sv @ [new]\<rparr>"
  have len: "length (InfoSockets sv) = length (InfoWifis sv)"
    and inf: "\<And>w. w \<in> set (InfoWifis sv) \<union> set (InfoWifisDeconnected sv) \<Longrightarrow> info_ok w"
    using ok by (auto simp: wifi_ok_def list_all_iff)
  have same: "find (same_cid cid sv1) [0..<length (InfoWifis sv)] = find (same_cid cid sv) [0..<length (InfoWifis sv)]"
    by (rule find_cong) (simp_all add: sv1_def len)
  have A: "Accept_cid vAccept sv s = Ok (d, Some cid, sv1, s')"
    using accepted(1) by (simp add: eq sv1_def new_def)
  show ?thesis
  proof (cases "GetReferenceOnInfoWifiDeconnectedByCID cid sv")
    case (Some i)
    then have i: "i < length (InfoWifisDeconnected sv)" "Cid (InfoWifisDeconnected sv ! i) = cid"
      using find_cid_SomeD by (auto simp: GetReferenceOnInfoWifiDeconnectedByCID_def)
    have "RecoverInfos cid sv1 = Ok (Some (coo_of (InfoWifisDeconnected sv ! i), Name (InfoWifisDeconnected sv ! i)),
        sv1\<lparr>InfoWifisDeconnected := erase i (InfoWifisDeconnected sv)\<rparr>)"
      using Some by (simp add: RecoverInfos_def RecoverInfosOfInfoWifiDeconnected_eq sv1_def
          GetReferenceOnInfoWifiDeconnectedByCID_def)
    with i A ne Some rebuilt_entry [OF inf i(2)] show ?thesis
      by (simp add: CWifiServer_Accept_def rejoin_def join_as_def SetCid_def assertion_def eq sv1_def new_def)
  next
    case None
    have R: "RecoverInfos cid sv1 = RecoverInfosOfInfoWifi cid sv1"
      using None by (simp add: RecoverInfos_def RecoverInfosOfInfoWifiDeconnected_eq sv1_def
          GetReferenceOnInfoWifiDeconnectedByCID_def)
    have le: "length (InfoWifis sv1) \<le> length (InfoSockets sv1)" "InfoWifis sv1 = InfoWifis sv"
      using len by (simp_all add: sv1_def)
    note R = R [unfolded RecoverInfosOfInfoWifi_eq [OF le(1)] le(2) same]
    show ?thesis
    proof (cases "find (same_cid cid sv) [0..<length (InfoWifis sv)]")
      case N: None
      show ?thesis
        using A ne None N R
        by (simp add: CWifiServer_Accept_def rejoin_def join_as_def SetCid_def assertion_def eq sv1_def new_def)
    next
      case (Some i)
      then have i: "i < length (InfoWifis sv)" "Cid (InfoWifis sv ! i) = cid"
        by (auto simp: find_Some_iff same_cid_def)
      show ?thesis
        using A ne None Some R i len rebuilt_entry [OF inf i(2)]
        by (simp add: CWifiServer_Accept_def rejoin_def join_as_def SetCid_def assertion_def eq sv1_def
            new_def list_update_append nth_append)
    qed
  qed
qed

end

lemma rejoin_fields [simp]:
  "descriptors (rejoin cid d sv) = descriptors sv @ [d]" "Master (rejoin cid d sv) = Master sv"
  "MaxClientDeconnected (rejoin cid d sv) = MaxClientDeconnected sv" "Port (rejoin cid d sv) = Port sv"
  "ListInfoSelfManaged (rejoin cid d sv) = ListInfoSelfManaged sv"
  by (simp_all add: rejoin_def join_as_def split: option.splits)

lemma rejoin_wifi_ok:
  assumes ok: "wifi_ok sv" and "d \<notin> set (descriptors sv)" and "0 \<le> d" and "cid = 0 \<or> TCID_GUEST_MIN \<le> cid"
  shows "wifi_ok (rejoin cid d sv)"
proof -
  have raw: "info_ok ((CInfoWifi_raw CCoordinate_new)\<lparr>Cid := cid\<rparr>)"
    using assms(4) by (simp add: info_ok_def)
  consider (d) i where "GetReferenceOnInfoWifiDeconnectedByCID cid sv = Some i" "i < length (InfoWifisDeconnected sv)"
    | (s) i where "GetReferenceOnInfoWifiDeconnectedByCID cid sv = None"
        "find (same_cid cid sv) [0..<length (InfoWifis sv)] = Some i" "i < length (InfoWifis sv)"
    | (n) "GetReferenceOnInfoWifiDeconnectedByCID cid sv = None"
        "find (same_cid cid sv) [0..<length (InfoWifis sv)] = None"
    using find_cid_SomeD
    by (cases "GetReferenceOnInfoWifiDeconnectedByCID cid sv";
        cases "find (same_cid cid sv) [0..<length (InfoWifis sv)]")
      (auto simp: GetReferenceOnInfoWifiDeconnectedByCID_def find_Some_iff)
  then show ?thesis
    by cases (use assms raw in \<open>auto simp: wifi_ok_def rejoin_def join_as_def list_all_erase\<close>,
        auto simp: list_all_iff)
qed

section \<open>Who is reached by a frame\<close>

text \<open>
  What a distribution to the clients \<open>P\<close> may do, whatever the network does: it only sends to
  enabled clients among \<open>P\<close>, it only disables clients among \<open>P\<close>, and it changes nothing else.
\<close>

definition disables :: "(TIndex \<Rightarrow> bool) \<Rightarrow> CInfoSocket list \<Rightarrow> CInfoSocket list \<Rightarrow> bool" where
  "disables P il il' \<longleftrightarrow> length il' = length il \<and>
     (\<forall>i < length il. il' ! i = il ! i \<or> P i \<and> Enable (il ! i) \<and> il' ! i = DisableIt (il ! i))"

definition targets :: "(TIndex \<Rightarrow> bool) \<Rightarrow> CInfoSocket list \<Rightarrow> TDescriptor set" where
  "targets P il = {d. \<exists>i < length il. P i \<and> Enable (il ! i) \<and> d = Descriptor (il ! i)}"

definition sends_to :: "TDescriptor set \<Rightarrow> os \<Rightarrow> os \<Rightarrow> bool" where
  "sends_to D s s' \<longleftrightarrow> rx s' = rx s \<and> open_fds s' = open_fds s \<and> pending s' = pending s \<and>
     rand_values s' = rand_values s \<and> (\<forall>d. d \<notin> D \<longrightarrow> tx s' d = tx s d) \<and>
     (\<exists>log. sent s' = sent s @ log \<and> fst ` set log \<subseteq> D)"

definition distributes :: "(TIndex \<Rightarrow> bool) \<Rightarrow> CWifiServer \<times> os \<Rightarrow> CWifiServer \<times> os \<Rightarrow> bool" where
  "distributes P st st' \<longleftrightarrow>
     (\<exists>il. fst st' = (fst st)\<lparr>InfoSockets := il\<rparr> \<and> disables P (InfoSockets (fst st)) il) \<and>
     sends_to (targets P (InfoSockets (fst st))) (snd st) (snd st')"

lemma disables_nth:
  assumes "disables P il il'" and "i < length il"
  obtains "il' ! i = il ! i" | "P i" "Enable (il ! i)" "il' ! i = DisableIt (il ! i)"
  using assms by (auto simp: disables_def)

lemma disables_length: "disables P il il' \<Longrightarrow> length il' = length il"
  by (simp add: disables_def)

lemma disables_trans:
  assumes "disables P il il1" and "disables P il1 il2"
  shows "disables P il il2"
  unfolding disables_def
proof (intro conjI allI impI)
  show "length il2 = length il" using assms by (simp add: disables_length)
  fix i assume i: "i < length il"
  then have "i < length il1" using assms(1) by (simp add: disables_length)
  with i show "il2 ! i = il ! i \<or> P i \<and> Enable (il ! i) \<and> il2 ! i = DisableIt (il ! i)"
    by (elim disables_nth [OF assms(1)] disables_nth [OF assms(2)]) auto
qed

lemma disables_targets:
  assumes "disables P il il1"
  shows "targets Q il1 \<subseteq> targets Q il"
proof
  fix d assume "d \<in> targets Q il1"
  then obtain i where i: "i < length il" "Q i" "Enable (il1 ! i)" "d = Descriptor (il1 ! i)"
    using assms by (auto simp: targets_def disables_length)
  from assms i(1) have "il1 ! i = il ! i"
    by (rule disables_nth) (use i(3) in auto)
  with i show "d \<in> targets Q il" by (auto simp: targets_def)
qed

lemma disables_Descriptor:
  assumes "disables P il il'"
  shows "map Descriptor il' = map Descriptor il"
proof (rule nth_equalityI)
  fix i assume "i < length (map Descriptor il')"
  then have i: "i < length il" using assms by (simp add: disables_length)
  have "Descriptor (il' ! i) = Descriptor (il ! i)"
    using disables_nth [OF assms i] by (metis DisableIt_fields(1))
  with i show "map Descriptor il' ! i = map Descriptor il ! i"
    by (simp add: disables_length [OF assms])
qed (simp add: disables_length [OF assms])

lemma sends_to_refl [simp]: "sends_to D s s"
  by (simp add: sends_to_def)

lemma sends_to_mono:
  assumes "sends_to D s s'" and "D \<subseteq> E"
  shows "sends_to E s s'"
proof -
  obtain l where "sent s' = sent s @ l" "fst ` set l \<subseteq> D"
    using assms(1) unfolding sends_to_def by (elim conjE exE)
  then have "\<exists>log. sent s' = sent s @ log \<and> fst ` set log \<subseteq> E"
    using assms(2) by (intro exI [of _ l]) (simp add: order_trans)
  moreover have "\<forall>d. d \<notin> E \<longrightarrow> tx s' d = tx s d"
    using assms unfolding sends_to_def by blast
  ultimately show ?thesis
    using assms(1) by (simp add: sends_to_def)
qed

lemma sends_to_trans:
  assumes "sends_to D s s1" and "sends_to D s1 s2"
  shows "sends_to D s s2"
proof -
  obtain l1 l2 where "sent s1 = sent s @ l1" "fst ` set l1 \<subseteq> D" "sent s2 = sent s1 @ l2" "fst ` set l2 \<subseteq> D"
    using assms unfolding sends_to_def by (elim conjE exE)
  then have "\<exists>log. sent s2 = sent s @ log \<and> fst ` set log \<subseteq> D"
    by (intro exI [of _ "l1 @ l2"]) (simp add: image_Un)
  then show ?thesis
    using assms by (simp add: sends_to_def)
qed

lemma targets_mono: "(\<And>i. P i \<Longrightarrow> Q i) \<Longrightarrow> targets P il \<subseteq> targets Q il"
  by (auto simp: targets_def)

lemma distributes_refl [simp]: "distributes P st st"
  by (auto simp: distributes_def disables_def intro!: exI [of _ "InfoSockets (fst st)"])

lemma distributes_mono:
  assumes "distributes P st st'" and "\<And>i. P i \<Longrightarrow> Q i"
  shows "distributes Q st st'"
proof -
  obtain il where il: "fst st' = (fst st)\<lparr>InfoSockets := il\<rparr>" "disables P (InfoSockets (fst st)) il"
    using assms(1) by (auto simp: distributes_def)
  have "disables Q (InfoSockets (fst st)) il"
    using il(2) assms(2) by (auto simp: disables_def)
  moreover have "sends_to (targets Q (InfoSockets (fst st))) (snd st) (snd st')"
    by (rule sends_to_mono [OF _ targets_mono [of P Q, OF assms(2)]])
      (use assms(1) in \<open>simp_all add: distributes_def\<close>)
  ultimately show ?thesis
    using il(1) by (auto simp: distributes_def)
qed

lemma distributes_trans:
  assumes "distributes P st st1" and "distributes P st1 st2"
  shows "distributes P st st2"
proof -
  obtain il where il: "fst st1 = (fst st)\<lparr>InfoSockets := il\<rparr>" "disables P (InfoSockets (fst st)) il"
    using assms(1) by (auto simp: distributes_def)
  obtain il' where il': "fst st2 = (fst st1)\<lparr>InfoSockets := il'\<rparr>" "disables P (InfoSockets (fst st1)) il'"
    using assms(2) by (auto simp: distributes_def)
  have "sends_to (targets P il) (snd st1) (snd st2)"
    using assms(2) il(1) by (simp add: distributes_def)
  then have "sends_to (targets P (InfoSockets (fst st))) (snd st1) (snd st2)"
    using disables_targets [OF il(2)] by (rule sends_to_mono)
  moreover have "sends_to (targets P (InfoSockets (fst st))) (snd st) (snd st1)"
    using assms(1) by (simp add: distributes_def)
  ultimately have "sends_to (targets P (InfoSockets (fst st))) (snd st) (snd st2)"
    by (rule sends_to_trans [rotated])
  moreover have "disables P (InfoSockets (fst st)) il'"
    using il il' by (intro disables_trans [OF il(2)]) simp
  ultimately show ?thesis
    using il il' by (auto simp: distributes_def)
qed

lemma run_events_distributes:
  assumes "run_events op js st = Inr st'"
    and "\<And>i st st'. op i st = Inr st' \<Longrightarrow> distributes (\<lambda>j. j = i \<and> P j) st st'"
  shows "distributes (\<lambda>j. j \<in> set js \<and> P j) st st'"
  using assms(1)
proof (induction js arbitrary: st)
  case Nil
  then show ?case by simp
next
  case (Cons i js)
  then obtain st1 where st1: "op i st = Inr st1" "run_events op js st1 = Inr st'"
    by (auto simp: rbind_Inr_iff)
  show ?case
    by (rule distributes_trans [of _ _ st1])
      (rule distributes_mono [OF assms(2) [OF st1(1)]], simp,
       rule distributes_mono [OF Cons.IH [OF st1(2)]], simp)
qed

lemma SendSignal_sends_to:
  assumes "SendSignalWithSocket d pw data s = (r, s')"
  shows "sends_to {d} s s'"
proof -
  obtain v t where t: "Send d (put_word pw) s = (v, t)" by (cases "Send d (put_word pw) s")
  obtain w u where u: "Send d data t = (w, u)" by (cases "Send d data t")
  have one: "sends_to {d} a b" if "Send d xs a = (k, b)" for xs a b k
    using Send_frame [OF that] that by (cases rule: Send_cases [OF that]) (auto simp: sends_to_def)
  show ?thesis
    using assms t u one [OF t] one [OF u] sends_to_trans
    by (auto simp: SendSignalWithSocket_def split: if_splits)
qed

lemma send_or_disable_distributes:
  assumes "send_or_disable i pw data st = Inr st'" and "Enable (InfoSockets (fst st) ! i)"
  shows "distributes (\<lambda>j. j = i) st st'"
proof -
  obtain sv s where st: "st = (sv, s)" by (cases st)
  have i: "i < length (InfoSockets sv)"
    using assms(1) st by (auto simp: send_or_disable_def rbind_Inr_iff nth_r_Inr_iff)
  obtain r s' where r: "SendSignalWithSocket (Descriptor (InfoSockets sv ! i)) pw data s = (r, s')"
    by (cases "SendSignalWithSocket (Descriptor (InfoSockets sv ! i)) pw data s")
  have "targets (\<lambda>j. j = i) (InfoSockets sv) = {Descriptor (InfoSockets sv ! i)}"
    using i assms(2) st by (auto simp: targets_def)
  with SendSignal_sends_to [OF r] have s': "sends_to (targets (\<lambda>j. j = i) (InfoSockets sv)) s s'"
    by simp
  have "disables (\<lambda>j. j = i) (InfoSockets sv) (InfoSockets sv)"
    "disables (\<lambda>j. j = i) (InfoSockets sv) ((InfoSockets sv)[i := DisableIt (InfoSockets sv ! i)])"
    using assms(2) st i by (simp_all add: disables_def nth_list_update)
  then show ?thesis
    using assms(1) st i r s'
    by (auto simp: send_or_disable_def distributes_def split: if_splits intro: exI [of _ "InfoSockets sv"])
qed

lemma send_if_enabled_distributes:
  "send_if_enabled pw data i st = Inr st' \<Longrightarrow> distributes (\<lambda>j. j = i \<and> True) st st'"
  by (cases st) (auto simp: send_if_enabled_def rbind_Inr_iff IsEnable_def nth_r_Inr_iff
      split: if_splits intro: send_or_disable_distributes)

lemma packet_lost_sends_to: "packet_lost g l s = (b, s') \<Longrightarrow> sends_to {} s s' \<and> tx s' = tx s \<and> sent s' = sent s"
  by (auto simp: packet_lost_def os_rand_def sends_to_def split: if_splits)

lemma SendAllOtherClients_step_distributes:
  assumes "SendAllOtherClients_step parse g index coo pw data i st = Inr st'"
  shows "distributes (\<lambda>j. j = i \<and> j \<noteq> index) st st'"
proof -
  obtain sv s where st: "st = (sv, s)" by (cases st)
  consider "st' = st" | l where "i \<noteq> index" "i < length (InfoSockets sv)" "Enable (InfoSockets sv ! i)"
      "(if fst (packet_lost g l s) then Ok (sv, snd (packet_lost g l s))
        else send_or_disable i l data (sv, snd (packet_lost g l s))) = Inr st'"
    using assms unfolding st
    by (fastforce simp: SendAllOtherClients_step_def rbind_Inr_iff IsEnable_def nth_r_Inr_iff GetNumberClient_def
        case_prod_beta Let_def split: if_splits)
  then show ?thesis
  proof cases
    case 2
    define b t where "b = fst (packet_lost g l s)" and "t = snd (packet_lost g l s)"
    have 2: "i \<noteq> index" "i < length (InfoSockets sv)" "Enable (InfoSockets sv ! i)" "packet_lost g l s = (b, t)"
      "(if b then Ok (sv, t) else send_or_disable i l data (sv, t)) = Inr st'"
      using 2 by (auto simp: b_def t_def split: if_splits)
    have t: "distributes (\<lambda>j. j = i \<and> j \<noteq> index) st (sv, t)"
      using packet_lost_sends_to [OF 2(4)] sends_to_mono [of "{}"] st
      by (auto simp: distributes_def disables_def intro!: exI [of _ "InfoSockets sv"])
    have "distributes (\<lambda>j. j = i) (sv, t) st'"
      using 2(3,5) by (cases b) (auto intro: send_or_disable_distributes)
    then have "distributes (\<lambda>j. j = i \<and> j \<noteq> index) (sv, t) st'"
      by (rule distributes_mono) (use 2(1) in simp)
    with t show ?thesis by (rule distributes_trans)
  qed simp
qed

lemma SendAllOtherClients_distributes:
  assumes "SendAllOtherClients parse g index pw data sv s = Inr st'"
  shows "distributes (\<lambda>j. j \<noteq> index) (sv, s) st'"
proof -
  obtain coo where "run_events (SendAllOtherClients_step parse g index coo pw data)
      [0..<GetNumberClient sv] (sv, s) = Inr st'"
    using assms by (auto simp: SendAllOtherClients_def rbind_Inr_iff)
  then have "distributes (\<lambda>j. j \<in> set [0..<GetNumberClient sv] \<and> j \<noteq> index) (sv, s) st'"
    by (rule run_events_distributes) (rule SendAllOtherClients_step_distributes)
  then show ?thesis
    by (rule distributes_mono) simp
qed

lemma SendAllOtherClientsWithoutLoss_distributes:
  assumes "SendAllOtherClientsWithoutLoss index pw data sv s = Inr st'"
  shows "distributes (\<lambda>j. j \<noteq> index) (sv, s) st'"
proof -
  have "distributes (\<lambda>j. j = i \<and> j \<noteq> index) st1 st2"
    if "(if i \<noteq> index then send_if_enabled pw data i st1 else Ok st1) = Inr st2" for i st1 st2
    using that by (auto split: if_splits intro!: distributes_mono [OF send_if_enabled_distributes])
  from run_events_distributes [OF assms [unfolded SendAllOtherClientsWithoutLoss_def] this] show ?thesis
    by (rule distributes_mono) simp_all
qed

lemma SendAllClientsWithoutLoss_distributes:
  assumes "SendAllClientsWithoutLoss pw data sv s = Inr st'"
  shows "distributes (\<lambda>j. True) (sv, s) st'"
  using run_events_distributes [OF assms [unfolded SendAllClientsWithoutLoss_def] send_if_enabled_distributes]
  by (rule distributes_mono) simp_all

lemma distributes_wifi_ok:
  assumes "distributes P (sv, s) (sv', s')"
  shows "wifi_ok sv' = wifi_ok sv" "descriptors sv' = descriptors sv" "InfoWifis sv' = InfoWifis sv"
    "InfoWifisDeconnected sv' = InfoWifisDeconnected sv" "Master sv' = Master sv" "open_fds s' = open_fds s"
    "MaxClientDeconnected sv' = MaxClientDeconnected sv" "Port sv' = Port sv"
    "length (InfoSockets sv') = length (InfoSockets sv)" "ListInfoSelfManaged sv' = ListInfoSelfManaged sv"
proof -
  obtain il where il: "sv' = sv\<lparr>InfoSockets := il\<rparr>" "disables P (InfoSockets sv) il"
    using assms by (auto simp: distributes_def)
  note d = disables_Descriptor [OF il(2)] disables_length [OF il(2)]
  show "wifi_ok sv' = wifi_ok sv" "descriptors sv' = descriptors sv" "InfoWifis sv' = InfoWifis sv"
    "InfoWifisDeconnected sv' = InfoWifisDeconnected sv" "Master sv' = Master sv"
    "MaxClientDeconnected sv' = MaxClientDeconnected sv" "Port sv' = Port sv"
    "length (InfoSockets sv') = length (InfoSockets sv)" "ListInfoSelfManaged sv' = ListInfoSelfManaged sv"
    using il(1) d by (simp_all add: wifi_ok_def)
  show "open_fds s' = open_fds s"
    using assms by (simp add: distributes_def sends_to_def)
qed

section \<open>Distribution stops for no client\<close>

lemma send_or_disable_total:
  "i < length (InfoSockets (fst st)) \<Longrightarrow> \<exists>st'. send_or_disable i pw data st = Inr st'"
  by (cases st) (simp add: send_or_disable_def split: prod.splits)

lemma send_if_enabled_total:
  "i < length (InfoSockets (fst st)) \<Longrightarrow> \<exists>st'. send_if_enabled pw data i st = Inr st'"
  using send_or_disable_total by (cases st) (simp add: send_if_enabled_def)

lemma send_run_total:
  assumes op: "\<And>i st. i < length (InfoSockets (fst st)) \<Longrightarrow> InfoWifis (fst st) = W \<Longrightarrow> \<exists>st'. op i st = Inr st'"
    and dist: "\<And>i st st'. op i st = Inr st' \<Longrightarrow> distributes P st st'"
    and n: "n = length (InfoSockets sv)" and W: "W = InfoWifis sv"
  shows "\<exists>st'. run_events op [0..<n] (sv, s) = Inr st'"
proof -
  have "\<exists>st'. run_events op [0..<n] (sv, s) = Inr st' \<and>
      (length (InfoSockets (fst st')) = n \<and> InfoWifis (fst st') = W)"
  proof (rule run_events_total)
    fix i and st :: "CWifiServer \<times> os"
    assume i: "i \<in> set [0..<n]" and st: "length (InfoSockets (fst st)) = n \<and> InfoWifis (fst st) = W"
    obtain st' where st': "op i st = Inr st'" using op [of i st] i st by auto
    have "distributes P (fst st, snd st) (fst st', snd st')" using dist [OF st'] by simp
    from distributes_wifi_ok(3,9) [OF this] st' st
    show "\<exists>s'. op i st = Inr s' \<and> (length (InfoSockets (fst s')) = n \<and> InfoWifis (fst s') = W)" by auto
  qed (use n W in simp)
  then show ?thesis by blast
qed

lemma SendAllClientsWithoutLoss_total: "\<exists>st'. SendAllClientsWithoutLoss pw data sv s = Inr st'"
  unfolding SendAllClientsWithoutLoss_def
  by (rule send_run_total [OF send_if_enabled_total _ _ refl, where P = "\<lambda>j. True"])
    (auto simp: GetNumberClient_def intro!: distributes_mono [OF send_if_enabled_distributes])

lemma SendAllOtherClientsWithoutLoss_total: "\<exists>st'. SendAllOtherClientsWithoutLoss index pw data sv s = Inr st'"
  unfolding SendAllOtherClientsWithoutLoss_def
  by (rule send_run_total [OF _ _ _ refl, where P = "\<lambda>j. True"])
    (use send_if_enabled_total in \<open>force simp: GetNumberClient_def\<close>,
     auto simp: GetNumberClient_def intro!: distributes_mono [OF send_if_enabled_distributes] split: if_splits)

text \<open>With attenuation there are conditions: the message parses, and the positions are not too far.\<close>

lemma SendAllOtherClients_total:
  assumes len: "length (InfoSockets sv) = length (InfoWifis sv)" and i: "index < length (InfoWifis sv)"
    and f: "GetFrequency parse data = Ok f" "f \<noteq> 0" and sc: "good_scale (double_of_bits (Scale g))"
    and near: "\<And>j. j < length (InfoWifis sv) \<Longrightarrow> dist2 (InfoWifis sv ! index) (InfoWifis sv ! j) < 2 ^ 31"
  shows "\<exists>st'. SendAllOtherClients parse g index pw data sv s = Inr st'"
proof -
  let ?coo = "coo_of (InfoWifis sv ! index)"
  have step: "\<exists>st'. SendAllOtherClients_step parse g index ?coo pw data j st = Inr st'"
    if j: "j < length (InfoSockets (fst st))" and W: "InfoWifis (fst st) = InfoWifis sv"
      and jn: "j < length (InfoWifis sv)" for j st
  proof -
    obtain t u where st: "st = (t, u)" by (cases st)
    have "dist2 ?coo (InfoWifis sv ! j) < 2 ^ 31"
      using near [OF jn] by (simp add: dist2_def)
    from signal_level_Ok [OF sc this f(2), of pw] obtain l where
      l: "signal_level (double_of_bits (Scale g)) ?coo (InfoWifis sv ! j) f pw = Ok l" by blast
    obtain b v where b: "packet_lost g l u = (b, v)" by (cases "packet_lost g l u")
    show ?thesis
      using j W jn f(1) l b send_or_disable_total [of j "(t, v)"]
      by (cases b) (auto simp: SendAllOtherClients_step_def st)
  qed
  have "\<exists>st'. run_events (\<lambda>j st. if j < length (InfoWifis sv)
      then SendAllOtherClients_step parse g index ?coo pw data j st else Ok st)
      [0..<GetNumberClient sv] (sv, s) = Inr st'"
    by (rule send_run_total [OF _ _ _ refl, where P = "\<lambda>j. True"])
      (use step in force,
       auto simp: GetNumberClient_def split: if_splits
        intro!: distributes_mono [OF SendAllOtherClients_step_distributes])
  then show ?thesis
    using i len run_events_guard [of "[0..<length (InfoWifis sv)]" "\<lambda>j. j < length (InfoWifis sv)"
        "SendAllOtherClients_step parse g index ?coo pw data"]
    by (simp add: SendAllOtherClients_def GetNumberClient_def)
qed

section \<open>What one client receives\<close>

definition heard :: "TDescriptor \<Rightarrow> os \<Rightarrow> byte list list" where
  "heard d s = map snd (filter (\<lambda>e. fst e = d) (sent s))"

lemma sends_to_heard: "sends_to D s s' \<Longrightarrow> d \<notin> D \<Longrightarrow> heard d s' = heard d s"
  by (force simp: sends_to_def heard_def filter_empty_conv)

abbreviation fd :: "'a CSocketServer_scheme \<Rightarrow> TIndex \<Rightarrow> TDescriptor" where
  "fd sv j \<equiv> Descriptor (InfoSockets sv ! j)"

lemma distributes_others:
  assumes dst: "distributes P (sv, s) (sv', s')" and "distinct (descriptors sv)" and j: "j < length (InfoSockets sv)"
    and "\<not> P j"
  shows "InfoSockets sv' ! j = InfoSockets sv ! j" "tx s' (fd sv j) = tx s (fd sv j)"
    "heard (fd sv j) s' = heard (fd sv j) s"
proof -
  obtain il where il: "sv' = sv\<lparr>InfoSockets := il\<rparr>" "disables P (InfoSockets sv) il"
    and sd: "sends_to (targets P (InfoSockets sv)) s s'"
    using dst by (auto simp: distributes_def)
  show "InfoSockets sv' ! j = InfoSockets sv ! j"
    using il(1) disables_nth [OF il(2) j] assms(4) by (metis CSocketServer.select_convs(3) CSocketServer.update_convs(3) CSocketServer.surjective)
  have "fd sv j \<notin> targets P (InfoSockets sv)"
    using assms(2,4) j by (auto simp: targets_def distinct_conv_nth)
  with sd show "tx s' (fd sv j) = tx s (fd sv j)" "heard (fd sv j) s' = heard (fd sv j) s"
    by (auto simp: sends_to_def intro: sends_to_heard [OF sd])
qed

text \<open>
  A distribution can be looked at from one client: the others do not change what it has received
  or how its socket behaves, before or after its turn.
\<close>

lemma distribution_at:
  assumes run: "run_events op [0..<n] (sv, s) = Inr (sv', s')"
    and dist: "\<And>i st st'. op i st = Inr st' \<Longrightarrow> distributes (\<lambda>k. k = i) st st'"
    and j: "j < n" "j < length (InfoSockets sv)" and d: "distinct (descriptors sv)"
  obtains sv1 s1 sv2 s2 where "op j (sv1, s1) = Inr (sv2, s2)"
    "InfoSockets sv1 ! j = InfoSockets sv ! j" "length (InfoSockets sv1) = length (InfoSockets sv)"
    "InfoWifis sv1 = InfoWifis sv"
    "tx s1 (fd sv j) = tx s (fd sv j)" "heard (fd sv j) s1 = heard (fd sv j) s"
    "InfoSockets sv' ! j = InfoSockets sv2 ! j" "heard (fd sv j) s' = heard (fd sv j) s2"
proof -
  have "[0..<n] = [0..<j] @ j # [Suc j..<n]"
    using j(1) by (metis less_imp_le_nat upt_add_eq_append upt_conv_Cons le_add_diff_inverse zero_le)
  with run obtain sv1 s1 sv2 s2 where a: "run_events op [0..<j] (sv, s) = Inr (sv1, s1)"
    and b: "op j (sv1, s1) = Inr (sv2, s2)" and c: "run_events op [Suc j..<n] (sv2, s2) = Inr (sv', s')"
    by (auto simp: run_events_append rbind_Inr_iff)
  have dist': "op i st = Inr st' \<Longrightarrow> distributes (\<lambda>k. k = i \<and> True) st st'" for i st st'
    using dist by simp
  have da: "distributes (\<lambda>k. k \<noteq> j) (sv, s) (sv1, s1)"
    by (rule distributes_mono [OF run_events_distributes [OF a dist']]) auto
  have dc: "distributes (\<lambda>k. k \<noteq> j) (sv2, s2) (sv', s')"
    by (rule distributes_mono [OF run_events_distributes [OF c dist']]) auto
  have j1: "j < length (InfoSockets sv1)" "distinct (descriptors sv1)"
    using distributes_wifi_ok [OF da] j(2) d by auto
  have j2: "j < length (InfoSockets sv2)" "descriptors sv2 = descriptors sv1"
    using distributes_wifi_ok [OF dist [OF b]] j1 by simp_all
  have fd2: "fd sv2 j = fd sv j"
    using arg_cong [OF j2(2), of "\<lambda>l. l ! j"] j1 j2(1) distributes_others(1) [OF da d j(2)] by simp
  show thesis
    by (rule that [OF b])
      (use distributes_others [OF da d j(2)] distributes_wifi_ok(3,9) [OF da] j2 j1
         distributes_others [OF dc _ j2(1)] fd2 in simp_all)
qed

lemma send_healthy:
  assumes "j < length (InfoSockets sv)" and "tx s (fd sv j) = []"
    and "send_or_disable j pw data (sv, s) = Inr (sv', s')"
  shows "sv' = sv" "heard (fd sv j) s' = heard (fd sv j) s @ [put_word pw, data]"
proof -
  have "healthy s (fd sv j)" using assms(2) by (simp add: healthy_def)
  with assms show "sv' = sv" "heard (fd sv j) s' = heard (fd sv j) s @ [put_word pw, data]"
    by (auto simp: send_or_disable_def SendSignal_healthy heard_def)
qed

lemma send_broken:
  assumes "j < length (InfoSockets sv)" and "tx s (fd sv j) = None # q"
    and "send_or_disable j pw data (sv, s) = Inr (sv', s')"
  shows "\<not> Enable (InfoSockets sv' ! j)" "heard (fd sv j) s' = heard (fd sv j) s"
  using assms
  by (auto simp: send_or_disable_def SendSignalWithSocket_def Send_def os_send_def heard_def SOCKET_ERROR_def
      length_put_word)

text \<open>The three cases for a receiver: reached, out of range, broken.\<close>

lemma SendAllOtherClients_at:
  assumes ok: "wifi_ok sv" and run: "SendAllOtherClients parse g index pw data sv s = Inr (sv', s')"
    and j: "j < length (InfoSockets sv)" "j \<noteq> index" "Enable (InfoSockets sv ! j)"
  obtains f l sv1 s1 where "GetFrequency parse data = Ok f"
    "signal_level (double_of_bits (Scale g)) (coo_of (InfoWifis sv ! index)) (InfoWifis sv ! j) f pw = Ok l"
    "tx s1 (fd sv j) = tx s (fd sv j)" "heard (fd sv j) s1 = heard (fd sv j) s"
    "InfoSockets sv1 ! j = InfoSockets sv ! j" "j < length (InfoSockets sv1)"
    "(if fst (packet_lost g l s1) then InfoSockets sv' ! j = InfoSockets sv ! j \<and> heard (fd sv j) s' = heard (fd sv j) s
      else \<exists>sv2 s2. send_or_disable j l data (sv1, snd (packet_lost g l s1)) = Inr (sv2, s2) \<and>
        InfoSockets sv' ! j = InfoSockets sv2 ! j \<and> heard (fd sv j) s' = heard (fd sv j) s2)"
proof -
  have len: "length (InfoSockets sv) = length (InfoWifis sv)" and d: "distinct (descriptors sv)"
    using ok by (simp_all add: wifi_ok_def)
  have idx: "index < length (InfoWifis sv)"
    using run by (auto simp: SendAllOtherClients_def rbind_Inr_iff nth_r_Inr_iff)
  define coo where "coo = coo_of (InfoWifis sv ! index)"
  have run': "run_events (SendAllOtherClients_step parse g index coo pw data)
      [0..<length (InfoSockets sv)] (sv, s) = Inr (sv', s')"
    using run idx by (simp add: SendAllOtherClients_def GetNumberClient_def coo_def)
  have dist: "distributes (\<lambda>k. k = i) st st'"
    if "SendAllOtherClients_step parse g index coo pw data i st = Inr st'" for i st st'
    using SendAllOtherClients_step_distributes [OF that] by (rule distributes_mono) simp
  from run' dist j(1,1) d obtain sv1 s1 sv2 s2 where
    st: "SendAllOtherClients_step parse g index coo pw data j (sv1, s1) = Inr (sv2, s2)"
      "InfoSockets sv1 ! j = InfoSockets sv ! j" "length (InfoSockets sv1) = length (InfoSockets sv)"
      "InfoWifis sv1 = InfoWifis sv" "tx s1 (fd sv j) = tx s (fd sv j)"
      "heard (fd sv j) s1 = heard (fd sv j) s" "InfoSockets sv' ! j = InfoSockets sv2 ! j"
      "heard (fd sv j) s' = heard (fd sv j) s2"
    by (rule distribution_at)
  obtain f l where fl: "GetFrequency parse data = Ok f"
    "signal_level (double_of_bits (Scale g)) coo (InfoWifis sv ! j) f pw = Ok l"
    and last: "(if fst (packet_lost g l s1) then Ok (sv1, snd (packet_lost g l s1))
        else send_or_disable j l data (sv1, snd (packet_lost g l s1))) = Inr (sv2, s2)"
    using st(1-4) j len
    by (fastforce simp: SendAllOtherClients_step_def rbind_Inr_iff case_prod_beta Let_def split: if_splits)
  have same: "heard d (snd (packet_lost g l s1)) = heard d s1" for d
    by (simp add: packet_lost_def os_rand_def heard_def)
  show thesis
    by (rule that [OF fl [unfolded coo_def] st(5,6,2)])
      (use st last same j in \<open>auto split: if_splits\<close>)
qed

end
