(* ===== verification/Vwifi_Select.thy ===== *)
theory Vwifi_Select
  imports Vwifi_Prelude
begin

text \<open>
  The descriptor set that the server waits on (\<^verbatim>\<open>src/src/cselect.cc\<close>). An \<^verbatim>\<open>fd_set\<close> is a set
  of descriptors below \<^verbatim>\<open>FD_SETSIZE\<close>; \<^verbatim>\<open>FD_SET\<close> and \<^verbatim>\<open>FD_CLR\<close> outside that range write
  outside the object and are undefined. What \<^verbatim>\<open>pselect\<close> reports is an argument of
  \<^verbatim>\<open>Wait\<close>.

  The interface \<open>watch_set\<close> says what adding and deleting a node mean for the set of watched
  descriptors; the server relies on it, and \<^verbatim>\<open>CSelect\<close> is shown to provide it.
\<close>

section \<open>Class CSelect\<close>

definition FD_SETSIZE :: int where "FD_SETSIZE = 1024"

definition FD_SET :: "TDescriptor \<Rightarrow> int set \<Rightarrow> int set result" where
  "FD_SET d S = (if 0 \<le> d \<and> d < FD_SETSIZE then Ok (insert d S) else Fault Undefined_behaviour)"

definition FD_CLR :: "TDescriptor \<Rightarrow> int set \<Rightarrow> int set result" where
  "FD_CLR d S = (if 0 \<le> d \<and> d < FD_SETSIZE then Ok (S - {d}) else Fault Undefined_behaviour)"

record CSelect =
  FdMaster :: "int set"
  FdDup :: "int set"
  MaxDescriptor :: TDescriptor
  ListNodes :: "TDescriptor list"

definition CSelect_new :: CSelect where
  "CSelect_new = \<lparr>FdMaster = {}, FdDup = {}, MaxDescriptor = -1, ListNodes = []\<rparr>"

definition max_descriptor :: "TDescriptor \<Rightarrow> TDescriptor \<Rightarrow> TDescriptor" where
  "max_descriptor descriptor m = (if descriptor > m then descriptor else m)"

definition UpdateMaxDescriptor :: "TDescriptor \<Rightarrow> CSelect \<Rightarrow> CSelect" where
  "UpdateMaxDescriptor descriptor s =
     s\<lparr>MaxDescriptor := max_descriptor descriptor (MaxDescriptor s)\<rparr>"

definition AddNode :: "TDescriptor \<Rightarrow> CSelect \<Rightarrow> CSelect result" where
  "AddNode descriptor s =
     rbind (FD_SET descriptor (FdMaster s)) (\<lambda>m.
     Ok (UpdateMaxDescriptor descriptor
           (s\<lparr>ListNodes := ListNodes s @ [descriptor], FdMaster := m\<rparr>)))"

text \<open>
  \<^verbatim>\<open>DelNode\<close>: the scan keeps the nodes already passed and the maximum so far; at the node to
  delete it goes on through the rest for the maximum, erases the node and returns.
\<close>

fun DelNode_scan ::
  "TDescriptor \<Rightarrow> TDescriptor list \<Rightarrow> TDescriptor list \<Rightarrow> CSelect \<Rightarrow> CSelect result" where
  "DelNode_scan descriptor passed [] s = Ok s"
| "DelNode_scan descriptor passed (node # nodes) s =
     (if node = descriptor then
        rbind (FD_CLR descriptor (FdMaster s)) (\<lambda>m.
        Ok ((fold UpdateMaxDescriptor nodes (s\<lparr>FdMaster := m\<rparr>))\<lparr>ListNodes := passed @ nodes\<rparr>))
      else DelNode_scan descriptor (passed @ [node]) nodes (UpdateMaxDescriptor node s))"

definition DelNode :: "TDescriptor \<Rightarrow> CSelect \<Rightarrow> CSelect result" where
  "DelNode descriptor s = DelNode_scan descriptor [] (ListNodes s) (s\<lparr>MaxDescriptor := -1\<rparr>)"

text \<open>
  What one call of \<^verbatim>\<open>pselect\<close> did: its return value, whether it set \<^verbatim>\<open>errno\<close> to
  \<^verbatim>\<open>EINTR\<close>, and which descriptors are ready. On failure it leaves the set as it was; on
  success the set keeps the ready descriptors among those below \<^verbatim>\<open>MaxDescriptor + 1\<close>.
\<close>

record pselect_outcome =
  activity :: int
  errno_EINTR :: bool
  ready :: "int set"

definition Wait :: "pselect_outcome \<Rightarrow> CSelect \<Rightarrow> int \<times> CSelect" where
  "Wait ev s =
     (let s = s\<lparr>FdDup := FdMaster s\<rparr>;
          s = (if activity ev < 0 then s
               else s\<lparr>FdDup := {d \<in> FdDup s. d < MaxDescriptor s + 1 \<and> d \<in> ready ev}\<rparr>)
      in if activity ev < 0 \<and> \<not> errno_EINTR ev then (SCHEDULER_ERROR, s)
         else (activity ev, s))"

definition DescriptorHasAction :: "TDescriptor \<Rightarrow> CSelect \<Rightarrow> bool" where
  "DescriptorHasAction descriptor s \<longleftrightarrow> descriptor \<in> FdDup s"

definition NodeHasAction :: "TIndex \<Rightarrow> CSelect \<Rightarrow> bool result" where
  "NodeHasAction index s =
     rbind (assertion (index < length (ListNodes s))) (\<lambda>_.
     Ok (ListNodes s ! index \<in> FdDup s))"

section \<open>The interface: a set of watched descriptors\<close>

fun del_nodes :: "(TDescriptor \<Rightarrow> 's \<Rightarrow> 's result) \<Rightarrow> TDescriptor list \<Rightarrow> 's \<Rightarrow> 's result" where
  "del_nodes del [] s = Ok s"
| "del_nodes del (d # ds) s = rbind (del d s) (del_nodes del ds)"

locale watch_set =
  fixes add :: "TDescriptor \<Rightarrow> 's \<Rightarrow> 's result"
    and del :: "TDescriptor \<Rightarrow> 's \<Rightarrow> 's result"
    and watched :: "'s \<Rightarrow> TDescriptor set"
    and ok :: "'s \<Rightarrow> bool"
  assumes add_ok: "ok s \<Longrightarrow> d \<notin> watched s \<Longrightarrow> 0 \<le> d \<Longrightarrow> d < FD_SETSIZE \<Longrightarrow>
      \<exists>s'. add d s = Ok s' \<and> ok s' \<and> watched s' = insert d (watched s)"
    and add_outside: "\<not> (0 \<le> d \<and> d < FD_SETSIZE) \<Longrightarrow> add d s = Fault Undefined_behaviour"
    and del_ok: "ok s \<Longrightarrow> \<exists>s'. del d s = Ok s' \<and> ok s' \<and> watched s' = watched s - {d}"
begin

lemma add_keeps:
  assumes "ok s" and "d \<notin> watched s" and "add d s = Inr s'"
  shows "ok s'" "watched s' = insert d (watched s)" "0 \<le> d" "d < FD_SETSIZE"
proof -
  show r: "0 \<le> d" "d < FD_SETSIZE"
    using assms(3) add_outside [of d s] by (metis sum.distinct(1))+
  show "ok s'" "watched s' = insert d (watched s)"
    using add_ok [OF assms(1,2) r] assms(3) by auto
qed

lemma del_keeps:
  assumes "ok s" and "del d s = Inr s'"
  shows "ok s'" "watched s' = watched s - {d}"
  using del_ok [OF assms(1), of d] assms(2) by auto

lemma del_nodes_ok:
  "ok s \<Longrightarrow> \<exists>s'. del_nodes del ds s = Ok s' \<and> ok s' \<and> watched s' = watched s - set ds"
proof (induction ds arbitrary: s)
  case Nil
  then show ?case by simp
next
  case (Cons d ds)
  obtain t where t: "del d s = Ok t" "ok t" "watched t = watched s - {d}"
    using del_ok [OF Cons.prems] by blast
  obtain u where "del_nodes del ds t = Ok u" "ok u" "watched u = watched t - set ds"
    using Cons.IH [OF t(2)] by blast
  with t show ?case by auto
qed

lemma add_then_del:
  assumes "ok s" and "d \<notin> watched s" and "0 \<le> d" and "d < FD_SETSIZE"
  shows "\<exists>s'. rbind (add d s) (del d) = Ok s' \<and> ok s' \<and> watched s' = watched s"
proof -
  obtain t where t: "add d s = Ok t" "ok t" "watched t = insert d (watched s)"
    using add_ok [OF assms] by blast
  obtain u where "del d t = Ok u" "ok u" "watched u = watched t - {d}"
    using del_ok [OF t(2)] by blast
  with t assms(2) show ?thesis by auto
qed

end

section \<open>CSelect provides it\<close>

text \<open>The list of nodes, the \<^verbatim>\<open>fd_set\<close> and the highest descriptor agree.\<close>

definition select_ok :: "CSelect \<Rightarrow> bool" where
  "select_ok s \<longleftrightarrow> distinct (ListNodes s) \<and> FdMaster s = set (ListNodes s) \<and>
     (\<forall>d \<in> set (ListNodes s). 0 \<le> d \<and> d < FD_SETSIZE) \<and>
     MaxDescriptor s = Max (insert (-1) (set (ListNodes s)))"

lemma UpdateMaxDescriptor_fields [simp]:
  "FdMaster (UpdateMaxDescriptor d s) = FdMaster s" "FdDup (UpdateMaxDescriptor d s) = FdDup s"
  "ListNodes (UpdateMaxDescriptor d s) = ListNodes s"
  "MaxDescriptor (UpdateMaxDescriptor d s) = max d (MaxDescriptor s)"
  by (simp_all add: UpdateMaxDescriptor_def max_descriptor_def max_def)

lemma fold_UpdateMax_fields [simp]:
  "FdMaster (fold UpdateMaxDescriptor ds s) = FdMaster s"
  "FdDup (fold UpdateMaxDescriptor ds s) = FdDup s"
  "ListNodes (fold UpdateMaxDescriptor ds s) = ListNodes s"
  by (induction ds arbitrary: s) simp_all

lemma fold_UpdateMax_max [simp]:
  "MaxDescriptor (fold UpdateMaxDescriptor ds s) = Max (insert (MaxDescriptor s) (set ds))"
proof (induction ds arbitrary: s)
  case Nil
  then show ?case by simp
next
  case (Cons d ds)
  have "Max (insert (max d (MaxDescriptor s)) (set ds)) =
      Max (insert (MaxDescriptor s) (insert d (set ds)))"
    by (cases "set ds = {}") (simp_all add: max.commute max.left_commute max.assoc)
  with Cons show ?case by simp
qed

lemma DelNode_scan_absent:
  "d \<notin> set nodes \<Longrightarrow> DelNode_scan d passed nodes s = Ok (fold UpdateMaxDescriptor nodes s)"
  by (induction d passed nodes s rule: DelNode_scan.induct) auto

lemma DelNode_scan_found:
  assumes "d \<notin> set xs" and "0 \<le> d" and "d < FD_SETSIZE"
  shows "DelNode_scan d passed (xs @ d # ys) s =
    Ok ((fold UpdateMaxDescriptor ys
           ((fold UpdateMaxDescriptor xs s)\<lparr>FdMaster := FdMaster s - {d}\<rparr>))\<lparr>ListNodes := passed @ xs @ ys\<rparr>)"
  using assms(1)
  by (induction xs arbitrary: passed s) (simp_all add: assms FD_CLR_def)

lemma select_ok_new: "select_ok CSelect_new"
  by (simp add: select_ok_def CSelect_new_def)

lemma AddNode_ok:
  assumes "select_ok s" and "d \<notin> set (ListNodes s)" and "0 \<le> d" and "d < FD_SETSIZE"
  shows "\<exists>s'. AddNode d s = Ok s' \<and> select_ok s' \<and> set (ListNodes s') = insert d (set (ListNodes s))"
proof -
  have "Max (insert (- 1) (insert d (set (ListNodes s)))) = max d (Max (insert (- 1) (set (ListNodes s))))"
    by (simp add: insert_commute)
  with assms show ?thesis
    by (simp add: AddNode_def FD_SET_def select_ok_def)
qed

lemma DelNode_ok:
  assumes "select_ok s"
  shows "\<exists>s'. DelNode d s = Ok s' \<and> select_ok s' \<and> set (ListNodes s') = set (ListNodes s) - {d}"
proof (cases "d \<in> set (ListNodes s)")
  case False
  with assms show ?thesis
    by (simp add: DelNode_def DelNode_scan_absent select_ok_def)
next
  case True
  then obtain xs ys where nodes: "ListNodes s = xs @ d # ys"
    by (auto simp: in_set_conv_decomp)
  then have d: "d \<notin> set xs" "d \<notin> set ys" "0 \<le> d" "d < FD_SETSIZE"
    using assms by (auto simp: select_ok_def)
  have "Max (insert (Max (insert (- 1) (set xs))) (set ys)) = Max (insert (- 1) (set xs \<union> set ys))"
    by (cases "set ys = {}") (simp_all add: Max_Un max.assoc flip: insert_is_Un Un_insert_left)
  with assms d nodes show ?thesis
    by (auto simp: DelNode_def DelNode_scan_found select_ok_def)
qed

interpretation sel: watch_set AddNode DelNode "\<lambda>s. set (ListNodes s)" select_ok
proof
  show "AddNode d s = Fault Undefined_behaviour" if "\<not> (0 \<le> d \<and> d < FD_SETSIZE)" for d s
    using that by (auto simp: AddNode_def FD_SET_def)
qed (blast intro: AddNode_ok DelNode_ok)+

lemma DelNode_dup [simp]: "DelNode d s = Inr s' \<Longrightarrow> FdDup s' = FdDup s"
proof -
  have "DelNode_scan d p ns t = Inr s' \<Longrightarrow> FdDup s' = FdDup t" for p ns t
    by (induction d p ns t rule: DelNode_scan.induct)
      (auto simp: rbind_Inr_iff split: if_splits)
  then show "DelNode d s = Inr s' \<Longrightarrow> FdDup s' = FdDup s"
    unfolding DelNode_def by fastforce
qed

lemma Wait_fields [simp]:
  "select_ok (snd (Wait ev s)) = select_ok s" "ListNodes (snd (Wait ev s)) = ListNodes s"
  by (simp_all add: Wait_def Let_def select_ok_def)

lemma Wait_ready:
  assumes "select_ok s" and "0 \<le> activity ev"
  shows "FdDup (snd (Wait ev s)) = set (ListNodes s) \<inter> ready ev"
proof -
  have "d < MaxDescriptor s + 1" if "d \<in> set (ListNodes s)" for d
    using assms(1) that Max_ge [of "insert (-1) (set (ListNodes s))" d]
    by (simp add: select_ok_def)
  then show ?thesis
    using assms by (auto simp: Wait_def Let_def select_ok_def)
qed

section \<open>Properties\<close>

text \<open>
  C31: \<^verbatim>\<open>CSelect\<close> is a set of descriptors: adding a new one below \<^verbatim>\<open>FD_SETSIZE\<close> and deleting
  any one never fail, keep the node list, the \<^verbatim>\<open>fd_set\<close> and the highest descriptor in agreement,
  and change the watched set by that descriptor alone; a descriptor from \<^verbatim>\<open>FD_SETSIZE\<close> on is
  undefined behaviour.
\<close>

theorem scheduler_is_a_set:
  assumes "select_ok s"
  shows "(d \<notin> set (ListNodes s) \<and> 0 \<le> d \<and> d < FD_SETSIZE \<longrightarrow>
      (\<exists>s'. AddNode d s = Ok s' \<and> select_ok s' \<and> set (ListNodes s') = insert d (set (ListNodes s)))) \<and>
    (\<exists>s'. DelNode d s = Ok s' \<and> select_ok s' \<and> set (ListNodes s') = set (ListNodes s) - {d}) \<and>
    (FD_SETSIZE \<le> d \<longrightarrow> AddNode d s = Fault Undefined_behaviour)"
  using sel.add_ok [OF assms, of d] sel.del_ok [OF assms, of d] sel.add_outside [of d s] by auto

theorem scheduler_is_a_set_witness:
  "select_ok CSelect_new \<and>
   (\<exists>s'. AddNode 3 CSelect_new = Ok s' \<and> select_ok s' \<and> set (ListNodes s') = {3}) \<and>
   (\<exists>s'. DelNode 3 CSelect_new = Ok s' \<and> select_ok s' \<and> set (ListNodes s') = {}) \<and>
   AddNode 1024 CSelect_new = Fault Undefined_behaviour"
proof -
  have n: "set (ListNodes CSelect_new) = {}" by (simp add: CSelect_new_def)
  show ?thesis
    using scheduler_is_a_set [OF select_ok_new, of 3] scheduler_is_a_set [OF select_ok_new, of 1024]
    by (auto simp: select_ok_new n FD_SETSIZE_def simp del: set_empty)
qed

text \<open>
  C32: after a successful wait exactly the watched descriptors that the system reported are marked
  as having an action, and no watched descriptor is left out of the range given to \<^verbatim>\<open>pselect\<close>; the
  watched set itself is unchanged.
\<close>

theorem wait_marks_ready:
  assumes "select_ok s" and "0 \<le> activity ev"
  shows "(DescriptorHasAction d (snd (Wait ev s)) \<longleftrightarrow> d \<in> set (ListNodes s) \<and> d \<in> ready ev) \<and>
    fst (Wait ev s) = activity ev \<and> ListNodes (snd (Wait ev s)) = ListNodes s"
  using Wait_ready [OF assms] assms(2) by (auto simp: DescriptorHasAction_def Wait_def Let_def)

theorem wait_marks_ready_witness:
  "\<exists>s. AddNode 3 CSelect_new = Ok s \<and> select_ok s \<and>
     (let r = Wait \<lparr>activity = 1, errno_EINTR = False, ready = {3, 9}\<rparr> s in
      fst r = 1 \<and> DescriptorHasAction 3 (snd r) \<and> \<not> DescriptorHasAction 9 (snd r))"
proof -
  obtain s where s: "AddNode 3 CSelect_new = Ok s" "select_ok s" "set (ListNodes s) = {3}"
    using AddNode_ok [OF select_ok_new, of 3] by (auto simp: FD_SETSIZE_def CSelect_new_def)
  have "0 \<le> activity \<lparr>activity = 1, errno_EINTR = False, ready = {3, 9}\<rparr>" by simp
  from wait_marks_ready [OF s(2) this] s show ?thesis
    by (intro exI [of _ s]) (simp add: Let_def)
qed

text \<open>
  An interrupted wait is reported like a failed one: \<^verbatim>\<open>pselect\<close> returns -1 in both cases and
  -1 is \<^verbatim>\<open>SCHEDULER_ERROR\<close>, so the test of \<^verbatim>\<open>EINTR\<close> has no effect on the result.
\<close>

theorem interrupted_wait_is_error:
  "fst (Wait \<lparr>activity = -1, errno_EINTR = e, ready = R\<rparr> s) = SCHEDULER_ERROR"
  by (simp add: Wait_def SCHEDULER_ERROR_def Let_def)


end
