(* ===== verification/Vwifi_CtrlServer.thy ===== *)
theory Vwifi_CtrlServer
  imports Vwifi_WifiServer Vwifi_Select
begin

text \<open>
  The objects of the process \<^verbatim>\<open>vwifi-server\<close> and its control port
  (\<^verbatim>\<open>src/src/cctrlserver.cc\<close>). A control connection carries one order; the server answers it
  and closes the connection.

  The lists of clients are shared by the VSOCK and the TCP server objects: they are the lists of
  \<open>wifiServerITCP\<close>, and \<open>vtcp_view\<close> and \<open>vtcp_put\<close> give the VSOCK object access to them.

  A variable that a short read leaves partly uninitialised and that is used afterwards is
  undefined behaviour. The rounding of a computed distance to a stored \<^verbatim>\<open>double\<close> is the
  argument \<open>fpu\<close>.
\<close>

section \<open>The objects of the process\<close>

record server =
  wifiServerVTCP :: CWifiServer
  wifiServerITCP :: CWifiServer
  wifiServerSPY :: CWifiServer
  ctrlServer :: CSocketServer
  Scheduler :: CSelect
  RxBuffer :: CDynBuffer
  Globals :: globals

definition vtcp_view :: "server \<Rightarrow> CWifiServer" where
  "vtcp_view v = (wifiServerVTCP v)\<lparr>InfoSockets := InfoSockets (wifiServerITCP v),
     InfoWifis := InfoWifis (wifiServerITCP v),
     InfoWifisDeconnected := InfoWifisDeconnected (wifiServerITCP v)\<rparr>"

definition vtcp_put :: "CWifiServer \<Rightarrow> server \<Rightarrow> server" where
  "vtcp_put sv v = v\<lparr>wifiServerVTCP := sv,
     wifiServerITCP := (wifiServerITCP v)\<lparr>InfoSockets := InfoSockets sv, InfoWifis := InfoWifis sv,
       InfoWifisDeconnected := InfoWifisDeconnected sv\<rparr>\<rparr>"

section \<open>Class CCTRLServer\<close>

definition CCTRL_Read :: "nat \<Rightarrow> server \<Rightarrow> os \<Rightarrow> (int \<times> byte list \<times> os) result" where
  "CCTRL_Read n v s = rbind (GetSocketClient 0 (ctrlServer v)) (\<lambda>d. Ok (Read d n s))"

definition CCTRL_Send :: "byte list \<Rightarrow> server \<Rightarrow> os \<Rightarrow> (int \<times> os) result" where
  "CCTRL_Send data v s = rbind (GetSocketClient 0 (ctrlServer v)) (\<lambda>d. Ok (Send d data s))"

text \<open>
  Reading a whole variable of \<open>n\<close> bytes: \<open>None\<close> when the call fails, otherwise the bytes that
  arrived, possibly fewer than \<open>n\<close>.
\<close>

definition read_var :: "nat \<Rightarrow> server \<Rightarrow> os \<Rightarrow> (byte list option \<times> os) result" where
  "read_var n v s =
     rbind (CCTRL_Read n v s) (\<lambda>(r, data, s).
     Ok (if r = SOCKET_ERROR then (None, s) else (Some data, s)))"

text \<open>The value of a variable that was uninitialised before the read.\<close>

definition whole :: "nat \<Rightarrow> byte list \<Rightarrow> byte list result" where
  "whole n data = rbind (defined (length data = n)) (\<lambda>_. Ok data)"

definition order_of :: "32 word \<Rightarrow> TOrder option" where
  "order_of w = find (\<lambda>r. order_code r = w)
     [TORDER_NO, TORDER_LIST, TORDER_SHOW, TORDER_CHANGE_COORDINATE, TORDER_SETNAME, TORDER_PACKET_LOSS,
      TORDER_STATUS, TORDER_DISTANCE_BETWEEN_CID, TORDER_SET_SCALE, TORDER_CLOSE_ALL_CLIENT]"

text \<open>\<open>None\<close> is a number that is none of the enumeration: the \<^verbatim>\<open>switch\<close> has no case for it.\<close>

definition GetOrder :: "server \<Rightarrow> os \<Rightarrow> (TOrder option \<times> os) result" where
  "GetOrder v s =
     (if GetNumberClient (ctrlServer v) \<noteq> 1 then Ok (Some TORDER_NO, s)
      else rbind (read_var 4 v s) (\<lambda>(data, s).
        case data of None \<Rightarrow> Ok (Some TORDER_NO, s)
        | Some data \<Rightarrow> rbind (whole 4 data) (\<lambda>data. Ok (order_of (get_word data), s))))"

text \<open>The name is copied to an array of \<open>MAX_SIZE_NAME + 1\<close> bytes up to its first zero byte.\<close>

definition SendCInfoWifi :: "CInfoWifi \<Rightarrow> server \<Rightarrow> os \<Rightarrow> (bool \<times> os) result" where
  "SendCInfoWifi infoWifi v s =
     rbind (CCTRL_Send (put_word (Cid infoWifi)) v s) (\<lambda>(r, s).
     if r = SOCKET_ERROR then Ok (False, s)
     else rbind (CCTRL_Send (put_coo infoWifi) v s) (\<lambda>(r, s).
       if r = SOCKET_ERROR then Ok (False, s)
       else let sizeName = GetSizeName infoWifi in
         rbind (CCTRL_Send (put_word (word_of_nat sizeName :: 32 word)) v s) (\<lambda>(r, s).
         if r = SOCKET_ERROR then Ok (False, s)
         else if sizeName > 0 then
           rbind (defined (sizeName \<le> MAX_SIZE_NAME \<and> CHR 0x00 \<notin> set (Name infoWifi))) (\<lambda>_.
           rbind (CCTRL_Send (Name infoWifi @ [CHR 0x00]) v s) (\<lambda>(r, s).
           if r = SOCKET_ERROR then Ok (False, s) else Ok (True, s)))
         else Ok (True, s))))"

text \<open>
  One of the two loops of \<^verbatim>\<open>SendList\<close>, from index \<open>i\<close> on: only the enabled clients are sent.
  The result says whether the caller goes on.
\<close>

fun SendList_loop :: "CWifiServer \<Rightarrow> TIndex list \<Rightarrow> server \<Rightarrow> os \<Rightarrow> (bool \<times> os) result" where
  "SendList_loop sv [] v s = Ok (True, s)"
| "SendList_loop sv (i # is) v s =
     rbind (IsEnable i sv) (\<lambda>enable.
     if enable then
       rbind (GetReferenceOnInfoWifiByIndex i sv) (\<lambda>infoWifi.
       rbind (SendCInfoWifi infoWifi v s) (\<lambda>(ok, s).
       if \<not> ok then Ok (False, s) else SendList_loop sv is v s))
     else SendList_loop sv is v s)"

definition SendList_of :: "CWifiServer \<Rightarrow> server \<Rightarrow> os \<Rightarrow> (bool \<times> os) result" where
  "SendList_of sv v s =
     (let number = GetNumberClient sv in
      rbind (CCTRL_Send (put_word (word_of_nat number :: 32 word)) v s) (\<lambda>(r, s).
      if r = SOCKET_ERROR then Ok (False, s) else SendList_loop sv [0..<number] v s))"

definition SendList :: "server \<Rightarrow> os \<Rightarrow> os result" where
  "SendList v s =
     rbind (SendList_of (wifiServerSPY v) v s) (\<lambda>(ok, s).
     if \<not> ok then Ok s
     else rbind (SendList_of (wifiServerITCP v) v s) (\<lambda>(ok, s). Ok s))"

text \<open>\<^verbatim>\<open>coo\<close> starts at zero: a short read overlays its first bytes.\<close>

definition overlay :: "byte list \<Rightarrow> byte list \<Rightarrow> byte list" where
  "overlay new old = new @ drop (length new) old"

definition set_coo_at :: "CCoordinate \<Rightarrow> TIndex \<Rightarrow> CInfoWifi list \<Rightarrow> CInfoWifi list" where
  "set_coo_at coo i ws = ws[i := SetCoo coo (ws ! i)]"

definition move_client :: "TCID \<Rightarrow> CCoordinate \<Rightarrow> CWifiServer \<Rightarrow> CWifiServer result" where
  "move_client cid coo sv =
     (case GetReferenceOnInfoWifiByCID cid sv of
        Some i \<Rightarrow> Ok (sv\<lparr>InfoWifis := set_coo_at coo i (InfoWifis sv)\<rparr>)
      | None \<Rightarrow>
          (case GetReferenceOnInfoWifiDeconnectedByCID cid sv of
             Some i \<Rightarrow> Ok (sv\<lparr>InfoWifisDeconnected := set_coo_at coo i (InfoWifisDeconnected sv)\<rparr>)
           | None \<Rightarrow> rbind (CInfoWifi_of cid coo) (\<lambda>infoNewWifi. AddInfoWifiDeconnected infoNewWifi sv)))"

definition ChangeCoordinate :: "server \<Rightarrow> os \<Rightarrow> (server \<times> os) result" where
  "ChangeCoordinate v s =
     rbind (read_var 4 v s) (\<lambda>(cid, s).
     case cid of None \<Rightarrow> Ok (v, s)
     | Some cid \<Rightarrow>
       rbind (read_var 12 v s) (\<lambda>(coo, s).
       case coo of None \<Rightarrow> Ok (v, s)
       | Some coo \<Rightarrow>
         rbind (whole 4 cid) (\<lambda>cid.
         let cid = get_word cid :: TCID; coo = get_coo (overlay coo (put_coo CCoordinate_new)) in
         if cid < TCID_GUEST_MIN then Ok (v, s)
         else rbind (move_client cid coo (wifiServerITCP v)) (\<lambda>sv.
           Ok (v\<lparr>wifiServerITCP := sv\<rparr>, s)))))"

definition set_name_at :: "string \<Rightarrow> TIndex \<Rightarrow> CInfoWifi list \<Rightarrow> CInfoWifi list" where
  "set_name_at name i ws = ws[i := Vwifi_Infos.SetName name (ws ! i)]"

definition name_client :: "TCID \<Rightarrow> string \<Rightarrow> server \<Rightarrow> server" where
  "name_client cid name v =
     (let sv = wifiServerITCP v; spy = wifiServerSPY v in
      case GetReferenceOnInfoWifiByCID cid sv of
        Some i \<Rightarrow> v\<lparr>wifiServerITCP := sv\<lparr>InfoWifis := set_name_at name i (InfoWifis sv)\<rparr>\<rparr>
      | None \<Rightarrow>
          (case GetReferenceOnInfoWifiDeconnectedByCID cid sv of
             Some i \<Rightarrow> v\<lparr>wifiServerITCP := sv\<lparr>InfoWifisDeconnected := set_name_at name i (InfoWifisDeconnected sv)\<rparr>\<rparr>
           | None \<Rightarrow>
               (case GetReferenceOnInfoWifiByCID cid spy of
                  Some i \<Rightarrow> v\<lparr>wifiServerSPY := spy\<lparr>InfoWifis := set_name_at name i (InfoWifis spy)\<rparr>\<rparr>
                | None \<Rightarrow> v)))"

definition CCTRL_SetName :: "server \<Rightarrow> os \<Rightarrow> (server \<times> os) result" where
  "CCTRL_SetName v s =
     rbind (read_var 4 v s) (\<lambda>(cid, s).
     case cid of None \<Rightarrow> Ok (v, s)
     | Some cid \<Rightarrow>
       rbind (read_var 4 v s) (\<lambda>(sizeName, s).
       case sizeName of None \<Rightarrow> Ok (v, s)
       | Some _ \<Rightarrow>
         rbind (read_var (MAX_SIZE_NAME + 1) v s) (\<lambda>(strName, s).
         case strName of None \<Rightarrow> Ok (v, s)
         | Some strName \<Rightarrow>
           rbind (whole 4 cid) (\<lambda>cid.
           let cid = get_word cid :: TCID in
           if cid < TCID_GUEST_MIN then Ok (v, s)
           else rbind (cstring strName) (\<lambda>name. Ok (name_client cid name v, s))))))"

definition ChangePacketLoss :: "server \<Rightarrow> os \<Rightarrow> (server \<times> os) result" where
  "ChangePacketLoss v s =
     rbind (read_var 4 v s) (\<lambda>(data, s).
     case data of None \<Rightarrow> Ok (v, s)
     | Some data \<Rightarrow> rbind (whole 4 data) (\<lambda>data.
         Ok (v\<lparr>Globals := (Globals v)\<lparr>CanLostPackets := (get_word data :: 32 word) \<noteq> 0\<rparr>\<rparr>, s)))"

text \<open>A sequence of \<^verbatim>\<open>if( Send(...) == SOCKET_ERROR ) return;\<close>.\<close>

fun send_all :: "byte list list \<Rightarrow> server \<Rightarrow> os \<Rightarrow> os result" where
  "send_all [] v s = Ok s"
| "send_all (data # rest) v s =
     rbind (CCTRL_Send data v s) (\<lambda>(r, s). if r = SOCKET_ERROR then Ok s else send_all rest v s)"

definition SendStatus :: "server \<Rightarrow> os \<Rightarrow> os result" where
  "SendStatus v s =
     send_all [put_bool (CanLostPackets (Globals v)), put_word (Scale (Globals v)),
       put_word (Port (wifiServerVTCP v)), put_word (Port (wifiServerITCP v)),
       put_word (word_of_nat (MaxClientDeconnected (wifiServerITCP v)) :: 32 word),
       put_bool (GetNumberClient (wifiServerSPY v) > 0)] v s"

definition SendShow :: "server \<Rightarrow> os \<Rightarrow> os result" where
  "SendShow v s =
     send_all [put_bool (CanLostPackets (Globals v)), put_word (Scale (Globals v)),
       put_bool (GetNumberClient (wifiServerSPY v) > 0)] v s"

definition coordinate_of :: "TCID \<Rightarrow> CWifiServer \<Rightarrow> CCoordinate option" where
  "coordinate_of cid sv =
     (case GetReferenceOnInfoWifiByCID cid sv of
        Some i \<Rightarrow> Some (coo_of (InfoWifis sv ! i))
      | None \<Rightarrow> map_option (\<lambda>i. coo_of (InfoWifisDeconnected sv ! i)) (GetReferenceOnInfoWifiDeconnectedByCID cid sv))"

definition SendDistance :: "(double \<Rightarrow> 64 word) \<Rightarrow> server \<Rightarrow> os \<Rightarrow> os result" where
  "SendDistance fpu v s =
     rbind (read_var 4 v s) (\<lambda>(cid1, s).
     case cid1 of None \<Rightarrow> Ok s
     | Some cid1 \<Rightarrow>
       rbind (read_var 4 v s) (\<lambda>(cid2, s).
       case cid2 of None \<Rightarrow> Ok s
       | Some cid2 \<Rightarrow>
         rbind (whole 4 cid1) (\<lambda>cid1.
         case coordinate_of (get_word cid1) (wifiServerITCP v) of
           None \<Rightarrow> send_all [put_word (-1 :: 32 word)] v s
         | Some coo1 \<Rightarrow>
           rbind (whole 4 cid2) (\<lambda>cid2.
           case coordinate_of (get_word cid2) (wifiServerITCP v) of
             None \<Rightarrow> send_all [put_word (-2 :: 32 word)] v s
           | Some coo2 \<Rightarrow>
               rbind (CCTRL_Send (put_word (0 :: 32 word)) v s) (\<lambda>(r, s).
               if r = SOCKET_ERROR then Ok s
               else rbind (DistanceWith (double_of_bits (Scale (Globals v))) coo1 coo2) (\<lambda>distance.
                 send_all [put_word (fpu distance)] v s))))))"

definition SetScale :: "server \<Rightarrow> os \<Rightarrow> (server \<times> os) result" where
  "SetScale v s =
     rbind (read_var 8 v s) (\<lambda>(data, s).
     case data of None \<Rightarrow> Ok (v, s)
     | Some data \<Rightarrow> rbind (whole 8 data) (\<lambda>data.
         Ok (v\<lparr>Globals := (Globals v)\<lparr>Scale := get_word data\<rparr>\<rparr>, s)))"

definition del_clients :: "CWifiServer \<Rightarrow> CSelect \<Rightarrow> CSelect result" where
  "del_clients sv sched =
     run_events (\<lambda>i sched. rbind (GetSocketClient i sv) (\<lambda>d. DelNode d sched)) [0..<GetNumberClient sv] sched"

definition CCTRL_CloseAllClient :: "server \<Rightarrow> os \<Rightarrow> (server \<times> os) result" where
  "CCTRL_CloseAllClient v s =
     rbind (del_clients (wifiServerITCP v) (Scheduler v)) (\<lambda>sched.
     rbind (CloseAllClient (wifiServerITCP v) s) (\<lambda>(itcp, s).
     rbind (del_clients (wifiServerSPY v) sched) (\<lambda>sched.
     rbind (CloseAllClient (wifiServerSPY v) s) (\<lambda>(spy, s).
     Ok (v\<lparr>Scheduler := sched, wifiServerITCP := itcp, wifiServerSPY := spy\<rparr>, s)))))"

definition execute_order :: "(double \<Rightarrow> 64 word) \<Rightarrow> TOrder option \<Rightarrow> server \<Rightarrow> os \<Rightarrow> (server \<times> os) result" where
  "execute_order fpu order v s =
     (case order of
        None \<Rightarrow> Ok (v, s)
      | Some TORDER_NO \<Rightarrow> Ok (v, s)
      | Some TORDER_LIST \<Rightarrow> rbind (SendList v s) (\<lambda>s. Ok (v, s))
      | Some TORDER_CHANGE_COORDINATE \<Rightarrow> ChangeCoordinate v s
      | Some TORDER_SETNAME \<Rightarrow> CCTRL_SetName v s
      | Some TORDER_PACKET_LOSS \<Rightarrow> ChangePacketLoss v s
      | Some TORDER_STATUS \<Rightarrow> rbind (SendStatus v s) (\<lambda>s. Ok (v, s))
      | Some TORDER_SHOW \<Rightarrow> rbind (SendShow v s) (\<lambda>s. Ok (v, s))
      | Some TORDER_DISTANCE_BETWEEN_CID \<Rightarrow> rbind (SendDistance fpu v s) (\<lambda>s. Ok (v, s))
      | Some TORDER_SET_SCALE \<Rightarrow> SetScale v s
      | Some TORDER_CLOSE_ALL_CLIENT \<Rightarrow> CCTRL_CloseAllClient v s)"

definition ReceiveOrder :: "(double \<Rightarrow> 64 word) \<Rightarrow> server \<Rightarrow> os \<Rightarrow> (server \<times> os) result" where
  "ReceiveOrder fpu v s =
     rbind (Accept (Accept_ITCP (HashUsesPort (Globals v))) (ctrlServer v) s) (\<lambda>(d, ctrl, s).
     let v = v\<lparr>ctrlServer := ctrl\<rparr> in
     if d = SOCKET_ERROR then Ok (v, s)
     else rbind (GetOrder v s) (\<lambda>(order, s).
       rbind (execute_order fpu order v s) (\<lambda>(v, s).
       rbind (CSocketServer_CloseClient 0 (ctrlServer v) s) (\<lambda>(ctrl, s).
       Ok (v\<lparr>ctrlServer := ctrl\<rparr>, s)))))"

text \<open>The destructor closes every client of the other servers, then the control port.\<close>

definition CCTRLServer_destroy :: "server \<Rightarrow> os \<Rightarrow> (server \<times> os) result" where
  "CCTRLServer_destroy v s =
     rbind (CCTRL_CloseAllClient v s) (\<lambda>(v, s).
     rbind (CSocketServer_destroy (ctrlServer v) s) (\<lambda>s. Ok (v, s)))"

end
