(* ===== verification/Vwifi_Ctrl.thy ===== *)
theory Vwifi_Ctrl
  imports Vwifi_Client Vwifi_CtrlServer
begin

text \<open>
  The program \<^verbatim>\<open>vwifi-ctrl\<close> (\<^verbatim>\<open>src/src/vwifi-ctrl.cc\<close>): it connects to the control port of the
  server, sends one order and prints the answer.

  A function of the program is a session on a socket: an action that may return early with an exit
  code (\<^const>\<open>Inl\<close>), and that may stop the program (\<open>Fault\<close>). A whole order is \<^const>\<open>None\<close> when the
  loop that connects never returns. What is written to \<^verbatim>\<open>cout\<close> is recorded, a floating-point number
  as its bits; what is written to \<^verbatim>\<open>cerr\<close> is not. The rounding of a decimal number to a \<^verbatim>\<open>double\<close> is
  the argument \<open>fpu\<close>, and the version of the program, which the build defines, the argument \<open>version\<close>.
\<close>

section \<open>Sessions\<close>

datatype item = Text string | Real "64 word"

record session =
  Sock :: CSocketClientITCP
  Net :: os
  Stdout :: "item list"

type_synonym 'a act = "session \<Rightarrow> ((int + 'a) \<times> session) result"

definition act_return :: "'a \<Rightarrow> 'a act" where
  "act_return x s = Ok (Inr x, s)"

definition act_exit :: "int \<Rightarrow> 'a act" where
  "act_exit n s = Ok (Inl n, s)"

definition abind :: "'a act \<Rightarrow> ('a \<Rightarrow> 'b act) \<Rightarrow> 'b act" where
  "abind m f s = rbind (m s) (\<lambda>(r, s). case r of Inl n \<Rightarrow> Ok (Inl n, s) | Inr x \<Rightarrow> f x s)"

definition act_lift :: "'a result \<Rightarrow> 'a act" where
  "act_lift m s = rbind m (\<lambda>x. Ok (Inr x, s))"

definition act_print :: "item list \<Rightarrow> unit act" where
  "act_print items s = Ok (Inr (), s\<lparr>Stdout := Stdout s @ items\<rparr>)"

text \<open>\<^verbatim>\<open>err=socket.Send(...); if( err == SOCKET_ERROR ) return 1;\<close> and the same for \<^verbatim>\<open>Read\<close>.\<close>

definition act_send :: "byte list \<Rightarrow> unit act" where
  "act_send data s =
     (let (err, net) = CSocketClient_Send data (Sock s) (Net s)
      in Ok (if err = SOCKET_ERROR then Inl 1 else Inr (), s\<lparr>Net := net\<rparr>))"

definition act_read :: "nat \<Rightarrow> byte list act" where
  "act_read n s =
     (let (err, data, net) = CSocketClient_Read n (Sock s) (Net s)
      in Ok (if err = SOCKET_ERROR then Inl 1 else Inr data, s\<lparr>Net := net\<rparr>))"

definition act_close :: "unit act" where
  "act_close s = (let (sk, net) = CSocket_Close (Sock s) (Net s) in Ok (Inr (), s\<lparr>Sock := sk, Net := net\<rparr>))"

text \<open>The value of a variable that was uninitialised before it was read; a \<^verbatim>\<open>bool\<close> must hold 0 or 1.\<close>

definition read_new :: "nat \<Rightarrow> byte list act" where
  "read_new n = abind (act_read n) (\<lambda>data. act_lift (whole n data))"

definition read_bool :: "bool act" where
  "read_bool = abind (read_new 1) (\<lambda>data. act_lift (rbind (defined (data \<in> {put_bool False, put_bool True})) (\<lambda>_.
     Ok (get_bool data))))"

definition act_line :: "string \<Rightarrow> unit act" where
  "act_line str = act_print [Text (str @ [CHR 0x0A])]"

definition act_line_real :: "string \<Rightarrow> 64 word \<Rightarrow> unit act" where
  "act_line_real str x = act_print [Text str, Real x, Text [CHR 0x0A]]"

text \<open>A call whose exit code the caller looks at: the code and the value left in its variable.\<close>

definition returned :: "'a \<Rightarrow> 'a act \<Rightarrow> (int \<times> 'a) act" where
  "returned x m s = rbind (m s) (\<lambda>(r, s). Ok (Inr (case r of Inl n \<Rightarrow> (n, x) | Inr y \<Rightarrow> (0, y)), s))"

section \<open>The configuration\<close>

record config =
  IP_Ctrl :: string
  Port_of_Ctrl :: TPort


definition config_new :: config where
  "config_new = \<lparr>IP_Ctrl = DEFAULT_ADDRESS_IP, Port_of_Ctrl = DEFAULT_CTRL_PORT\<rparr>"

definition tabs :: "nat \<Rightarrow> string" where "tabs n = replicate n (CHR 0x09)"

definition Help_lines :: "config \<Rightarrow> string \<Rightarrow> string list" where
  "Help_lines cfg NameOfProg =
    [NameOfProg @ '' [order]'',
     '' with [order] :'',
     tabs 1 @ ''ls'',
     tabs 2 @ ''- List the Clients'',
     tabs 1 @ ''set CID X Y Z'',
     tabs 2 @ ''- Change the coordinate of the Client with CID'',
     tabs 1 @ ''setname CID NAME'',
     tabs 2 @ ''- Set the NAME of the Client with CID'',
     tabs 1 @ ''loss yes/no'',
     tabs 2 @ ''- loss yes : packets can be lost'',
     tabs 2 @ ''- loss no : no packets can be lost'',
     tabs 1 @ ''show'',
     tabs 2 @ ''- Display the status of loss and list of Clients'',
     tabs 1 @ ''status'',
     tabs 2 @ ''- Display the status of the configuration of vwifi-server'',
     tabs 1 @ ''distance CID1 CID2'',
     tabs 2 @ ''- Display the distance in meters between the Client with CID1 and the Client with CID2'',
     tabs 1 @ ''scale VALUE'',
     tabs 2 @ ''- Set the scale of the distances between the clients to VALUE'',
     tabs 2 @ ''- VALUE can be a decimal number'',
     tabs 1 @ ''close'',
     tabs 2 @ ''- Close all the connections with Wifi Clients'',
     [],
     '' [-p PORT] or [--port PORT] : Set the port used by the vwifi-server (by default PORT='' @
       show_nat (unat (Port_of_Ctrl cfg)) @ '')'',
     '' [-i IP] or [--ip IP] : Set the IP used by the vwifi-server (by default IP='' @ IP_Ctrl cfg @ '')'',
     '' [-v] or [--version] : Display the version of '' @ NameOfProg,
     '' [-h] or [--help] : this help'']"

definition Help :: "config \<Rightarrow> string \<Rightarrow> item list" where
  "Help cfg NameOfProg = map (\<lambda>l. Text (l @ [CHR 0x0A])) (Help_lines cfg NameOfProg)"

section \<open>Running a session\<close>

type_synonym order_result = "(int \<times> item list \<times> os) result option"

definition return_code :: "int \<Rightarrow> item list \<Rightarrow> os \<Rightarrow> order_result" where
  "return_code n out net = Some (Ok (n, out, net))"

text \<open>
  \<^verbatim>\<open>CSocketClientITCP socket; socket.Init(IP_Ctrl.c_str(),Port_Ctrl); if( ! socket.ConnectLoop() ) return 1;\<close>,
  the body, and the destructor that runs at every return.
\<close>

definition with_socket :: "config \<Rightarrow> unit act \<Rightarrow> item list \<Rightarrow> os \<Rightarrow> order_result" where
  "with_socket cfg body out net =
     (let sk = Init_ITCP (IP_Ctrl cfg) (Port_of_Ctrl cfg) CSocketClientITCP_new in
      case ConnectLoop Connect_ITCP sk net of
        None \<Rightarrow> None
      | Some (ok, sk, net) \<Rightarrow>
          if \<not> ok then return_code 1 out (CSocketClient_destroy sk net)
          else Some (rbind (body \<lparr>Sock = sk, Net = net, Stdout = out\<rparr>) (\<lambda>(r, s).
            Ok (case r of Inl n \<Rightarrow> n | Inr _ \<Rightarrow> 0, Stdout s, CSocketClient_destroy (Sock s) (Net s)))))"

section \<open>The orders\<close>

definition GetCInfoWifi :: "CInfoWifi \<Rightarrow> CInfoWifi act" where
  "GetCInfoWifi infoWifi =
     abind (read_new 4) (\<lambda>cid.
     abind (act_read 12) (\<lambda>coo.
     abind (read_new 4) (\<lambda>sizeName.
     let cid = get_word cid :: TCID; coo = get_coo (overlay coo (put_coo CCoordinate_new));
         sizeName = sint (get_word sizeName :: 32 word)
     in if sizeName > int MAX_SIZE_NAME then act_exit 1
        else abind (if sizeName > 0 then act_read (nat sizeName + 1) else act_return [CHR 0x00]) (\<lambda>strName.
          act_lift (
            rbind (SetCid cid infoWifi) (\<lambda>infoWifi.
            rbind (cstring strName) (\<lambda>name.
            Ok (Vwifi_Infos.SetName name (SetCoo coo infoWifi)))))))))"

definition show_spy :: "CInfoWifi \<Rightarrow> string" where
  "show_spy info = ''S:'' @ show_nat (unat (Cid info)) @ (if HasName info then '' ('' @ Name info @ '')'' else [])"

text \<open>\<^verbatim>\<open>GetCInfoWifi\<close> returns 0 or 1 and its caller compares with -1, so it goes on after a failure.\<close>

primrec AskList_loop :: "(CInfoWifi \<Rightarrow> string) \<Rightarrow> nat \<Rightarrow> CInfoWifi \<Rightarrow> CInfoWifi act" where
  "AskList_loop show 0 info = act_return info"
| "AskList_loop show (Suc n) info =
     abind (returned info (GetCInfoWifi info)) (\<lambda>(err, info).
     if err = SOCKET_ERROR then act_exit 1
     else abind (act_line (show info)) (\<lambda>_. AskList_loop show n info))"

definition AskList_body :: "unit act" where
  "AskList_body =
     abind (act_send (put_order TORDER_LIST)) (\<lambda>_.
     abind (read_new 4) (\<lambda>number.
     abind (act_lift CInfoWifi_default) (\<lambda>info.
     abind (AskList_loop show_spy (unat (get_word number :: 32 word)) info) (\<lambda>info.
     abind (act_read 4) (\<lambda>data.
     let number = overlay data number in
     abind (AskList_loop CInfoWifi_Display (unat (get_word number :: 32 word)) info) (\<lambda>_. act_close))))))"

definition AskList :: "config \<Rightarrow> item list \<Rightarrow> os \<Rightarrow> order_result" where
  "AskList cfg = with_socket cfg AskList_body"

text \<open>The text of a \<^verbatim>\<open>TCID\<close> argument; \<open>None\<close> when it is refused.\<close>

definition cid_arg :: "string \<Rightarrow> TCID option result" where
  "cid_arg arg =
     (if \<not> isPositiveInt arg then Ok None
      else rbind (atoi arg) (\<lambda>n.
        let cid = word_of_int n :: TCID in Ok (if cid < TCID_GUEST_MIN then None else Some cid)))"

definition ChangeCoordinate_body :: "TCID \<Rightarrow> CCoordinate \<Rightarrow> unit act" where
  "ChangeCoordinate_body cid coo =
     abind (act_send (put_order TORDER_CHANGE_COORDINATE)) (\<lambda>_.
     abind (act_send (put_word cid)) (\<lambda>_.
     abind (act_send (put_coo coo)) (\<lambda>_. act_close)))"

definition ChangeCoordinate_ctrl :: "config \<Rightarrow> string \<Rightarrow> string list \<Rightarrow> item list \<Rightarrow> os \<Rightarrow> order_result" where
  "ChangeCoordinate_ctrl cfg NameOfProg argv out net =
     (case argv of
        [_, a1, a2, a3, a4] \<Rightarrow>
          (case cid_arg a1 of
             Inl e \<Rightarrow> Some (Fault e)
           | Inr None \<Rightarrow> return_code 1 out net
           | Inr (Some cid) \<Rightarrow>
               if \<not> isInt a2 \<or> \<not> isInt a3 \<or> \<not> isInt a4 then return_code 1 out net
               else (case rbind (atoi a2) (\<lambda>x. rbind (atoi a3) (\<lambda>y. rbind (atoi a4) (\<lambda>z.
                       Ok (CCoordinate_of (word_of_int x) (word_of_int y) (word_of_int z))))) of
                   Inl e \<Rightarrow> Some (Fault e)
                 | Inr coo \<Rightarrow>
                     with_socket cfg (ChangeCoordinate_body cid coo)
                       (out @ [Text (show_nat (unat cid) @ '' '' @ CCoordinate_Display coo @ '' '' @ [CHR 0x0A])]) net))
      | _ \<Rightarrow> return_code 1 (out @ Help cfg NameOfProg) net)"

definition SetName_body :: "TCID \<Rightarrow> string \<Rightarrow> unit act" where
  "SetName_body cid name =
     abind (act_send (put_order TORDER_SETNAME)) (\<lambda>_.
     abind (act_send (put_word cid)) (\<lambda>_.
     abind (act_send (put_word (word_of_nat (length name) :: 32 word))) (\<lambda>_.
     abind (act_send (name @ [CHR 0x00])) (\<lambda>_. act_close))))"

definition SetName_ctrl :: "config \<Rightarrow> string \<Rightarrow> string list \<Rightarrow> item list \<Rightarrow> os \<Rightarrow> order_result" where
  "SetName_ctrl cfg NameOfProg argv out net =
     (case argv of
        [_, a1, a2] \<Rightarrow>
          (case cid_arg a1 of
             Inl e \<Rightarrow> Some (Fault e)
           | Inr None \<Rightarrow> return_code 1 out net
           | Inr (Some cid) \<Rightarrow>
               let name = (if length a2 > MAX_SIZE_NAME then take MAX_SIZE_NAME a2 else a2)
               in with_socket cfg (SetName_body cid name)
                    (out @ [Text (show_nat (unat cid) @ '' '' @ name @ '' '' @ [CHR 0x0A])]) net)
      | _ \<Rightarrow> return_code 1 (out @ Help cfg NameOfProg) net)"

definition ChangePacketLoss_body :: "bool \<Rightarrow> unit act" where
  "ChangePacketLoss_body value =
     abind (act_send (put_order TORDER_PACKET_LOSS)) (\<lambda>_.
     abind (act_send (put_word (of_bool value :: 32 word))) (\<lambda>_. act_close))"

definition ChangePacketLoss_ctrl :: "config \<Rightarrow> string \<Rightarrow> string list \<Rightarrow> item list \<Rightarrow> os \<Rightarrow> order_result" where
  "ChangePacketLoss_ctrl cfg NameOfProg argv out net =
     (case argv of
        [_, a1] \<Rightarrow>
          if a1 = ''yes'' then with_socket cfg (ChangePacketLoss_body True) out net
          else if a1 = ''no'' then with_socket cfg (ChangePacketLoss_body False) out net
          else return_code 1 out net
      | _ \<Rightarrow> return_code 1 (out @ Help cfg NameOfProg) net)"

text \<open>\<open>port\<close> is one variable: the second port is read over the first.\<close>

definition AskStatus_body :: "unit act" where
  "AskStatus_body =
     abind (act_send (put_order TORDER_STATUS)) (\<lambda>_.
     abind read_bool (\<lambda>loss.
     abind (act_line (''SRV : PacketLoss : '' @ (if loss then ''Enable'' else ''Disable''))) (\<lambda>_.
     abind (read_new 8) (\<lambda>scale.
     abind (act_line_real ''SRV : Scale : '' (get_word scale)) (\<lambda>_.
     abind (read_new 2) (\<lambda>port.
     abind (act_line (''SRV VHOST : Port : '' @ show_nat (unat (get_word port :: TPort)))) (\<lambda>_.
     abind (act_read 2) (\<lambda>data.
     let port = overlay data port in
     abind (act_line (''SRV INET : Port : '' @ show_nat (unat (get_word port :: TPort)))) (\<lambda>_.
     abind (read_new 4) (\<lambda>number.
     abind (act_line (''SRV : SizeOfDisconnected : '' @ show_nat (unat (get_word number :: 32 word)))) (\<lambda>_.
     abind read_bool (\<lambda>spyIsConnected.
     abind (act_line (''SPY : '' @ (if spyIsConnected then ''Connected'' else ''Disconnected''))) (\<lambda>_.
     act_close)))))))))))))"

definition AskStatus :: "config \<Rightarrow> item list \<Rightarrow> os \<Rightarrow> order_result" where
  "AskStatus cfg out net =
     with_socket cfg AskStatus_body
       (out @ [Text (''CTRL : IP : '' @ IP_Ctrl cfg @ [CHR 0x0A]),
               Text (''CTRL : Port : '' @ show_nat (unat (Port_of_Ctrl cfg)) @ [CHR 0x0A])]) net"

definition AskShow_body :: "unit act" where
  "AskShow_body =
     abind (act_send (put_order TORDER_SHOW)) (\<lambda>_.
     abind read_bool (\<lambda>loss.
     abind (act_line (''PacketLoss : '' @ (if loss then ''Enable'' else ''Disable''))) (\<lambda>_.
     abind (read_new 8) (\<lambda>scale.
     abind (act_line_real ''Scale : '' (get_word scale)) (\<lambda>_.
     abind read_bool (\<lambda>spyIsConnected.
     abind (act_line (''Spy : '' @ (if spyIsConnected then ''Connected'' else ''Disconnected''))) (\<lambda>_.
     abind act_close (\<lambda>_. act_line ''----------------''))))))))"

text \<open>The first socket is closed when \<^verbatim>\<open>AskList\<close> is called; an early return leaves with code 1.\<close>

definition AskShow :: "config \<Rightarrow> item list \<Rightarrow> os \<Rightarrow> order_result" where
  "AskShow cfg out net =
     (case with_socket cfg AskShow_body out net of
        Some (Inr (n, out, net)) \<Rightarrow> if n = 0 then AskList cfg out net else return_code n out net
      | r \<Rightarrow> r)"

definition DistanceBetweenCID_body :: "TCID \<Rightarrow> TCID \<Rightarrow> unit act" where
  "DistanceBetweenCID_body cid1 cid2 =
     abind (act_send (put_order TORDER_DISTANCE_BETWEEN_CID)) (\<lambda>_.
     abind (act_send (put_word cid1)) (\<lambda>_.
     abind (act_send (put_word cid2)) (\<lambda>_.
     abind (read_new 4) (\<lambda>data.
     let codeError = sint (get_word data :: 32 word) in
     if codeError = -1 then act_exit 1
     else if codeError = -2 then act_exit 1
     else abind (read_new 8) (\<lambda>distance.
       abind (act_line_real [] (get_word distance)) (\<lambda>_. act_close))))))"

definition DistanceBetweenCID :: "config \<Rightarrow> string \<Rightarrow> string list \<Rightarrow> item list \<Rightarrow> os \<Rightarrow> order_result" where
  "DistanceBetweenCID cfg NameOfProg argv out net =
     (case argv of
        [_, a1, a2] \<Rightarrow>
          (case cid_arg a1 of
             Inl e \<Rightarrow> Some (Fault e)
           | Inr None \<Rightarrow> return_code 1 out net
           | Inr (Some cid1) \<Rightarrow>
               (case cid_arg a2 of
                  Inl e \<Rightarrow> Some (Fault e)
                | Inr None \<Rightarrow> return_code 1 out net
                | Inr (Some cid2) \<Rightarrow> with_socket cfg (DistanceBetweenCID_body cid1 cid2) out net))
      | _ \<Rightarrow> return_code 1 (out @ Help cfg NameOfProg) net)"

text \<open>\<^verbatim>\<open>atof\<close> on the strings that \<^verbatim>\<open>isIntOrFloat\<close> accepts, and the test \<^verbatim>\<open>scale <= 0\<close>.\<close>

definition decimal_val :: "string \<Rightarrow> real" where
  "decimal_val str =
     (let digits = skip_sign str; whole_part = takeWhile (\<lambda>c. c \<noteq> CHR ''.'') digits;
          fraction = drop (Suc (length whole_part)) digits;
          v = real (digits_val 0 whole_part) + real (digits_val 0 fraction) / 10 ^ length fraction
      in if str \<noteq> [] \<and> hd str = CHR ''-'' then - v else v)"

definition atof :: "(double \<Rightarrow> 64 word) \<Rightarrow> string \<Rightarrow> 64 word" where
  "atof fpu str = fpu (Fin (decimal_val str))"

fun not_positive :: "double \<Rightarrow> bool" where
  "not_positive (Fin x) = (x \<le> 0)"
| "not_positive NInf = True"
| "not_positive PInf = False"
| "not_positive NaN = False"

definition SetScale_body :: "64 word \<Rightarrow> unit act" where
  "SetScale_body scale =
     abind (act_send (put_order TORDER_SET_SCALE)) (\<lambda>_.
     abind (act_send (put_word scale)) (\<lambda>_. act_close))"

definition SetScale_ctrl ::
  "(double \<Rightarrow> 64 word) \<Rightarrow> config \<Rightarrow> string \<Rightarrow> string list \<Rightarrow> item list \<Rightarrow> os \<Rightarrow> order_result" where
  "SetScale_ctrl fpu cfg NameOfProg argv out net =
     (case argv of
        [_, a1] \<Rightarrow>
          if \<not> isIntOrFloat a1 then return_code 1 out net
          else if not_positive (double_of_bits (atof fpu a1)) then return_code 1 out net
          else with_socket cfg (SetScale_body (atof fpu a1)) out net
      | _ \<Rightarrow> return_code 1 (out @ Help cfg NameOfProg) net)"

definition CloseAllClient_body :: "unit act" where
  "CloseAllClient_body = abind (act_send (put_order TORDER_CLOSE_ALL_CLIENT)) (\<lambda>_. act_close)"

definition CloseAllClient_ctrl :: "config \<Rightarrow> item list \<Rightarrow> os \<Rightarrow> order_result" where
  "CloseAllClient_ctrl cfg = with_socket cfg CloseAllClient_body"

section \<open>The command line\<close>

datatype ctrl_command = Ctrl_exit int "item list" | Ctrl_order config "string list"

function ctrl_args :: "string \<Rightarrow> string \<Rightarrow> string list \<Rightarrow> config \<Rightarrow> string list \<Rightarrow> ctrl_command result" where
  "ctrl_args version NameOfProg [] cfg params = Ok (Ctrl_order cfg params)"
| "ctrl_args version NameOfProg (arg # rest) cfg params =
     (if arg = ''-v'' \<or> arg = ''--version'' then
        Ok (Ctrl_exit 0 [Text (''Version : '' @ version @ [CHR 0x0A])])
      else if arg = ''-h'' \<or> arg = ''--help'' then Ok (Ctrl_exit 1 (Help cfg NameOfProg))
      else if (arg = ''-p'' \<or> arg = ''--port'') \<and> rest \<noteq> [] \<and> isPositiveInt (hd rest) then
        rbind (stoi (hd rest)) (\<lambda>n.
        ctrl_args version NameOfProg (tl rest) (cfg\<lparr>Port_of_Ctrl := word_of_int n\<rparr>) params)
      else if (arg = ''-i'' \<or> arg = ''--ip'') \<and> rest \<noteq> [] then
        ctrl_args version NameOfProg (tl rest) (cfg\<lparr>IP_Ctrl := hd rest\<rparr>) params
      else ctrl_args version NameOfProg rest cfg (params @ [arg]))"
  by pat_completeness auto
termination
  by (relation "measure (\<lambda>(v, p, l, c, q). length l)") auto

definition to_lower :: "char \<Rightarrow> char" where
  "to_lower c = (if 65 \<le> (of_char c :: nat) \<and> (of_char c :: nat) \<le> 90 then char_of (of_char c + 32 :: nat) else c)"

definition strcaseeq :: "string \<Rightarrow> string \<Rightarrow> bool" where
  "strcaseeq a b \<longleftrightarrow> map to_lower a = map to_lower b"

definition run_command ::
  "(double \<Rightarrow> 64 word) \<Rightarrow> config \<Rightarrow> string \<Rightarrow> string list \<Rightarrow> os \<Rightarrow> order_result" where
  "run_command fpu cfg NameOfProg params net =
     (if params = [] then return_code 0 (Help cfg NameOfProg) net
      else if strcaseeq (hd params) ''ls'' then AskList cfg [] net
      else if strcaseeq (hd params) ''set'' then ChangeCoordinate_ctrl cfg NameOfProg params [] net
      else if strcaseeq (hd params) ''setname'' then SetName_ctrl cfg NameOfProg params [] net
      else if strcaseeq (hd params) ''loss'' then ChangePacketLoss_ctrl cfg NameOfProg params [] net
      else if strcaseeq (hd params) ''show'' then AskShow cfg [] net
      else if strcaseeq (hd params) ''status'' then AskStatus cfg [] net
      else if strcaseeq (hd params) ''distance'' then DistanceBetweenCID cfg NameOfProg params [] net
      else if strcaseeq (hd params) ''scale'' then SetScale_ctrl fpu cfg NameOfProg params [] net
      else if strcaseeq (hd params) ''close'' then CloseAllClient_ctrl cfg [] net
      else return_code 1 [] net)"

definition ctrl_main :: "(double \<Rightarrow> 64 word) \<Rightarrow> string \<Rightarrow> string list \<Rightarrow> os \<Rightarrow> order_result" where
  "ctrl_main fpu version argv net =
     (let NameOfProg = hd argv in
      case ctrl_args version NameOfProg (tl argv) config_new [] of
        Inl e \<Rightarrow> Some (Fault e)
      | Inr (Ctrl_exit n out) \<Rightarrow> return_code n out net
      | Inr (Ctrl_order cfg params) \<Rightarrow> run_command fpu cfg NameOfProg params net)"

end
