(* ===== verification/Vwifi_Main.thy ===== *)
theory Vwifi_Main
  imports Vwifi_CtrlServer
begin

text \<open>
  The program \<^verbatim>\<open>vwifi-server\<close> (\<^verbatim>\<open>src/src/vwifi-server.cc\<close>): the command line, the start of
  the four listening sockets, and the main loop that accepts clients, obeys control orders and
  forwards frames.

  \<open>server_iteration\<close> is one turn of \<^verbatim>\<open>while( true )\<close>, for one outcome of \<^verbatim>\<open>pselect\<close>.
  \<open>reachable\<close> is the transition system: the start, the turns, and whatever the network does in
  between. What the program prints is not modelled; the checks that printing makes are.
\<close>

section \<open>Forwarding\<close>

definition server_of :: "bool \<Rightarrow> server \<Rightarrow> CWifiServer" where
  "server_of isSpy v = (if isSpy then wifiServerSPY v else wifiServerITCP v)"

definition put_server :: "bool \<Rightarrow> CWifiServer \<Rightarrow> server \<Rightarrow> server" where
  "put_server isSpy sv v = (if isSpy then v\<lparr>wifiServerSPY := sv\<rparr> else v\<lparr>wifiServerITCP := sv\<rparr>)"

definition RemoveClient :: "bool \<Rightarrow> TIndex \<Rightarrow> TDescriptor \<Rightarrow> server \<Rightarrow> os \<Rightarrow> (server \<times> os) result" where
  "RemoveClient srvIsSpy i socket v s =
     (let srv = server_of srvIsSpy v in
      rbind (if \<not> srvIsSpy then rbind (ShowInfoWifi i srv) (\<lambda>_. Ok ())
             else rbind (GetReferenceOnInfoWifiByIndex i srv) (\<lambda>_. Ok ())) (\<lambda>_.
      rbind (CloseClient i srv s) (\<lambda>(srv, s).
      rbind (DelNode socket (Scheduler v)) (\<lambda>sched.
      Ok ((put_server srvIsSpy srv v)\<lparr>Scheduler := sched\<rparr>, s)))))"

text \<open>The frame that was received goes to the other clients of its medium and to the other medium.\<close>

definition forward ::
  "(byte list \<Rightarrow> freq_attr) \<Rightarrow> bool \<Rightarrow> TIndex \<Rightarrow> TPower \<Rightarrow> byte list \<Rightarrow> server \<Rightarrow> os \<Rightarrow> (server \<times> os) result" where
  "forward genlmsg_parse srcIsSpy i pw data v s =
     rbind (if \<not> srcIsSpy
            then SendAllOtherClients genlmsg_parse (Globals v) i pw data (server_of srcIsSpy v) s
            else SendAllOtherClientsWithoutLoss i pw data (server_of srcIsSpy v) s) (\<lambda>(src, s).
     let v = put_server srcIsSpy src v in
     rbind (SendAllClientsWithoutLoss pw data (server_of (\<not> srcIsSpy) v) s) (\<lambda>(dst, s).
     Ok (put_server (\<not> srcIsSpy) dst v, s)))"

text \<open>The body of the loop; the result says whether it ended with \<^verbatim>\<open>continue\<close>, client \<open>i\<close> removed.\<close>

definition ForwardData_body ::
  "(byte list \<Rightarrow> freq_attr) \<Rightarrow> bool \<Rightarrow> TIndex \<Rightarrow> server \<Rightarrow> os \<Rightarrow> (bool \<times> server \<times> os) result" where
  "ForwardData_body genlmsg_parse srcIsSpy i v s =
     rbind (GetSocketClient i (server_of srcIsSpy v)) (\<lambda>socket.
     rbind (IsEnable i (server_of srcIsSpy v)) (\<lambda>enable.
     if \<not> enable then rbind (RemoveClient srcIsSpy i socket v s) (\<lambda>(v, s). Ok (True, v, s))
     else if DescriptorHasAction socket (Scheduler v) then
       rbind (RecvSignalWithSocket socket (RxBuffer v) s) (\<lambda>(valread, pw, b, s).
       let v = v\<lparr>RxBuffer := b\<rparr> in
       if valread \<le> 0 then rbind (RemoveClient srcIsSpy i socket v s) (\<lambda>(v, s). Ok (True, v, s))
       else rbind (case pw of None \<Rightarrow> Fault Undefined_behaviour | Some pw \<Rightarrow> Ok pw) (\<lambda>pw.
         rbind (rbind (GetBuffer b) (cell_bytes (nat valread))) (\<lambda>data.
         rbind (forward genlmsg_parse srcIsSpy i pw data v s) (\<lambda>(v, s). Ok (False, v, s)))))
     else Ok (False, v, s)))"

lemma server_of_put [simp]:
  "server_of b (put_server b sv v) = sv" "server_of b (put_server (\<not> b) sv v) = server_of b v"
  "server_of (\<not> b) (put_server b sv v) = server_of (\<not> b) v"
  by (simp_all add: server_of_def put_server_def)

lemma put_server_fields [simp]:
  "Scheduler (put_server b sv v) = Scheduler v" "ctrlServer (put_server b sv v) = ctrlServer v"
  "Globals (put_server b sv v) = Globals v" "RxBuffer (put_server b sv v) = RxBuffer v"
  "wifiServerVTCP (put_server b sv v) = wifiServerVTCP v"
  by (simp_all add: put_server_def)

lemma server_of_updates [simp]:
  "server_of b (v\<lparr>Scheduler := x\<rparr>) = server_of b v" "server_of b (v\<lparr>RxBuffer := y\<rparr>) = server_of b v"
  "server_of b (v\<lparr>ctrlServer := z\<rparr>) = server_of b v" "server_of b (v\<lparr>Globals := g\<rparr>) = server_of b v"
  by (simp_all add: server_of_def)

lemma CloseClient_shrinks:
  assumes "CloseClient i sv s = Inr (sv', s')"
  shows "length (InfoSockets sv') = length (InfoSockets sv) - 1" "i < length (InfoSockets sv)"
  using assms
  by (auto simp: CloseClient_def GetNumberClient_def rbind_Inr_iff AddInfoWifiDeconnected_def)

lemma RemoveClient_shrinks:
  assumes "RemoveClient b i socket v s = Inr (v', s')"
  shows "length (InfoSockets (server_of b v')) = length (InfoSockets (server_of b v)) - 1"
    "i < length (InfoSockets (server_of b v))"
proof -
  obtain sv t where sv: "CloseClient i (server_of b v) s = Inr (sv, t)" and v': "server_of b v' = sv"
    using assms by (auto simp: RemoveClient_def rbind_Inr_iff Let_def)
  show "length (InfoSockets (server_of b v')) = length (InfoSockets (server_of b v)) - 1"
    "i < length (InfoSockets (server_of b v))"
    using CloseClient_shrinks [OF sv] v' by simp_all
qed

lemma forward_length:
  assumes "forward parse b i pw data v s = Inr (v', s')"
  shows "length (InfoSockets (server_of b v')) = length (InfoSockets (server_of b v))"
proof -
  obtain src t where a: "(if \<not> b then SendAllOtherClients parse (Globals v) i pw data (server_of b v) s
        else SendAllOtherClientsWithoutLoss i pw data (server_of b v) s) = Inr (src, t)"
    and v': "server_of b v' = src"
    using assms by (auto simp: forward_def rbind_Inr_iff)
  have "distributes (\<lambda>j. j \<noteq> i) (server_of b v, s) (src, t)"
    using a SendAllOtherClients_distributes SendAllOtherClientsWithoutLoss_distributes
    by (auto split: if_splits)
  from distributes_wifi_ok(9) [OF this] show ?thesis by (simp add: v')
qed

lemma ForwardData_body_progress:
  assumes "ForwardData_body parse b i v s = Inr (removed, v', s')"
  shows "length (InfoSockets (server_of b v')) - (if removed then i else Suc i) <
    length (InfoSockets (server_of b v)) - i"
proof -
  have i: "i < length (InfoSockets (server_of b v))"
    using assms by (auto simp: ForwardData_body_def GetSocketClient_def rbind_Inr_iff)
  have "if removed then length (InfoSockets (server_of b v')) = length (InfoSockets (server_of b v)) - 1
    else length (InfoSockets (server_of b v')) = length (InfoSockets (server_of b v))"
    using assms
    by (auto simp: ForwardData_body_def rbind_Inr_iff Let_def split: if_splits option.splits
        dest!: RemoveClient_shrinks(1) forward_length)
  with i show ?thesis by (auto split: if_splits)
qed

function ForwardData_loop ::
  "(byte list \<Rightarrow> freq_attr) \<Rightarrow> bool \<Rightarrow> TIndex \<Rightarrow> server \<Rightarrow> os \<Rightarrow> (server \<times> os) result" where
  "ForwardData_loop genlmsg_parse srcIsSpy i v s =
     (if i < GetNumberClient (server_of srcIsSpy v) then
        rbind (ForwardData_body genlmsg_parse srcIsSpy i v s) (\<lambda>(removed, v, s).
        ForwardData_loop genlmsg_parse srcIsSpy (if removed then i else Suc i) v s)
      else Ok (v, s))"
  by pat_completeness auto
termination
  by (relation "measure (\<lambda>(p, b, i, v, s). length (InfoSockets (server_of b v)) - i)")
    (auto dest!: ForwardData_body_progress split: if_splits)

declare ForwardData_loop.simps [simp del]

definition ForwardData ::
  "(byte list \<Rightarrow> freq_attr) \<Rightarrow> bool \<Rightarrow> server \<Rightarrow> os \<Rightarrow> (server \<times> os) result" where
  "ForwardData genlmsg_parse srcIsSpy v s = ForwardData_loop genlmsg_parse srcIsSpy 0 v s"

section \<open>Start\<close>

record ports =
  Port_VHOST :: TPort
  Port_TCP :: TPort
  Port_Spy :: TPort
  Port_Ctrl :: TPort

definition default_ports :: ports where
  "default_ports = \<lparr>Port_VHOST = DEFAULT_WIFI_CLIENT_PORT_VHOST, Port_TCP = DEFAULT_WIFI_CLIENT_PORT_INET,
     Port_Spy = DEFAULT_WIFI_SPY_PORT, Port_Ctrl = DEFAULT_CTRL_PORT\<rparr>"

text \<open>\<^verbatim>\<open>if( ! x.Listen(...) ) exit(EXIT_FAILURE);\<close>\<close>

definition or_exit :: "bool \<times> 'a \<times> os \<Rightarrow> ('a \<times> os) result" where
  "or_exit = (\<lambda>(ok, x, s). if ok then Ok (x, s) else Fault Exit_failure)"

definition vwifi_server_start :: "ports \<Rightarrow> globals \<Rightarrow> os \<Rightarrow> (server \<times> os) result" where
  "vwifi_server_start p g s =
     rbind CDynBuffer_new (\<lambda>b.
     rbind (or_exit (CWifiServer_Listen Listen_VTCP WIFI_MAX_DECONNECTED_CLIENT
       (Init (Port_VHOST p) (CWifiServer_new (Some ([], [], [])))) s)) (\<lambda>(vtcp, s).
     rbind (or_exit (CWifiServer_Listen Listen_ITCP WIFI_MAX_DECONNECTED_CLIENT
       (Init (Port_TCP p) (CWifiServer_new (Some ([], [], [])))) s)) (\<lambda>(itcp, s).
     rbind (or_exit (CWifiServer_Listen Listen_ITCP 1
       (Init (Port_Spy p) (CWifiServer_new None)) s)) (\<lambda>(spy, s).
     rbind (or_exit (Listen Listen_ITCP (Init (Port_Ctrl p) (CSocketServer_new None)) s)) (\<lambda>(ctrl, s).
     rbind (AddNode (GetDescriptor vtcp) CSelect_new) (\<lambda>sched.
     rbind (AddNode (GetDescriptor itcp) sched) (\<lambda>sched.
     rbind (AddNode (GetDescriptor spy) sched) (\<lambda>sched.
     rbind (AddNode (GetDescriptor ctrl) sched) (\<lambda>sched.
     Ok (\<lparr>wifiServerVTCP = vtcp, wifiServerITCP = itcp, wifiServerSPY = spy, ctrlServer = ctrl,
          Scheduler = sched, RxBuffer = b, Globals = g\<rparr>, s))))))))))"

section \<open>One turn of the main loop\<close>

definition accept_vtcp :: "server \<Rightarrow> os \<Rightarrow> (server \<times> os) result" where
  "accept_vtcp v s =
     rbind (CWifiServer_Accept Accept_VTCP (vtcp_view v) s) (\<lambda>(socket, sv, s).
     if socket = SOCKET_ERROR then Fault Exit_failure
     else rbind (AddNode socket (Scheduler v)) (\<lambda>sched.
       let v = (vtcp_put sv v)\<lparr>Scheduler := sched\<rparr> in
       rbind (ShowInfoWifi (GetNumberClient (wifiServerITCP v) - 1) (wifiServerITCP v)) (\<lambda>_. Ok (v, s))))"

definition accept_itcp :: "server \<Rightarrow> os \<Rightarrow> (server \<times> os) result" where
  "accept_itcp v s =
     rbind (CWifiServer_Accept (Accept_ITCP (HashUsesPort (Globals v))) (wifiServerITCP v) s) (\<lambda>(socket, sv, s).
     if socket = SOCKET_ERROR then Fault Exit_failure
     else rbind (AddNode socket (Scheduler v)) (\<lambda>sched.
       let v = v\<lparr>wifiServerITCP := sv, Scheduler := sched\<rparr> in
       rbind (ShowInfoWifi (GetNumberClient (wifiServerITCP v) - 1) (wifiServerITCP v)) (\<lambda>_. Ok (v, s))))"

definition accept_spy :: "server \<Rightarrow> os \<Rightarrow> (server \<times> os) result" where
  "accept_spy v s =
     rbind (CWifiServer_Accept (Accept_ITCP (HashUsesPort (Globals v))) (wifiServerSPY v) s) (\<lambda>(socket, sv, s).
     if socket = SOCKET_ERROR then Fault Exit_failure
     else rbind (AddNode socket (Scheduler v)) (\<lambda>sched.
       let v = v\<lparr>wifiServerSPY := sv, Scheduler := sched\<rparr> in
       rbind (GetReferenceOnInfoWifiByIndex (GetNumberClient (wifiServerSPY v) - 1) (wifiServerSPY v)) (\<lambda>_.
       Ok (v, s))))"

definition when_ready ::
  "TDescriptor \<Rightarrow> (server \<Rightarrow> os \<Rightarrow> (server \<times> os) result) \<Rightarrow> server \<times> os \<Rightarrow> (server \<times> os) result" where
  "when_ready d act = (\<lambda>(v, s). if DescriptorHasAction d (Scheduler v) then act v s else Ok (v, s))"

text \<open>The destructors that run when \<^verbatim>\<open>vwifi_server\<close> returns, the last constructed object first.\<close>

definition vwifi_server_cleanup :: "server \<Rightarrow> os \<Rightarrow> os result" where
  "vwifi_server_cleanup v s =
     rbind (CCTRLServer_destroy v s) (\<lambda>(v, s).
     rbind (CWifiServer_destroy (wifiServerSPY v) s) (\<lambda>s.
     rbind (CWifiServer_destroy (wifiServerITCP v) s) (\<lambda>s.
     CWifiServer_destroy (vtcp_view v) s)))"

definition server_turn ::
  "(byte list \<Rightarrow> freq_attr) \<Rightarrow> (double \<Rightarrow> 64 word) \<Rightarrow> server \<times> os \<Rightarrow> (server \<times> os) result" where
  "server_turn genlmsg_parse fpu st =
     (let v = fst st in
      rbind (when_ready (Master (wifiServerVTCP v)) accept_vtcp st) (\<lambda>st.
      rbind (when_ready (Master (wifiServerITCP v)) accept_itcp st) (\<lambda>st.
      rbind (when_ready (Master (wifiServerSPY v)) accept_spy st) (\<lambda>st.
      rbind (when_ready (Master (ctrlServer v)) (ReceiveOrder fpu) st) (\<lambda>(v, s).
      rbind (ForwardData genlmsg_parse False v s) (\<lambda>(v, s).
      ForwardData genlmsg_parse True v s))))))"

definition server_iteration ::
  "(byte list \<Rightarrow> freq_attr) \<Rightarrow> (double \<Rightarrow> 64 word) \<Rightarrow> pselect_outcome \<Rightarrow> server \<times> os \<Rightarrow>
   (server \<times> os) result" where
  "server_iteration genlmsg_parse fpu ev = (\<lambda>(v, s).
     let (r, sched) = Wait ev (Scheduler v); v = v\<lparr>Scheduler := sched\<rparr>
     in if r = SCHEDULER_ERROR then rbind (vwifi_server_cleanup v s) (\<lambda>_. Fault Exit_failure)
        else server_turn genlmsg_parse fpu (v, s))"

section \<open>The command line\<close>

datatype command_line = Exit_with int | Run ports bool bool

definition is_option :: "string \<Rightarrow> string \<Rightarrow> string \<Rightarrow> bool" where
  "is_option short long arg \<longleftrightarrow> arg = short \<or> arg = long"

definition port_option :: "string \<Rightarrow> string \<Rightarrow> string \<Rightarrow> string list \<Rightarrow> bool" where
  "port_option short long arg rest \<longleftrightarrow>
     is_option short long arg \<and> (case rest of [] \<Rightarrow> False | a # _ \<Rightarrow> isPositiveInt a)"

definition port_of :: "string \<Rightarrow> TPort result" where
  "port_of str = rbind (stoi str) (\<lambda>n. Ok (word_of_int n))"

function server_args :: "string list \<Rightarrow> ports \<Rightarrow> bool \<Rightarrow> bool \<Rightarrow> command_line result" where
  "server_args [] p lost hash = Ok (Run p lost hash)"
| "server_args (arg # rest) p lost hash =
     (if is_option ''-v'' ''--version'' arg then Ok (Exit_with 0)
      else if is_option ''-h'' ''--help'' arg then Ok (Exit_with 0)
      else if is_option ''-l'' ''--lost-packets'' arg then server_args rest p True hash
      else if is_option ''-u'' ''--use-port-in-hash'' arg then server_args rest p lost True
      else if port_option ''-p'' ''--port-vhost'' arg rest then
        rbind (port_of (hd rest)) (\<lambda>n. server_args (tl rest) (p\<lparr>Port_VHOST := n\<rparr>) lost hash)
      else if port_option ''-t'' ''--port-tcp'' arg rest then
        rbind (port_of (hd rest)) (\<lambda>n. server_args (tl rest) (p\<lparr>Port_TCP := n\<rparr>) lost hash)
      else if port_option ''-s'' ''--port-spy'' arg rest then
        rbind (port_of (hd rest)) (\<lambda>n. server_args (tl rest) (p\<lparr>Port_Spy := n\<rparr>) lost hash)
      else if port_option ''-c'' ''--port-ctrl'' arg rest then
        rbind (port_of (hd rest)) (\<lambda>n. server_args (tl rest) (p\<lparr>Port_Ctrl := n\<rparr>) lost hash)
      else Ok (Exit_with 1))"
  by pat_completeness auto
termination
  by (relation "measure (\<lambda>(l, p, b, c). length l)") auto

text \<open>The arguments without the program's name; \<open>Inl\<close> is the exit code of a run that ends at once.\<close>

definition server_main :: "string list \<Rightarrow> os \<Rightarrow> (int + server \<times> os) result" where
  "server_main args s =
     rbind (server_args args default_ports (CanLostPackets globals_new) (HashUsesPort globals_new)) (\<lambda>c.
     case c of Exit_with n \<Rightarrow> Ok (Inl n)
     | Run p lost hash \<Rightarrow>
         rbind (vwifi_server_start p (globals_new\<lparr>CanLostPackets := lost, HashUsesPort := hash\<rparr>) s) (\<lambda>st.
         Ok (Inr st)))"

section \<open>Reachable states\<close>

text \<open>Between two turns the network may deliver, accept or refuse anything, and clients may connect.\<close>

definition environment :: "os \<Rightarrow> os \<Rightarrow> bool" where
  "environment s s' \<longleftrightarrow> open_fds s' = open_fds s \<and> sent s' = sent s"

inductive reachable :: "(byte list \<Rightarrow> freq_attr) \<Rightarrow> (double \<Rightarrow> 64 word) \<Rightarrow> server \<times> os \<Rightarrow> bool"
  for genlmsg_parse fpu where
  start: "vwifi_server_start p g s = Ok st \<Longrightarrow> reachable genlmsg_parse fpu st"
| turn: "reachable genlmsg_parse fpu st \<Longrightarrow> server_iteration genlmsg_parse fpu ev st = Ok st' \<Longrightarrow>
    reachable genlmsg_parse fpu st'"
| network: "reachable genlmsg_parse fpu (v, s) \<Longrightarrow> environment s s' \<Longrightarrow> reachable genlmsg_parse fpu (v, s')"

inductive_cases turn_cases: "reachable genlmsg_parse fpu st"

end
