(* ===== verification/Vwifi_Invariant.thy ===== *)
theory Vwifi_Invariant
  imports Vwifi_Main
begin

text \<open>
  The invariant of the running server. For both media the list of sockets and the list of
  identities have the same length and hold well-formed entries, and no more clients are remembered
  than allowed; all descriptors in use are different and open; the scheduler watches exactly the
  four listening sockets and the clients; no control client is left between two orders; the
  receive buffer is allocated. Every operation is shown to keep it, and then every reachable state
  has it.
\<close>

section \<open>The invariant\<close>

definition masters :: "server \<Rightarrow> TDescriptor list" where
  "masters v = [Master (wifiServerVTCP v), Master (wifiServerITCP v), Master (wifiServerSPY v),
     Master (ctrlServer v)]"

definition all_fds :: "server \<Rightarrow> TDescriptor list" where
  "all_fds v = masters v @ descriptors (wifiServerITCP v) @ descriptors (wifiServerSPY v)"

definition server_ok :: "server \<Rightarrow> os \<Rightarrow> bool" where
  "server_ok v s \<longleftrightarrow> wifi_ok (wifiServerITCP v) \<and> wifi_ok (wifiServerSPY v) \<and> buf_ok (RxBuffer v) \<and>
     MaxClientDeconnected (wifiServerVTCP v) = MaxClientDeconnected (wifiServerITCP v) \<and>
     \<not> ListInfoSelfManaged (wifiServerITCP v) \<and> ListInfoSelfManaged (wifiServerSPY v) \<and>
     ListInfoSelfManaged (ctrlServer v) \<and>
     select_ok (Scheduler v) \<and> set (ListNodes (Scheduler v)) = set (all_fds v) \<and>
     distinct (all_fds v @ descriptors (ctrlServer v)) \<and>
     set (all_fds v @ descriptors (ctrlServer v)) \<subseteq> set (open_fds s)"

definition server_inv :: "server \<times> os \<Rightarrow> bool" where
  "server_inv = (\<lambda>(v, s). server_ok v s \<and> InfoSockets (ctrlServer v) = [])"

lemma server_okD:
  assumes "server_ok v s"
  shows "wifi_ok (server_of b v)" "buf_ok (RxBuffer v)" "select_ok (Scheduler v)"
    "set (ListNodes (Scheduler v)) = set (all_fds v)"
    "distinct (all_fds v @ descriptors (ctrlServer v))"
    "set (all_fds v @ descriptors (ctrlServer v)) \<subseteq> set (open_fds s)"
  using assms by (simp_all add: server_ok_def server_of_def)

lemma server_ok_os: "server_ok v s \<Longrightarrow> set (open_fds s') = set (open_fds s) \<Longrightarrow> server_ok v s'"
  by (simp add: server_ok_def)

lemma server_ok_globals: "server_ok (v\<lparr>Globals := g\<rparr>) s = server_ok v s"
  by (simp add: server_ok_def all_fds_def masters_def)

lemma server_ok_buffer: "server_ok v s \<Longrightarrow> buf_ok b \<Longrightarrow> server_ok (v\<lparr>RxBuffer := b\<rparr>) s"
  by (simp add: server_ok_def all_fds_def masters_def)

text \<open>Replacing a medium's object by one with the same sockets.\<close>

lemma server_ok_put:
  assumes "server_ok v s" and "wifi_ok sv" and "set (open_fds s') = set (open_fds s)"
    and "descriptors sv = descriptors (server_of b v)" "Master sv = Master (server_of b v)"
      "MaxClientDeconnected sv = MaxClientDeconnected (server_of b v)"
      "ListInfoSelfManaged sv = ListInfoSelfManaged (server_of b v)"
  shows "server_ok (put_server b sv v) s'"
  using assms by (cases b) (simp_all add: server_ok_def put_server_def server_of_def all_fds_def masters_def)

definition fds_before :: "bool \<Rightarrow> server \<Rightarrow> TDescriptor list" where
  "fds_before b v = (if b then masters v @ descriptors (wifiServerITCP v) else masters v)"

definition fds_after :: "bool \<Rightarrow> server \<Rightarrow> TDescriptor list" where
  "fds_after b v = (if b then [] else descriptors (wifiServerSPY v))"

lemma all_fds_split: "all_fds v = fds_before b v @ descriptors (server_of b v) @ fds_after b v"
  by (cases b) (simp_all add: all_fds_def fds_before_def fds_after_def server_of_def)

lemma all_fds_put:
  "Master sv = Master (server_of b v) \<Longrightarrow>
   all_fds ((put_server b sv v)\<lparr>Scheduler := x\<rparr>) = fds_before b v @ descriptors sv @ fds_after b v"
  by (cases b) (simp_all add: all_fds_def masters_def fds_before_def fds_after_def server_of_def put_server_def)

text \<open>Removing a client: its descriptor is no longer watched, and perhaps no longer open.\<close>

lemma server_ok_remove:
  assumes ok: "server_ok v s" and i: "i < length (InfoSockets (server_of b v))"
    and sv: "wifi_ok sv" "descriptors sv = erase i (descriptors (server_of b v))" "Master sv = Master (server_of b v)"
      "MaxClientDeconnected sv = MaxClientDeconnected (server_of b v)"
      "ListInfoSelfManaged sv = ListInfoSelfManaged (server_of b v)"
    and sched: "select_ok sched" "set (ListNodes sched) = set (ListNodes (Scheduler v)) - {fd (server_of b v) i}"
    and s': "set (open_fds s) - {fd (server_of b v) i} \<subseteq> set (open_fds s')"
  shows "server_ok ((put_server b sv v)\<lparr>Scheduler := sched\<rparr>) s'"
proof -
  let ?d = "fd (server_of b v) i"
  let ?v = "(put_server b sv v)\<lparr>Scheduler := sched\<rparr>"
  let ?ds = "descriptors (server_of b v)"
  have di: "?ds ! i = ?d" "i < length ?ds" using i by simp_all
  define xs ys where "xs = fds_before b v" and "ys = fds_after b v"
  have split: "all_fds v = xs @ ?ds @ ys" "all_fds ?v = xs @ erase i ?ds @ ys"
    using all_fds_split [of v b] all_fds_put [OF sv(3)] sv(2) by (simp_all add: xs_def ys_def)
  have ctrl: "ctrlServer ?v = ctrlServer v" by simp
  have dist: "distinct (xs @ ?ds @ ys @ descriptors (ctrlServer v))"
    using server_okD(5) [OF ok] unfolding split by simp
  then have "distinct ?ds" by simp
  note er = set_erase_distinct [OF this di(2), unfolded di(1)]
  have "?d \<in> set ?ds" using di by (metis nth_mem)
  then have out: "?d \<notin> set (xs @ ys @ descriptors (ctrlServer v))"
    using dist unfolding distinct_append set_append by blast
  have sets: "set (all_fds ?v @ descriptors (ctrlServer v)) = set (all_fds v @ descriptors (ctrlServer v)) - {?d}"
    "set (all_fds ?v) = set (all_fds v) - {?d}"
    unfolding split set_append er using out by auto
  have "distinct (all_fds ?v @ descriptors (ctrlServer v))"
    unfolding split using dist distinct_erase [OF \<open>distinct ?ds\<close>, of i] set_erase_subset [of i ?ds]
    by auto
  moreover have "set (all_fds ?v @ descriptors (ctrlServer v)) \<subseteq> set (open_fds s')"
    unfolding sets using server_okD(6) [OF ok] s' by blast
  moreover have "set (ListNodes (Scheduler ?v)) = set (all_fds ?v)"
    using sched(2) server_okD(4) [OF ok] sets(2) by simp
  moreover have "wifi_ok (wifiServerITCP ?v)" "wifi_ok (wifiServerSPY ?v)"
    "MaxClientDeconnected (wifiServerVTCP ?v) = MaxClientDeconnected (wifiServerITCP ?v)"
    "\<not> ListInfoSelfManaged (wifiServerITCP ?v)" "ListInfoSelfManaged (wifiServerSPY ?v)"
    using ok sv by (cases b; simp add: server_ok_def put_server_def server_of_def)+
  ultimately show ?thesis
    using ok sched(1) unfolding server_ok_def ctrl by simp
qed

text \<open>A new client: a fresh open descriptor that is now watched.\<close>

lemma server_ok_join:
  assumes ok: "server_ok v s" and d: "d \<notin> set (open_fds s)"
    and sv: "wifi_ok sv" "descriptors sv = descriptors (server_of b v) @ [d]" "Master sv = Master (server_of b v)"
      "MaxClientDeconnected sv = MaxClientDeconnected (server_of b v)"
      "ListInfoSelfManaged sv = ListInfoSelfManaged (server_of b v)"
    and sched: "select_ok sched" "set (ListNodes sched) = insert d (set (ListNodes (Scheduler v)))"
    and s': "open_fds s' = d # open_fds s"
  shows "server_ok ((put_server b sv v)\<lparr>Scheduler := sched\<rparr>) s'"
proof -
  let ?v = "(put_server b sv v)\<lparr>Scheduler := sched\<rparr>"
  define xs ys where "xs = fds_before b v @ descriptors (server_of b v)" and "ys = fds_after b v"
  have split: "all_fds v = xs @ ys" "all_fds ?v = xs @ d # ys"
    using all_fds_split [of v b] all_fds_put [OF sv(3)] sv(2) by (simp_all add: xs_def ys_def)
  have ctrl: "ctrlServer ?v = ctrlServer v" by simp
  have new: "d \<notin> set (all_fds v @ descriptors (ctrlServer v))"
    using server_okD(6) [OF ok] d by blast
  have "distinct (all_fds ?v @ descriptors (ctrlServer v))"
    using server_okD(5) [OF ok] new unfolding split by auto
  moreover have "set (all_fds ?v @ descriptors (ctrlServer v)) \<subseteq> set (open_fds s')"
    using server_okD(6) [OF ok] s' unfolding split by auto
  moreover have "set (ListNodes (Scheduler ?v)) = set (all_fds ?v)"
    using sched(2) server_okD(4) [OF ok] unfolding split by auto
  moreover have "wifi_ok (wifiServerITCP ?v)" "wifi_ok (wifiServerSPY ?v)"
    "MaxClientDeconnected (wifiServerVTCP ?v) = MaxClientDeconnected (wifiServerITCP ?v)"
    "\<not> ListInfoSelfManaged (wifiServerITCP ?v)" "ListInfoSelfManaged (wifiServerSPY ?v)"
    using ok sv by (cases b; simp add: server_ok_def put_server_def server_of_def)+
  ultimately show ?thesis
    using ok sched(1) unfolding server_ok_def ctrl by simp
qed

section \<open>Forwarding keeps it\<close>

lemma RemoveClient_keeps:
  assumes ok: "server_ok v s" and r: "RemoveClient b i (fd (server_of b v) i) v s = Inr (v', s')"
  shows "server_ok v' s'" "ctrlServer v' = ctrlServer v"
proof -
  obtain sv sched where sv: "CloseClient i (server_of b v) s = Inr (sv, s')"
    and sched: "DelNode (fd (server_of b v) i) (Scheduler v) = Inr sched"
    and v': "v' = (put_server b sv v)\<lparr>Scheduler := sched\<rparr>"
    using r by (auto simp: RemoveClient_def rbind_Inr_iff Let_def)
  have i: "i < length (InfoSockets (server_of b v))" using CloseClient_shrinks [OF sv] by simp
  note w = server_okD(1) [OF ok, of b]
  have svf: "descriptors sv = erase i (descriptors (server_of b v))" "Master sv = Master (server_of b v)"
      "MaxClientDeconnected sv = MaxClientDeconnected (server_of b v)"
      "ListInfoSelfManaged sv = ListInfoSelfManaged (server_of b v)"
    and s': "set (open_fds s) - {fd (server_of b v) i} \<subseteq> set (open_fds s')"
    using CloseClient_Ok [OF w i, of s] sv by (auto simp: map_erase)
  show "server_ok v' s'"
    unfolding v'
    by (rule server_ok_remove [OF ok i CloseClient_wifi_ok [OF w sv] svf sel.del_keeps [OF server_okD(3) [OF ok] sched] s'])
  show "ctrlServer v' = ctrlServer v" by (simp add: v')
qed

lemma distributes_keeps:
  assumes "server_ok v s" and "distributes P (server_of b v, s) (sv, s')"
  shows "server_ok (put_server b sv v) s'"
  using distributes_wifi_ok [OF assms(2)] server_okD(1) [OF assms(1), of b]
  by (intro server_ok_put [OF assms(1)]) simp_all

lemma forward_keeps:
  assumes ok: "server_ok v s" and f: "forward parse b i pw data v s = Inr (v', s')"
  shows "server_ok v' s'" "ctrlServer v' = ctrlServer v"
proof -
  obtain src t dst where a: "(if \<not> b then SendAllOtherClients parse (Globals v) i pw data (server_of b v) s
        else SendAllOtherClientsWithoutLoss i pw data (server_of b v) s) = Inr (src, t)"
    and c: "SendAllClientsWithoutLoss pw data (server_of (\<not> b) (put_server b src v)) t = Inr (dst, s')"
    and v': "v' = put_server (\<not> b) dst (put_server b src v)"
    using f by (auto simp: forward_def rbind_Inr_iff Let_def)
  have "distributes (\<lambda>j. j \<noteq> i) (server_of b v, s) (src, t)"
    using a SendAllOtherClients_distributes SendAllOtherClientsWithoutLoss_distributes
    by (auto split: if_splits)
  then have "server_ok (put_server b src v) t" by (rule distributes_keeps [OF ok])
  then show "server_ok v' s'"
    unfolding v' using SendAllClientsWithoutLoss_distributes [OF c] by (rule distributes_keeps)
  show "ctrlServer v' = ctrlServer v" by (simp add: v')
qed

lemma ForwardData_body_keeps:
  assumes ok: "server_ok v s" and f: "ForwardData_body parse b i v s = Inr (removed, v', s')"
  shows "server_ok v' s' \<and> ctrlServer v' = ctrlServer v"
proof -
  have i: "i < length (InfoSockets (server_of b v))"
    using f by (auto simp: ForwardData_body_def GetSocketClient_def rbind_Inr_iff)
  let ?d = "fd (server_of b v) i"
  consider (off) "RemoveClient b i ?d v s = Inr (v', s')" | (idle) "v' = v" "s' = s"
    | (gone) valread pw buf t where "RecvSignalWithSocket ?d (RxBuffer v) s = Inr (valread, pw, buf, t)"
        "RemoveClient b i ?d (v\<lparr>RxBuffer := buf\<rparr>) t = Inr (v', s')"
    | (got) valread pw buf t p data where "RecvSignalWithSocket ?d (RxBuffer v) s = Inr (valread, pw, buf, t)"
        "forward parse b i p data (v\<lparr>RxBuffer := buf\<rparr>) t = Inr (v', s')"
    using f i by (auto simp: ForwardData_body_def rbind_Inr_iff Let_def split: if_splits option.splits)
  then show ?thesis
  proof cases
    case off
    with RemoveClient_keeps [OF ok] show ?thesis by simp
  next
    case idle
    with ok show ?thesis by simp
  next
    case (gone valread pw buf t)
    have "buf_ok buf \<and> read_from ?d s t"
      using RecvSignal_spec [OF server_okD(2) [OF ok], of ?d s] gone(1) by auto
    then have "server_ok (v\<lparr>RxBuffer := buf\<rparr>) t"
      by (intro server_ok_buffer [OF server_ok_os [OF ok]]) (auto simp: read_from_frame(3))
    from RemoveClient_keeps [OF this, of b i] gone(2) show ?thesis by simp
  next
    case (got valread pw buf t p data)
    have "buf_ok buf \<and> read_from ?d s t"
      using RecvSignal_spec [OF server_okD(2) [OF ok], of ?d s] got(1) by auto
    then have "server_ok (v\<lparr>RxBuffer := buf\<rparr>) t"
      by (intro server_ok_buffer [OF server_ok_os [OF ok]]) (auto simp: read_from_frame(3))
    from forward_keeps [OF this got(2)] show ?thesis by simp
  qed
qed

lemma ForwardData_loop_keeps:
  "server_ok v s \<Longrightarrow> ForwardData_loop parse b i v s = Inr (v', s') \<Longrightarrow>
   server_ok v' s' \<and> ctrlServer v' = ctrlServer v"
proof (induction parse b i v s arbitrary: v' s' rule: ForwardData_loop.induct)
  case (1 parse b i v s)
  show ?case
  proof (cases "i < GetNumberClient (server_of b v)")
    case False
    with 1 show ?thesis by (simp add: ForwardData_loop.simps [of parse b i v s])
  next
    case True
    then obtain removed w t where body: "ForwardData_body parse b i v s = Inr (removed, w, t)"
      and rest: "ForwardData_loop parse b (if removed then i else Suc i) w t = Inr (v', s')"
      using 1(3) by (auto simp: ForwardData_loop.simps [of parse b i v s] rbind_Inr_iff)
    note k = ForwardData_body_keeps [OF 1(2) body]
    from 1(1) [OF True body refl refl conjunct1 [OF k] rest] k show ?thesis by simp
  qed
qed

lemma ForwardData_keeps:
  assumes "server_inv (v, s)" and "ForwardData parse b v s = Inr st'"
  shows "server_inv st'"
proof -
  obtain v' s' where st': "st' = (v', s')" by (cases st')
  from assms ForwardData_loop_keeps [of v s parse b 0 v' s'] show ?thesis
    by (simp add: server_inv_def ForwardData_def st')
qed

section \<open>Accepting keeps it\<close>

lemma AddNode_fresh:
  assumes ok: "server_ok v s" and d: "d \<notin> set (open_fds s)" and a: "AddNode d (Scheduler v) = Inr sched"
  shows "select_ok sched" "set (ListNodes sched) = insert d (set (ListNodes (Scheduler v)))"
proof -
  have "d \<notin> set (ListNodes (Scheduler v))"
    using server_okD(4,6) [OF ok] d by auto
  from sel.add_keeps [OF server_okD(3) [OF ok] this a]
  show "select_ok sched" "set (ListNodes sched) = insert d (set (ListNodes (Scheduler v)))" by simp_all
qed

text \<open>What a successful accept gives, for either address family.\<close>

context accepting
begin

lemma CWifiServer_Accept_joined:
  assumes ok: "wifi_ok sv" and sub: "set (descriptors sv) \<subseteq> set (open_fds s)"
    and a: "CWifiServer_Accept vAccept sv s = Inr (d, sv', s')" and d: "d \<noteq> SOCKET_ERROR"
  shows "d \<notin> set (open_fds s)" "open_fds s' = d # open_fds s" "wifi_ok sv'"
    "\<exists>cid. sv' = rejoin cid d sv" "sent s' = sent s"
proof -
  obtain e c t where e: "vAccept (Master sv) s = (e, c, t)" by (cases "vAccept (Master sv) s")
  note eq = CWifiServer_Accept_eq [OF ok e]
  have ed: "e = d" "t = s'" "sv' = rejoin (the c) d sv" "the c = 0 \<or> TCID_GUEST_MIN \<le> the c"
    using a d unfolding eq by (auto split: if_splits)
  have f: "0 \<le> d" "d \<notin> set (open_fds s)" "open_fds s' = d # open_fds s" "sent s' = sent s"
    using accept_cases [OF e] d ed by auto
  then show "d \<notin> set (open_fds s)" "open_fds s' = d # open_fds s" "sent s' = sent s" by simp_all
  show "\<exists>cid. sv' = rejoin cid d sv" using ed by blast
  show "wifi_ok sv'"
    unfolding ed(3) by (rule rejoin_wifi_ok [OF ok _ f(1) ed(4)]) (use f(2) sub in blast)
qed

end

lemma join_keeps:
  assumes ok: "server_ok v s" and fresh: "d \<notin> set (open_fds s)" "open_fds s' = d # open_fds s"
    and w: "wifi_ok (rejoin cid d (server_of b v))" and a: "AddNode d (Scheduler v) = Inr sched"
  shows "server_ok ((put_server b (rejoin cid d (server_of b v)) v)\<lparr>Scheduler := sched\<rparr>) s'"
  by (rule server_ok_join [OF ok fresh(1) w _ _ _ _ AddNode_fresh [OF ok fresh(1) a] fresh(2)]) simp_all

lemma wifi_descriptors_open: "server_ok v s \<Longrightarrow> set (descriptors (server_of b v)) \<subseteq> set (open_fds s)"
  using server_okD(6) [of v s] by (auto simp: all_fds_split [of v b])

lemma accept_itcp_keeps:
  assumes inv: "server_inv (v, s)" and a: "accept_itcp v s = Inr st'"
  shows "server_inv st'"
proof -
  have ok: "server_ok v s" using inv by (simp add: server_inv_def)
  obtain d sv s' sched where acc: "CWifiServer_Accept (Accept_ITCP (HashUsesPort (Globals v))) (server_of False v) s = Inr (d, sv, s')"
    and d: "d \<noteq> SOCKET_ERROR" and n: "AddNode d (Scheduler v) = Inr sched"
    and st': "st' = ((put_server False sv v)\<lparr>Scheduler := sched\<rparr>, s')"
    using a by (auto simp: accept_itcp_def server_of_def put_server_def rbind_Inr_iff Let_def split: if_splits)
  note j = itcp.CWifiServer_Accept_joined [OF server_okD(1) [OF ok] wifi_descriptors_open [OF ok] acc d]
  obtain cid where "sv = rejoin cid d (server_of False v)" using j(4) by blast
  with join_keeps [OF ok j(1,2) _ n, of cid False] j(3) inv show ?thesis
    by (simp add: st' server_inv_def)
qed

lemma accept_spy_keeps:
  assumes inv: "server_inv (v, s)" and a: "accept_spy v s = Inr st'"
  shows "server_inv st'"
proof -
  have ok: "server_ok v s" using inv by (simp add: server_inv_def)
  obtain d sv s' sched where acc: "CWifiServer_Accept (Accept_ITCP (HashUsesPort (Globals v))) (server_of True v) s = Inr (d, sv, s')"
    and d: "d \<noteq> SOCKET_ERROR" and n: "AddNode d (Scheduler v) = Inr sched"
    and st': "st' = ((put_server True sv v)\<lparr>Scheduler := sched\<rparr>, s')"
    using a by (auto simp: accept_spy_def server_of_def put_server_def rbind_Inr_iff Let_def split: if_splits)
  note j = itcp.CWifiServer_Accept_joined [OF server_okD(1) [OF ok] wifi_descriptors_open [OF ok] acc d]
  obtain cid where "sv = rejoin cid d (server_of True v)" using j(4) by blast
  with join_keeps [OF ok j(1,2) _ n, of cid True] j(3) inv show ?thesis
    by (simp add: st' server_inv_def)
qed

text \<open>The VSOCK object works on the lists of the TCP object.\<close>

lemma vtcp_view_ok: "server_ok v s \<Longrightarrow> wifi_ok (vtcp_view v)"
  by (simp add: server_ok_def wifi_ok_def vtcp_view_def)

lemma same_cid_view: "same_cid cid (vtcp_view v) = same_cid cid (wifiServerITCP v)"
  by (simp add: fun_eq_iff same_cid_def vtcp_view_def)

lemma rejoin_view:
  "InfoSockets (rejoin cid d (vtcp_view v)) = InfoSockets (rejoin cid d (wifiServerITCP v))"
  "InfoWifis (rejoin cid d (vtcp_view v)) = InfoWifis (rejoin cid d (wifiServerITCP v))"
  "InfoWifisDeconnected (rejoin cid d (vtcp_view v)) = InfoWifisDeconnected (rejoin cid d (wifiServerITCP v))"
  unfolding rejoin_def same_cid_view
  by (simp_all add: vtcp_view_def join_as_def GetReferenceOnInfoWifiDeconnectedByCID_def split: option.splits)

lemma rejoin_lists:
  "sv\<lparr>InfoSockets := InfoSockets (rejoin cid d sv), InfoWifis := InfoWifis (rejoin cid d sv),
      InfoWifisDeconnected := InfoWifisDeconnected (rejoin cid d sv)\<rparr> = rejoin cid d sv"
  by (simp add: rejoin_def join_as_def split: option.splits)

lemma vtcp_put_rejoin:
  "vtcp_put (rejoin cid d (vtcp_view v)) v =
   put_server False (rejoin cid d (wifiServerITCP v)) (v\<lparr>wifiServerVTCP := rejoin cid d (vtcp_view v)\<rparr>)"
  by (simp add: vtcp_put_def put_server_def rejoin_view rejoin_lists)

lemma server_ok_vtcp:
  "server_ok v s \<Longrightarrow> Master x = Master (wifiServerVTCP v) \<Longrightarrow>
   MaxClientDeconnected x = MaxClientDeconnected (wifiServerVTCP v) \<Longrightarrow> server_ok (v\<lparr>wifiServerVTCP := x\<rparr>) s"
  by (simp add: server_ok_def all_fds_def masters_def)

lemma accept_vtcp_keeps:
  assumes inv: "server_inv (v, s)" and a: "accept_vtcp v s = Inr st'"
  shows "server_inv st'"
proof -
  have ok: "server_ok v s" using inv by (simp add: server_inv_def)
  obtain d sv s' sched where acc: "CWifiServer_Accept Accept_VTCP (vtcp_view v) s = Inr (d, sv, s')"
    and d: "d \<noteq> SOCKET_ERROR" and n: "AddNode d (Scheduler v) = Inr sched"
    and st': "st' = ((vtcp_put sv v)\<lparr>Scheduler := sched\<rparr>, s')"
    using a by (auto simp: accept_vtcp_def rbind_Inr_iff Let_def split: if_splits)
  have sub: "set (descriptors (vtcp_view v)) \<subseteq> set (open_fds s)"
    using wifi_descriptors_open [OF ok, of False] by (simp add: vtcp_view_def server_of_def)
  note j = vtcp.CWifiServer_Accept_joined [OF vtcp_view_ok [OF ok] sub acc d]
  obtain cid where sv: "sv = rejoin cid d (vtcp_view v)" using j(4) by blast
  define v1 where "v1 = v\<lparr>wifiServerVTCP := sv\<rparr>"
  have put: "vtcp_put sv v = put_server False (rejoin cid d (server_of False v1)) v1"
    by (simp add: vtcp_put_rejoin sv v1_def server_of_def)
  have ok1: "server_ok v1 s"
    unfolding v1_def by (rule server_ok_vtcp [OF ok]) (simp_all add: sv vtcp_view_def)
  have "MaxClientDeconnected (vtcp_view v) = MaxClientDeconnected (wifiServerITCP v)"
    using ok by (simp add: server_ok_def vtcp_view_def)
  then have "wifi_ok (rejoin cid d (server_of False v1)) = wifi_ok sv"
    by (simp add: sv v1_def server_of_def wifi_ok_def rejoin_view)
  then have w: "wifi_ok (rejoin cid d (server_of False v1))" using j(3) by simp
  have "AddNode d (Scheduler v1) = Inr sched" using n by (simp add: v1_def)
  from join_keeps [OF ok1 j(1,2) w this] inv show ?thesis
    by (simp add: st' put server_inv_def v1_def)
qed


section \<open>Orders keep it\<close>

text \<open>Reading and answering an order opens and closes nothing.\<close>

lemma CCTRL_Send_fds: "CCTRL_Send data v s = Inr (r, s') \<Longrightarrow> open_fds s' = open_fds s"
  by (auto simp: CCTRL_Send_def rbind_Inr_iff Send_frame(2))

lemma read_var_fds: "read_var n v s = Inr (x, s') \<Longrightarrow> open_fds s' = open_fds s"
  by (auto simp: read_var_def CCTRL_Read_def rbind_Inr_iff split: if_splits
      dest!: Read_read_from read_from_frame(3))

lemma send_all_fds: "send_all ds v s = Inr s' \<Longrightarrow> open_fds s' = open_fds s"
proof (induction ds arbitrary: s)
  case (Cons d ds)
  then obtain r t where t: "CCTRL_Send d v s = Inr (r, t)"
    and rest: "(if r = SOCKET_ERROR then Ok t else send_all ds v t) = Inr s'"
    by (auto simp: rbind_Inr_iff)
  have "open_fds s' = open_fds t" using rest Cons.IH [of t] by (auto split: if_splits)
  then show ?case using CCTRL_Send_fds [OF t] by simp
qed simp

lemma SendCInfoWifi_fds: "SendCInfoWifi w v s = Inr (ok, s') \<Longrightarrow> open_fds s' = open_fds s"
  unfolding SendCInfoWifi_def Let_def
  by (auto elim!: rbind_InrE split: if_splits) (metis CCTRL_Send_fds)+

lemma SendList_loop_fds: "SendList_loop sv js v s = Inr (ok, s') \<Longrightarrow> open_fds s' = open_fds s"
proof (induction js arbitrary: s)
  case (Cons j js)
  then consider "SendList_loop sv js v s = Inr (ok, s')"
    | w ok1 t where "SendCInfoWifi w v s = Inr (ok1, t)" "(if \<not> ok1 then Ok (False, t) else SendList_loop sv js v t) = Inr (ok, s')"
    by (auto simp: rbind_Inr_iff split: if_splits)
  then show ?case
  proof cases
    case 1
    then show ?thesis by (rule Cons.IH)
  next
    case 2
    then have "open_fds s' = open_fds t" using Cons.IH [of t] by (auto split: if_splits)
    with SendCInfoWifi_fds [OF 2(1)] show ?thesis by simp
  qed
qed simp

lemma SendList_of_fds: "SendList_of sv v s = Inr (ok, s') \<Longrightarrow> open_fds s' = open_fds s"
  by (auto simp: SendList_of_def rbind_Inr_iff Let_def split: if_splits dest!: CCTRL_Send_fds SendList_loop_fds)

lemma SendList_fds: "SendList v s = Inr s' \<Longrightarrow> open_fds s' = open_fds s"
  by (auto simp: SendList_def rbind_Inr_iff split: if_splits dest!: SendList_of_fds)

lemma SendDistance_fds: "SendDistance fpu v s = Inr s' \<Longrightarrow> open_fds s' = open_fds s"
  by (auto simp: SendDistance_def rbind_Inr_iff split: if_splits option.splits
      dest!: CCTRL_Send_fds read_var_fds send_all_fds simp del: send_all.simps)

lemma GetOrder_fds: "GetOrder v s = Inr (x, s') \<Longrightarrow> open_fds s' = open_fds s"
  by (auto simp: GetOrder_def rbind_Inr_iff split: if_splits option.splits dest!: read_var_fds)

text \<open>Moving and naming a client keep the lists well-formed.\<close>

lemma wifi_ok_update:
  assumes "wifi_ok sv" and "length W = length (InfoWifis sv)" and "length D \<le> MaxClientDeconnected sv"
    and "list_all info_ok W" and "list_all info_ok D"
  shows "wifi_ok (sv\<lparr>InfoWifis := W, InfoWifisDeconnected := D\<rparr>)"
  using assms by (simp add: wifi_ok_def)

lemma list_all_update: "list_all P xs \<Longrightarrow> P (f (xs ! i)) \<or> length xs \<le> i \<Longrightarrow> list_all P (xs[i := f (xs ! i)])"
  by (cases "i < length xs")
    (auto simp: list_all_iff list_update_beyond dest!: set_update_subset_insert [THEN subsetD])

lemma set_coo_at_ok: "list_all info_ok ws \<Longrightarrow> list_all info_ok (set_coo_at coo i ws)"
  unfolding set_coo_at_def by (rule list_all_update) (auto simp: list_all_length not_le)

lemma set_name_at_ok:
  "list_all info_ok ws \<Longrightarrow> CHR 0x00 \<notin> set name \<Longrightarrow> list_all info_ok (set_name_at name i ws)"
  unfolding set_name_at_def
  by (rule list_all_update) (auto simp: list_all_length not_le intro: info_ok_SetName)

lemma move_client_keeps:
  assumes ok: "wifi_ok sv" and m: "move_client cid coo sv = Inr sv'"
  shows "wifi_ok sv' \<and> InfoSockets sv' = InfoSockets sv \<and> Master sv' = Master sv \<and>
    MaxClientDeconnected sv' = MaxClientDeconnected sv \<and> ListInfoSelfManaged sv' = ListInfoSelfManaged sv"
proof -
  consider i where "sv' = sv\<lparr>InfoWifis := set_coo_at coo i (InfoWifis sv)\<rparr>"
    | i where "sv' = sv\<lparr>InfoWifisDeconnected := set_coo_at coo i (InfoWifisDeconnected sv)\<rparr>"
    | w where "info_ok w" "sv' = sv\<lparr>InfoWifisDeconnected := latest (MaxClientDeconnected sv) (InfoWifisDeconnected sv @ [w])\<rparr>"
    using m
    by (auto simp: move_client_def CInfoWifi_of_def rbind_Inr_iff AddInfoWifiDeconnected_Ok [OF ok]
        split: option.splits dest: info_ok_SetCid [OF CInfoWifi_raw_fields(4)])
  then show ?thesis
  proof cases
    case 1
    with ok show ?thesis by (simp add: wifi_ok_def set_coo_at_ok) (simp add: set_coo_at_def)
  next
    case 2
    with ok show ?thesis by (simp add: wifi_ok_def set_coo_at_ok) (simp add: set_coo_at_def)
  next
    case 3
    with ok show ?thesis by (auto simp: wifi_ok_def list_all_latest)
  qed
qed

lemma name_client_keeps:
  assumes ok: "server_ok v s" and "CHR 0x00 \<notin> set name"
  shows "server_ok (name_client cid name v) s \<and> ctrlServer (name_client cid name v) = ctrlServer v"
proof -
  have w: "wifi_ok (wifiServerITCP v)" "wifi_ok (wifiServerSPY v)" using ok by (simp_all add: server_ok_def)
  have len: "length (set_name_at name i ws) = length ws" for i ws by (simp add: set_name_at_def)
  have a: "wifi_ok ((wifiServerITCP v)\<lparr>InfoWifis := set_name_at name i (InfoWifis (wifiServerITCP v))\<rparr>)"
    "wifi_ok ((wifiServerITCP v)\<lparr>InfoWifisDeconnected := set_name_at name i (InfoWifisDeconnected (wifiServerITCP v))\<rparr>)"
    "wifi_ok ((wifiServerSPY v)\<lparr>InfoWifis := set_name_at name i (InfoWifis (wifiServerSPY v))\<rparr>)" for i
    using w assms(2) by (simp_all add: wifi_ok_def set_name_at_ok len)
  show ?thesis
    using ok a unfolding name_client_def Let_def
    by (auto simp: server_ok_def all_fds_def masters_def split: option.splits)
qed

text \<open>Closing every client.\<close>

lemma del_clients_eq: "del_clients sv sched = del_nodes DelNode (descriptors sv) sched"
proof -
  have "run_events (\<lambda>i sched. rbind (GetSocketClient i sv) (\<lambda>d. DelNode d sched)) js sched =
      del_nodes DelNode (map (fd sv) js) sched" if "\<forall>j \<in> set js. j < length (InfoSockets sv)" for js
    using that by (induction js arbitrary: sched) (auto cong: rbind_cong)
  from this [of "[0..<length (InfoSockets sv)]"]
  have "del_clients sv sched = del_nodes DelNode (map (fd sv) [0..<length (InfoSockets sv)]) sched"
    by (simp add: del_clients_def GetNumberClient_def)
  also have "map (fd sv) [0..<length (InfoSockets sv)] = descriptors sv"
    by (auto intro: nth_equalityI)
  finally show ?thesis .
qed

lemma enabled_subset: "enabled_descriptors sv \<subseteq> set (descriptors sv)"
  by (auto simp: enabled_descriptors_def)

lemma CCTRL_CloseAllClient_Ok:
  assumes ok: "server_ok v s"
  obtains itcp spy sched s' where
    "CCTRL_CloseAllClient v s = Ok (v\<lparr>Scheduler := sched, wifiServerITCP := itcp, wifiServerSPY := spy\<rparr>, s')"
    "InfoSockets itcp = []" "InfoWifis itcp = []" "InfoSockets spy = []" "InfoWifis spy = []"
    "server_ok (v\<lparr>Scheduler := sched, wifiServerITCP := itcp, wifiServerSPY := spy\<rparr>) s'"
    "set (ListNodes sched) = set (masters v)"
    "set (open_fds s') = set (open_fds s) - enabled_descriptors (wifiServerITCP v) - enabled_descriptors (wifiServerSPY v)"
    "InfoWifisDeconnected itcp = latest (MaxClientDeconnected (wifiServerITCP v))
       (InfoWifisDeconnected (wifiServerITCP v) @ InfoWifis (wifiServerITCP v))"
proof -
  have w: "wifi_ok (wifiServerITCP v)" "wifi_ok (wifiServerSPY v)" using ok by (simp_all add: server_ok_def)
  obtain sched1 where sched1: "del_clients (wifiServerITCP v) (Scheduler v) = Ok sched1" "select_ok sched1"
      "set (ListNodes sched1) = set (ListNodes (Scheduler v)) - set (descriptors (wifiServerITCP v))"
    using sel.del_nodes_ok [OF server_okD(3) [OF ok]] unfolding del_clients_eq by blast
  obtain sched2 where sched2: "del_clients (wifiServerSPY v) sched1 = Ok sched2" "select_ok sched2"
      "set (ListNodes sched2) = set (ListNodes sched1) - set (descriptors (wifiServerSPY v))"
    using sel.del_nodes_ok [OF sched1(2)] unfolding del_clients_eq by blast
  define I S where "I = (wifiServerITCP v)\<lparr>InfoSockets := [], InfoWifis := [], InfoWifisDeconnected :=
      latest (MaxClientDeconnected (wifiServerITCP v)) (InfoWifisDeconnected (wifiServerITCP v) @ InfoWifis (wifiServerITCP v))\<rparr>"
    and "S = (wifiServerSPY v)\<lparr>InfoSockets := [], InfoWifis := [], InfoWifisDeconnected :=
      latest (MaxClientDeconnected (wifiServerSPY v)) (InfoWifisDeconnected (wifiServerSPY v) @ InfoWifis (wifiServerSPY v))\<rparr>"
  obtain s1 where s1: "CloseAllClient (wifiServerITCP v) s = Ok (I, s1)"
      "set (open_fds s1) = set (open_fds s) - enabled_descriptors (wifiServerITCP v)"
    using CloseAllClient_Ok [OF w(1), of s] by (auto simp: I_def)
  obtain s2 where s2: "CloseAllClient (wifiServerSPY v) s1 = Ok (S, s2)"
      "set (open_fds s2) = set (open_fds s1) - enabled_descriptors (wifiServerSPY v)"
    using CloseAllClient_Ok [OF w(2), of s1] by (auto simp: S_def)
  let ?v = "v\<lparr>Scheduler := sched2, wifiServerITCP := I, wifiServerSPY := S\<rparr>"
  have run: "CCTRL_CloseAllClient v s = Ok (?v, s2)"
    using sched1(1) sched2(1) s1(1) s2(1) by (simp add: CCTRL_CloseAllClient_def)
  have all: "all_fds ?v = masters v" by (simp add: all_fds_def masters_def I_def S_def)
  have dist: "distinct (masters v @ descriptors (wifiServerITCP v) @ descriptors (wifiServerSPY v) @ descriptors (ctrlServer v))"
    using server_okD(5) [OF ok] by (simp add: all_fds_def)
  have "set (all_fds v) = set (masters v) \<union> set (descriptors (wifiServerITCP v)) \<union> set (descriptors (wifiServerSPY v))"
    by (simp add: all_fds_def Un_assoc)
  then have nodes: "set (ListNodes sched2) = set (masters v)"
    using sched1(3) sched2(3) server_okD(4) [OF ok] dist unfolding distinct_append set_append by blast
  have fds: "set (open_fds s2) = set (open_fds s) - enabled_descriptors (wifiServerITCP v) - enabled_descriptors (wifiServerSPY v)"
    using s1(2) s2(2) by simp
  have sub: "set (masters v @ descriptors (ctrlServer v)) \<subseteq> set (open_fds s)"
    using server_okD(6) [OF ok] by (auto simp: all_fds_def)
  have "set (masters v @ descriptors (ctrlServer v)) \<inter> set (descriptors (wifiServerITCP v)) = {}"
    "set (masters v @ descriptors (ctrlServer v)) \<inter> set (descriptors (wifiServerSPY v)) = {}"
    using dist unfolding distinct_append set_append by blast+
  then have "set (masters v @ descriptors (ctrlServer v)) \<subseteq> set (open_fds s2)"
    using sub fds enabled_subset [of "wifiServerITCP v"] enabled_subset [of "wifiServerSPY v"] by blast
  moreover have "distinct (masters v @ descriptors (ctrlServer v))"
    using dist unfolding distinct_append set_append by blast
  moreover have "wifi_ok I" "wifi_ok S"
    using w by (auto simp: I_def S_def wifi_ok_def list_all_latest)
  ultimately have "server_ok ?v s2"
    using ok sched2(2) nodes all by (simp add: server_ok_def I_def S_def)
  then show thesis
    by (rule that [OF run, rotated 4]) (use nodes fds in \<open>simp_all add: I_def S_def\<close>)
qed


definition order_keeps :: "server \<Rightarrow> os \<Rightarrow> (server \<times> os) result \<Rightarrow> bool" where
  "order_keeps v s m \<longleftrightarrow> (\<forall>v' s'. m = Inr (v', s') \<longrightarrow> server_ok v' s' \<and> ctrlServer v' = ctrlServer v)"

lemma order_keeps_answer:
  assumes "server_ok v s" and "\<And>s'. m = Inr s' \<Longrightarrow> open_fds s' = open_fds s"
  shows "order_keeps v s (rbind m (\<lambda>s. Ok (v, s)))"
  using assms server_ok_os by (auto simp: order_keeps_def rbind_Inr_iff)

lemma ChangeCoordinate_keeps:
  assumes ok: "server_ok v s"
  shows "order_keeps v s (ChangeCoordinate v s)"
  unfolding order_keeps_def
proof (intro allI impI)
  fix v' s' assume c: "ChangeCoordinate v s = Inr (v', s')"
  consider "v' = v" "open_fds s' = open_fds s"
    | cid coo sv where "move_client cid coo (wifiServerITCP v) = Inr sv" "v' = v\<lparr>wifiServerITCP := sv\<rparr>"
        "open_fds s' = open_fds s"
    using c by (auto simp: ChangeCoordinate_def rbind_Inr_iff Let_def split: option.splits if_splits dest!: read_var_fds)
  then show "server_ok v' s' \<and> ctrlServer v' = ctrlServer v"
  proof cases
    case 1
    with ok server_ok_os show ?thesis by auto
  next
    case 2
    have w: "wifi_ok (wifiServerITCP v)" using ok by (simp add: server_ok_def)
    note m = move_client_keeps [OF w 2(1)]
    have "server_ok (put_server False sv v) s'"
      by (rule server_ok_put [OF ok]) (use m 2(3) in \<open>auto simp: server_of_def\<close>)
    then show ?thesis using 2(2) by (simp add: put_server_def)
  qed
qed

lemma cstring_no_nul: "cstring data = Inr name \<Longrightarrow> CHR 0x00 \<notin> set name"
  by (auto simp: cstring_def rbind_Inr_iff dest: set_takeWhileD)

lemma CCTRL_SetName_keeps:
  assumes ok: "server_ok v s"
  shows "order_keeps v s (CCTRL_SetName v s)"
  unfolding order_keeps_def
proof (intro allI impI)
  fix v' s' assume c: "CCTRL_SetName v s = Inr (v', s')"
  consider "v' = v" "open_fds s' = open_fds s"
    | cid name data where "cstring data = Inr name" "v' = name_client cid name v" "open_fds s' = open_fds s"
    using c by (auto simp: CCTRL_SetName_def rbind_Inr_iff Let_def split: option.splits if_splits dest!: read_var_fds)
  then show "server_ok v' s' \<and> ctrlServer v' = ctrlServer v"
  proof cases
    case 1
    with ok server_ok_os show ?thesis by auto
  next
    case 2
    from name_client_keeps [OF ok cstring_no_nul [OF 2(1)], of cid] 2 server_ok_os show ?thesis by auto
  qed
qed

lemma server_ok_fds: "server_ok v s \<Longrightarrow> open_fds s' = open_fds s \<Longrightarrow> server_ok v s'"
  by (simp add: server_ok_os)

lemma ChangePacketLoss_keeps: "server_ok v s \<Longrightarrow> order_keeps v s (ChangePacketLoss v s)"
  by (auto simp: order_keeps_def ChangePacketLoss_def rbind_Inr_iff server_ok_globals
      split: option.splits dest!: read_var_fds) (metis server_ok_fds)+

lemma SetScale_keeps: "server_ok v s \<Longrightarrow> order_keeps v s (SetScale v s)"
  by (auto simp: order_keeps_def SetScale_def rbind_Inr_iff server_ok_globals
      split: option.splits dest!: read_var_fds) (metis server_ok_fds)+

lemma CCTRL_CloseAllClient_keeps: "server_ok v s \<Longrightarrow> order_keeps v s (CCTRL_CloseAllClient v s)"
  by (erule CCTRL_CloseAllClient_Ok) (simp add: order_keeps_def)

lemma execute_order_keeps:
  assumes "server_ok v s"
  shows "order_keeps v s (execute_order fpu order v s)"
proof (cases order)
  case None
  then show ?thesis using assms by (simp add: execute_order_def order_keeps_def)
next
  case (Some r)
  show ?thesis
    using assms unfolding Some
    by (cases r)
      (simp_all add: execute_order_def order_keeps_answer SendList_fds SendDistance_fds
        SendStatus_def SendShow_def send_all_fds ChangeCoordinate_keeps CCTRL_SetName_keeps ChangePacketLoss_keeps
        SetScale_keeps CCTRL_CloseAllClient_keeps del: send_all.simps, simp add: order_keeps_def)
qed

lemma server_ok_ctrl:
  assumes ok: "server_ok v s" and c: "Master c = Master (ctrlServer v)"
      "ListInfoSelfManaged c = ListInfoSelfManaged (ctrlServer v)"
    and d: "distinct (all_fds v @ descriptors c)" "set (all_fds v @ descriptors c) \<subseteq> set (open_fds s')"
  shows "server_ok (v\<lparr>ctrlServer := c\<rparr>) s'"
proof -
  have "all_fds (v\<lparr>ctrlServer := c\<rparr>) = all_fds v" by (simp add: all_fds_def masters_def c)
  with ok d c show ?thesis by (simp add: server_ok_def)
qed

lemma ReceiveOrder_keeps:
  assumes inv: "server_inv (v, s)" and r: "ReceiveOrder fpu v s = Inr st'"
  shows "server_inv st'"
proof -
  have ok: "server_ok v s" and none: "InfoSockets (ctrlServer v) = []" using inv by (simp_all add: server_inv_def)
  have fds: "distinct (all_fds v)" "set (all_fds v) \<subseteq> set (open_fds s)"
    using server_okD(5,6) [OF ok] by auto
  show ?thesis
  proof (cases rule: itcp.Accept_cid_cases [of "HashUsesPort (Globals v)" "ctrlServer v" s])
    case (failed c)
    with r inv show ?thesis by (auto simp: ReceiveOrder_def Accept_def)
  next
    case (accepted d c s1)
    define v1 where "v1 = v\<lparr>ctrlServer := (ctrlServer v)\<lparr>InfoSockets := [\<lparr>Descriptor = d, Enable = True\<rparr>]\<rparr>\<rparr>"
    have d: "d \<noteq> SOCKET_ERROR" using accepted(3) by (simp add: SOCKET_ERROR_def)
    obtain order s2 v3 s3 ctrl s4 where o: "GetOrder v1 s1 = Inr (order, s2)"
      and e: "execute_order fpu order v1 s2 = Inr (v3, s3)"
      and cl: "CSocketServer_CloseClient 0 (ctrlServer v3) s3 = Inr (ctrl, s4)"
      and st': "st' = (v3\<lparr>ctrlServer := ctrl\<rparr>, s4)"
      using r accepted(1) d none
      by (auto simp: ReceiveOrder_def Accept_def Let_def v1_def rbind_Inr_iff)
    have new: "d \<notin> set (all_fds v)" using fds accepted(4) by blast
    have "server_ok v1 s1"
      unfolding v1_def by (rule server_ok_ctrl [OF ok]) (use fds new accepted(5) in auto)
    then have "server_ok v1 s2" using GetOrder_fds [OF o] server_ok_os by simp
    from execute_order_keeps [OF this, of fpu order] e
    have ok3: "server_ok v3 s3" and c3: "ctrlServer v3 = ctrlServer v1" by (simp_all add: order_keeps_def)
    have i3: "InfoSockets (ctrlServer v3) = [\<lparr>Descriptor = d, Enable = True\<rparr>]" by (simp add: c3 v1_def)
    have ctrl: "ctrl = (ctrlServer v3)\<lparr>InfoSockets := []\<rparr>" and s4: "s4 = os_close d s3"
      using cl i3 by simp_all
    have "d \<notin> set (all_fds v3)" "distinct (all_fds v3)" "set (all_fds v3) \<subseteq> set (open_fds s3)"
      using server_okD(5,6) [OF ok3] i3 by auto
    then have "server_ok (v3\<lparr>ctrlServer := ctrl\<rparr>) s4"
      by (intro server_ok_ctrl [OF ok3]) (auto simp: ctrl s4)
    then show ?thesis by (simp add: st' server_inv_def ctrl)
  qed
qed

section \<open>Every reachable state has it\<close>

lemma server_turn_keeps:
  assumes inv: "server_inv st" and t: "server_turn parse fpu st = Inr st'"
  shows "server_inv st'"
proof -
  have ready: "server_inv y" if "server_inv x" "when_ready d act x = Inr y"
    "\<And>v s z. server_inv (v, s) \<Longrightarrow> act v s = Inr z \<Longrightarrow> server_inv z" for d act x y
    using that by (cases x) (auto simp: when_ready_def split: if_splits)
  obtain v where v: "v = fst st" by blast
  from t obtain a b c d e where
    a: "when_ready (Master (wifiServerVTCP v)) accept_vtcp st = Inr a" and
    b: "when_ready (Master (wifiServerITCP v)) accept_itcp a = Inr b" and
    c: "when_ready (Master (wifiServerSPY v)) accept_spy b = Inr c" and
    d: "when_ready (Master (ctrlServer v)) (ReceiveOrder fpu) c = Inr d" and
    e: "ForwardData parse False (fst d) (snd d) = Inr e" and
    f: "ForwardData parse True (fst e) (snd e) = Inr st'"
    by (auto simp: server_turn_def Let_def rbind_Inr_iff case_prod_beta v)
  have "server_inv a" by (rule ready [OF inv a accept_vtcp_keeps])
  then have "server_inv b" by (rule ready [OF _ b accept_itcp_keeps])
  then have "server_inv c" by (rule ready [OF _ c accept_spy_keeps])
  then have "server_inv d" by (rule ready [OF _ d ReceiveOrder_keeps])
  then have "server_inv e" using ForwardData_keeps [OF _ e] by simp
  then show ?thesis using ForwardData_keeps [OF _ f] by simp
qed

lemma server_iteration_keeps:
  assumes inv: "server_inv st" and t: "server_iteration parse fpu ev st = Inr st'"
  shows "server_inv st'"
proof -
  obtain v s where st: "st = (v, s)" by (cases st)
  obtain r sched where w: "Wait ev (Scheduler v) = (r, sched)" by (cases "Wait ev (Scheduler v)")
  have "select_ok sched = select_ok (Scheduler v)" "ListNodes sched = ListNodes (Scheduler v)"
    using Wait_fields [of ev "Scheduler v"] by (simp_all add: w)
  moreover have "all_fds (v\<lparr>Scheduler := sched\<rparr>) = all_fds v" "masters (v\<lparr>Scheduler := sched\<rparr>) = masters v"
    by (simp_all add: all_fds_def masters_def)
  ultimately have "server_inv (v\<lparr>Scheduler := sched\<rparr>, s)"
    using inv by (auto simp: st server_inv_def server_ok_def)
  moreover have "server_turn parse fpu (v\<lparr>Scheduler := sched\<rparr>, s) = Inr st'"
    using t by (auto simp: server_iteration_def st w Let_def rbind_Inr_iff split: if_splits)
  ultimately show ?thesis by (rule server_turn_keeps)
qed

interpretation turns: keeps server_inv "server_iteration parse fpu" for parse fpu
  by unfold_locales (rule server_iteration_keeps)


text \<open>The start: four fresh descriptors, all watched, nobody connected.\<close>

lemma Listen_ITCP_Ok:
  assumes "Listen_ITCP m p s = (True, m', s')"
  shows "m' \<notin> set (open_fds s)" "0 \<le> m'" "open_fds s' = m' # open_fds s" "(m', p) \<in> set (bound s')"
  using Listen_with_outcome(1) [OF assms [unfolded Listen_ITCP_def] Setup_open(1) Setup_bound(1)] by simp_all

lemma Listen_VTCP_Ok:
  assumes "Listen_VTCP m p s = (True, m', s')"
  shows "m' \<notin> set (open_fds s)" "0 \<le> m'" "open_fds s' = m' # open_fds s" "(m', p) \<in> set (bound s')"
  using Listen_with_outcome(1) [OF assms [unfolded Listen_VTCP_def] Setup_open(2) Setup_bound(2)] by simp_all

lemma or_exit_Inr: "or_exit r = Inr (x, s) \<longleftrightarrow> r = (True, x, s)"
  by (cases r) (auto simp: or_exit_def)

lemma CWifiServer_Listen_Inr:
  "CWifiServer_Listen vListen n sv s = (True, sv', s') \<longleftrightarrow>
   (\<exists>m. vListen (Master sv) (Port sv) s = (True, m, s') \<and> sv' = sv\<lparr>MaxClientDeconnected := n, Master := m\<rparr>)"
  by (auto simp: CWifiServer_Listen_def Let_def split: prod.splits if_splits)

lemma Listen_Inr:
  "Listen vListen sv s = (True, sv', s') \<longleftrightarrow>
   (\<exists>m. vListen (Master sv) (Port sv) s = (True, m, s') \<and> sv' = sv\<lparr>Master := m\<rparr>)"
  by (auto simp: Listen_def Let_def split: prod.splits)

lemma vwifi_server_start_inv:
  assumes "vwifi_server_start p g s = Inr st"
  shows "server_inv st"
proof -
  obtain b v sv i si y sy c sc s1 s2 s3 sched where b: "CDynBuffer_new = Inr b"
    and v: "Listen_VTCP 0 (Port_VHOST p) s = (True, v, sv)"
    and i: "Listen_ITCP 0 (Port_TCP p) sv = (True, i, si)"
    and y: "Listen_ITCP 0 (Port_Spy p) si = (True, y, sy)"
    and c: "Listen_ITCP 0 (Port_Ctrl p) sy = (True, c, sc)"
    and sched: "AddNode v CSelect_new = Inr s1" "AddNode i s1 = Inr s2" "AddNode y s2 = Inr s3" "AddNode c s3 = Inr sched"
    and st: "st = (\<lparr>wifiServerVTCP = (CWifiServer_new (Some ([], [], [])))\<lparr>Port := Port_VHOST p, MaxClientDeconnected := WIFI_MAX_DECONNECTED_CLIENT, Master := v\<rparr>,
        wifiServerITCP = (CWifiServer_new (Some ([], [], [])))\<lparr>Port := Port_TCP p, MaxClientDeconnected := WIFI_MAX_DECONNECTED_CLIENT, Master := i\<rparr>,
        wifiServerSPY = (CWifiServer_new None)\<lparr>Port := Port_Spy p, MaxClientDeconnected := 1, Master := y\<rparr>,
        ctrlServer = (CSocketServer_new None)\<lparr>Port := Port_Ctrl p, Master := c\<rparr>,
        Scheduler = sched, RxBuffer = b, Globals = g\<rparr>, sc)"
    using assms
    by (auto simp: vwifi_server_start_def rbind_Inr_iff or_exit_Inr CWifiServer_Listen_Inr Listen_Inr Init_def
        GetDescriptor_def CWifiServer_new_def CSocketServer_new_def CSocket_new_def CSocket.defs CSocketServer.defs
        DefaultValues_def SOCKET_ERROR_def)
  note fresh = Listen_VTCP_Ok(1,3) [OF v] Listen_ITCP_Ok(1,3) [OF i] Listen_ITCP_Ok(1,3) [OF y] Listen_ITCP_Ok(1,3) [OF c]
  have dist: "distinct [v, i, y, c]" using fresh by auto
  have 1: "select_ok s1" "set (ListNodes s1) = {v}"
    using sel.add_keeps [OF select_ok_new _ sched(1)] by (simp_all add: CSelect_new_def)
  have 2: "select_ok s2" "set (ListNodes s2) = {i, v}"
    using sel.add_keeps [OF 1(1) _ sched(2)] dist 1(2) by auto
  have 3: "select_ok s3" "set (ListNodes s3) = {y, i, v}"
    using sel.add_keeps [OF 2(1) _ sched(3)] dist 2(2) by auto
  have 4: "select_ok sched" "set (ListNodes sched) = {c, y, i, v}"
    using sel.add_keeps [OF 3(1) _ sched(4)] dist 3(2) by auto
  have "buf_ok b" using b CDynBuffer_new_ok by (metis sum.inject(2))
  with 4 dist fresh show ?thesis
    by (auto simp: st server_inv_def server_ok_def all_fds_def masters_def wifi_ok_def CWifiServer_new_def CSocketServer_new_def
        DefaultValues_def CSocket_new_def Init_def CSocket.defs CSocketServer.defs WIFI_MAX_DECONNECTED_CLIENT_def)
qed

lemma reachable_inv: "reachable parse fpu st \<Longrightarrow> server_inv st"
proof (induction rule: reachable.induct)
  case (start p g s st)
  then show ?case by (simp add: vwifi_server_start_inv)
next
  case (turn st ev st')
  then show ?case using server_iteration_keeps by blast
next
  case (network v s s')
  then show ?case by (auto simp: server_inv_def environment_def intro: server_ok_os)
qed

text \<open>The start succeeds when every call of the system does.\<close>

lemma Listen_calls_succeed:
  assumes "call_fails s = []"
  shows "Listen_ITCP m p s = (True, lowest_free (open_fds s),
      s\<lparr>open_fds := lowest_free (open_fds s) # open_fds s, bound := (lowest_free (open_fds s), p) # bound s\<rparr>)"
    and "Listen_VTCP m p s = (True, lowest_free (open_fds s),
      s\<lparr>open_fds := lowest_free (open_fds s) # open_fds s, bound := (lowest_free (open_fds s), p) # bound s\<rparr>)"
  using assms lowest_free_nonneg [of "open_fds s"]
  by (simp_all add: Listen_ITCP_def Listen_VTCP_def Listen_with_def Configure_def os_socket_def os_call_def Setup_ITCP_def
      Setup_VTCP_def os_bind_def SOCKET_ERROR_def Let_def)

lemma AddNode_watched:
  assumes "select_ok s" and "d \<notin> set (ListNodes s)" and "0 \<le> d" and "d < FD_SETSIZE"
  obtains s' where "AddNode d s = Ok s'" "select_ok s'" "set (ListNodes s') = insert d (set (ListNodes s))"
  using AddNode_ok [OF assms] by blast

lemma vwifi_server_start_Ok:
  assumes calls: "call_fails s = []" and room: "length (open_fds s) + 4 \<le> nat FD_SETSIZE"
  obtains v s' where "vwifi_server_start p g s = Ok (v, s')" "Globals v = g" "InfoSockets (wifiServerITCP v) = []"
    "(Master (wifiServerVTCP v), Port_VHOST p) \<in> set (bound s')" "(Master (wifiServerITCP v), Port_TCP p) \<in> set (bound s')"
    "(Master (wifiServerSPY v), Port_Spy p) \<in> set (bound s')" "(Master (ctrlServer v), Port_Ctrl p) \<in> set (bound s')"
proof -
  define a where "a = lowest_free (open_fds s)"
  define b where "b = lowest_free (a # open_fds s)"
  define c where "c = lowest_free (b # a # open_fds s)"
  define d where "d = lowest_free (c # b # a # open_fds s)"
  note ds = a_def b_def c_def d_def
  note calls' = Listen_calls_succeed
  have ge: "0 \<le> a" "0 \<le> b" "0 \<le> c" "0 \<le> d" by (simp_all add: ds lowest_free_nonneg)
  have lt: "a < FD_SETSIZE" "b < FD_SETSIZE" "c < FD_SETSIZE" "d < FD_SETSIZE"
    using room lowest_free_bound [of "open_fds s"] lowest_free_bound [of "a # open_fds s"]
      lowest_free_bound [of "b # a # open_fds s"] lowest_free_bound [of "c # b # a # open_fds s"]
    by (simp_all add: FD_SETSIZE_def flip: ds)
  note lt = lt ge
  have ne: "b \<noteq> a" "c \<notin> {b, a}" "d \<notin> {c, b, a}"
    using lowest_free_fresh [of "a # open_fds s"] lowest_free_fresh [of "b # a # open_fds s"]
      lowest_free_fresh [of "c # b # a # open_fds s"] by (auto simp flip: ds)
  obtain s1 where 1: "AddNode a CSelect_new = Ok s1" "select_ok s1" "set (ListNodes s1) = {a}"
    using AddNode_watched [OF select_ok_new, of a] lt by (auto simp: CSelect_new_def)
  obtain s2 where 2: "AddNode b s1 = Ok s2" "select_ok s2" "set (ListNodes s2) = {b, a}"
    using AddNode_watched [OF 1(2), of b] lt ne 1(3) by auto
  obtain s3 where 3: "AddNode c s2 = Ok s3" "select_ok s3" "set (ListNodes s3) = {c, b, a}"
    using AddNode_watched [OF 2(2), of c] lt ne 2(3) by auto
  obtain s4 where 4: "AddNode d s3 = Ok s4"
    using AddNode_ok [OF 3(2), of d] lt ne 3(3) by auto
  obtain buf where buf: "CDynBuffer_new = Ok buf" using CDynBuffer_new_ok by blast
  show thesis
    by (rule that)
      (simp add: vwifi_server_start_def buf CWifiServer_Listen_def Listen_def or_exit_def calls calls' Let_def GetDescriptor_def
        1 2 3 4 flip: ds, simp_all add: Init_def CWifiServer_new_def CSocketServer_new_def CSocket_new_def
        CSocket.defs CSocketServer.defs DefaultValues_def)
qed

section \<open>Properties\<close>

text \<open>
  C1: every state that the server can reach, from any successful start, through any number of turns
  of the main loop and whatever the network delivers, accepts or refuses in between, satisfies the
  invariant: parallel client lists of the same length, no more remembered clients than allowed,
  pairwise different open descriptors, a scheduler that watches exactly the listening sockets and
  the clients, no control client left over, an allocated receive buffer.
\<close>

theorem reachable_server_inv:
  assumes "reachable genlmsg_parse fpu (v, s)"
  shows "server_inv (v, s)"
  using assms by (rule reachable_inv)

theorem reachable_server_inv_witness:
  "\<exists>v s. reachable (\<lambda>_. Parsed None) (\<lambda>_. 0) (v, s) \<and> server_inv (v, s)"
proof -
  have "call_fails os_start = []" "length (open_fds os_start) + 4 \<le> nat FD_SETSIZE"
    by (simp_all add: os_start_def FD_SETSIZE_def)
  from vwifi_server_start_Ok [OF this, of default_ports globals_new]
  obtain v s where "vwifi_server_start default_ports globals_new os_start = Ok (v, s)" .
  from reachable.start [OF this] have "reachable (\<lambda>_. Parsed None) (\<lambda>_. 0) (v, s)" .
  with reachable_server_inv [OF this] show ?thesis by blast
qed

text \<open>
  C27: when every system call succeeds and at most 1020 descriptors are open, the server starts:
  its four sockets are bound to the four configured ports, in the order VSOCK, TCP, spy, control,
  and nobody is connected.
\<close>

theorem server_starts:
  assumes "call_fails s = []" and "length (open_fds s) + 4 \<le> nat FD_SETSIZE"
  shows "\<exists>v s'. vwifi_server_start p g s = Ok (v, s') \<and> Globals v = g \<and> InfoSockets (wifiServerITCP v) = [] \<and>
    (Master (wifiServerVTCP v), Port_VHOST p) \<in> set (bound s') \<and> (Master (wifiServerITCP v), Port_TCP p) \<in> set (bound s') \<and>
    (Master (wifiServerSPY v), Port_Spy p) \<in> set (bound s') \<and> (Master (ctrlServer v), Port_Ctrl p) \<in> set (bound s') \<and>
    distinct (masters v)"
proof -
  obtain v s' where v: "vwifi_server_start p g s = Ok (v, s')" "Globals v = g" "InfoSockets (wifiServerITCP v) = []"
    "(Master (wifiServerVTCP v), Port_VHOST p) \<in> set (bound s')" "(Master (wifiServerITCP v), Port_TCP p) \<in> set (bound s')"
    "(Master (wifiServerSPY v), Port_Spy p) \<in> set (bound s')" "(Master (ctrlServer v), Port_Ctrl p) \<in> set (bound s')"
    by (rule vwifi_server_start_Ok [OF assms])
  have "distinct (masters v)"
    using vwifi_server_start_inv [OF v(1)] by (simp add: server_inv_def server_ok_def all_fds_def)
  with v show ?thesis by blast
qed

theorem server_starts_witness:
  "\<exists>v s'. vwifi_server_start default_ports globals_new os_start = Ok (v, s') \<and>
     (Master (wifiServerVTCP v), 8211) \<in> set (bound s')"
  using server_starts [of os_start default_ports globals_new]
  by (auto simp: os_start_def FD_SETSIZE_def default_ports_def DEFAULT_WIFI_CLIENT_PORT_VHOST_def)

end
