(* ===== verification/Vwifi_Protocol.thy ===== *)
theory Vwifi_Protocol
  imports Vwifi_Ctrl Vwifi_Invariant
begin

text \<open>
  The control protocol, both sides together: what \<^verbatim>\<open>vwifi-ctrl\<close> writes is what the server reads,
  and what the server answers is what \<^verbatim>\<open>vwifi-ctrl\<close> prints. The connection is a healthy one: every
  \<^verbatim>\<open>send\<close> takes the whole buffer, and each message arrives as one segment. (On a byte stream a
  message may be cut; both programs then go on with a partly initialised variable, which the models
  show as undefined behaviour.)
\<close>

section \<open>A server that answers\<close>

text \<open>The messages sent between two states of the system.\<close>

definition said :: "os \<Rightarrow> os \<Rightarrow> byte list list" where
  "said s s' = map snd (drop (length (sent s)) (sent s'))"

definition reply :: "TDescriptor \<Rightarrow> byte list list \<Rightarrow> os \<Rightarrow> os" where
  "reply d ms s = s\<lparr>sent := sent s @ map (Pair d) ms\<rparr>"

lemma reply_fields [simp]:
  "rx (reply d ms s) = rx s" "tx (reply d ms s) = tx s" "open_fds (reply d ms s) = open_fds s"
  "sent (reply d ms s) = sent s @ map (Pair d) ms" "pending (reply d ms s) = pending s"
  by (simp_all add: reply_def)

lemma reply_reply [simp]: "reply d ms' (reply d ms s) = reply d (ms @ ms') s" "reply d [] s = s"
  by (simp_all add: reply_def)

text \<open>The one control client, and that it is there and takes what is sent.\<close>

definition client :: "server \<Rightarrow> TDescriptor" where
  "client v = Descriptor (hd (InfoSockets (ctrlServer v)))"

definition answering :: "server \<Rightarrow> os \<Rightarrow> bool" where
  "answering v s \<longleftrightarrow> InfoSockets (ctrlServer v) = [\<lparr>Descriptor = client v, Enable = True\<rparr>] \<and> tx s (client v) = []"

lemma answering_reply [simp]: "answering v (reply d ms s) = answering v s"
  by (simp add: answering_def)

lemma CCTRL_Send_healthy [simp]:
  "answering v s \<Longrightarrow> CCTRL_Send data v s = Ok (int (length data), reply (client v) [data] s)"
  by (simp add: answering_def CCTRL_Send_def GetSocketClient_def assertion_def nth_r_def Send_def os_send_def reply_def)

lemma send_all_healthy:
  "answering v s \<Longrightarrow> send_all ms v s = Ok (reply (client v) ms s)"
  by (induction ms arbitrary: s) (simp_all add: SOCKET_ERROR_def)

text \<open>The messages of one identity, and of a list.\<close>

definition info_msgs :: "CInfoWifi \<Rightarrow> byte list list" where
  "info_msgs w = [put_word (Cid w), put_coo w, put_word (word_of_nat (length (Name w)) :: 32 word)] @
     (if Name w = [] then [] else [Name w @ [CHR 0x00]])"

lemma SendCInfoWifi_healthy:
  assumes "answering v s" and "info_ok w"
  shows "SendCInfoWifi w v s = Ok (True, reply (client v) (info_msgs w) s)"
  using assms
  by (simp add: SendCInfoWifi_def SOCKET_ERROR_def GetSizeName_def Let_def defined_def info_ok_def info_msgs_def)

lemma SendList_loop_healthy:
  assumes "answering v s" and "wifi_ok sv" and "\<forall>j \<in> set js. j < length (InfoSockets sv) \<and> Enable (InfoSockets sv ! j)"
  shows "SendList_loop sv js v s = Ok (True, reply (client v) (concat (map (\<lambda>j. info_msgs (InfoWifis sv ! j)) js)) s)"
  using assms
proof (induction js arbitrary: s)
  case (Cons j js)
  have "info_ok (InfoWifis sv ! j)" using Cons.prems(2,3) by (simp add: wifi_ok_def list_all_length)
  with Cons show ?case
    by (simp add: GetReferenceOnInfoWifiByIndex_def GetNumberClient_def assertion_def nth_r_def SendCInfoWifi_healthy wifi_ok_def)
qed simp

definition list_msgs :: "CWifiServer \<Rightarrow> byte list list" where
  "list_msgs sv = put_word (word_of_nat (length (InfoWifis sv)) :: 32 word) # concat (map info_msgs (InfoWifis sv))"

lemma SendList_of_healthy:
  assumes "answering v s" and "wifi_ok sv" and "list_all Enable (InfoSockets sv)"
  shows "SendList_of sv v s = Ok (True, reply (client v) (list_msgs sv) s)"
proof -
  have len: "length (InfoSockets sv) = length (InfoWifis sv)" using assms(2) by (simp add: wifi_ok_def)
  then have "map (\<lambda>j. info_msgs (InfoWifis sv ! j)) [0..<length (InfoSockets sv)] = map info_msgs (InfoWifis sv)"
    by (intro nth_equalityI) simp_all
  then show ?thesis
    using assms len
    by (simp add: SendList_of_def Let_def GetNumberClient_def SendList_loop_healthy list_all_length SOCKET_ERROR_def list_msgs_def)
qed

lemma SendList_healthy:
  assumes "answering v s" and "wifi_ok (wifiServerSPY v)" "list_all Enable (InfoSockets (wifiServerSPY v))"
    and "wifi_ok (wifiServerITCP v)" "list_all Enable (InfoSockets (wifiServerITCP v))"
  shows "SendList v s = Ok (reply (client v) (list_msgs (wifiServerSPY v) @ list_msgs (wifiServerITCP v)) s)"
  using assms by (simp add: SendList_def SendList_of_healthy)

section \<open>A server that receives an order\<close>

definition hear :: "server \<Rightarrow> byte list list \<Rightarrow> os \<Rightarrow> os" where
  "hear v segs s = s\<lparr>rx := (rx s)(client v := segs)\<rparr>"

lemma hear_fields [simp]:
  "rx (hear v segs s) (client v) = segs" "tx (hear v segs s) = tx s" "sent (hear v segs s) = sent s"
  "open_fds (hear v segs s) = open_fds s" "answering v (hear v segs s) = answering v s"
  by (simp_all add: hear_def answering_def)

lemma read_var_segment [simp]:
  assumes "answering v s" and "rx s (client v) = data # segs" and "length data \<le> n" and "0 < length data"
  shows "read_var n v s = Ok (Some data, hear v segs s)"
  using assms
  by (auto simp: answering_def read_var_def CCTRL_Read_def GetSocketClient_def assertion_def nth_r_def Read_def os_recv_def
      hear_def SOCKET_ERROR_def)

lemma whole_length [simp]: "length data = n \<Longrightarrow> whole n data = Ok data"
  by (simp add: whole_def defined_def)

lemma order_of_code [simp]: "order_of (order_code r) = Some r"
  by (cases r) (simp_all add: order_of_def)

definition with_client :: "TDescriptor \<Rightarrow> server \<Rightarrow> server" where
  "with_client d v = v\<lparr>ctrlServer := (ctrlServer v)\<lparr>InfoSockets := [\<lparr>Descriptor = d, Enable = True\<rparr>]\<rparr>\<rparr>"

lemma with_client_fields [simp]:
  "wifiServerVTCP (with_client d v) = wifiServerVTCP v" "wifiServerITCP (with_client d v) = wifiServerITCP v"
  "wifiServerSPY (with_client d v) = wifiServerSPY v" "Scheduler (with_client d v) = Scheduler v"
  "RxBuffer (with_client d v) = RxBuffer v" "Globals (with_client d v) = Globals v"
  "client (with_client d v) = d" "(with_client d v)\<lparr>ctrlServer := ctrlServer v\<rparr> = v"
  "ctrlServer (with_client d v) = (ctrlServer v)\<lparr>InfoSockets := [\<lparr>Descriptor = d, Enable = True\<rparr>]\<rparr>"
  by (simp_all add: with_client_def client_def)

lemma hear_client [simp]: "rx (hear (with_client d v) segs s) d = segs" "hear w b (hear w a s) = hear w b s"
  using hear_fields(1) [of "with_client d v" segs s] by (simp_all add: hear_def)

lemma answering_client: "answering (with_client d v) s \<longleftrightarrow> tx s d = []"
  by (simp add: answering_def)

text \<open>The next control client of the server is a healthy one on whose connection \<open>ms\<close> arrives.\<close>

definition next_client :: "server \<Rightarrow> os \<Rightarrow> byte list list \<Rightarrow> bool" where
  "next_client v s ms \<longleftrightarrow>
     (\<exists>c cs. pending s (Master (ctrlServer v)) = c # cs \<and> segments c = ms \<and> outcomes c = [])"

text \<open>Receiving one order: accepting, reading its number, executing it, closing the connection.\<close>

lemma ReceiveOrder_order:
  assumes none: "InfoSockets (ctrlServer v) = []" and n: "next_client v s (put_order r # segs)"
    and e: "\<And>d s1. answering (with_client d v) s1 \<Longrightarrow> rx s1 d = segs \<Longrightarrow> d \<notin> set (open_fds s) \<Longrightarrow>
      open_fds s1 = d # open_fds s \<Longrightarrow> sent s1 = sent s \<Longrightarrow>
      \<exists>v2 s2. execute_order fpu (Some r) (with_client d v) s1 = Ok (v2, s2) \<and>
        ctrlServer v2 = ctrlServer (with_client d v) \<and> P (v2\<lparr>ctrlServer := ctrlServer v\<rparr>) (os_close d s2)"
  shows "\<exists>v' s'. ReceiveOrder fpu v s = Ok (v', s') \<and> P v' s'"
proof -
  from n obtain c cs where p: "pending s (Master (ctrlServer v)) = c # cs" "segments c = put_order r # segs" "outcomes c = []"
    unfolding next_client_def by blast
  define d where "d = lowest_free (open_fds s)"
  define s0 where "s0 = s\<lparr>pending := (pending s)(Master (ctrlServer v) := cs), open_fds := d # open_fds s,
     rx := (rx s)(d := segments c), tx := (tx s)(d := outcomes c)\<rparr>"
  let ?v = "with_client d v"
  have d: "0 \<le> d" "d \<notin> set (open_fds s)" by (simp_all add: d_def lowest_free_nonneg lowest_free_fresh)
  have acc: "Accept (Accept_ITCP (HashUsesPort (Globals v))) (ctrlServer v) s = Ok (d, ctrlServer ?v, s0)"
    using p none d
    by (simp add: Accept_def Accept_cid_def Accept_ITCP_def os_accept_def Let_def s0_def CInfoSocket_of_eq SOCKET_ERROR_def
        flip: d_def)
  have ans: "answering ?v s0" using p by (simp add: answering_client s0_def)
  have "rx s0 (client ?v) = put_order r # segs" using p by (simp add: s0_def)
  then have ord: "GetOrder ?v s0 = Ok (Some r, hear ?v segs s0)"
    using ans by (simp add: GetOrder_def GetNumberClient_def put_order_def)
  obtain v2 s2 where x: "execute_order fpu (Some r) ?v (hear ?v segs s0) = Ok (v2, s2)" "ctrlServer v2 = ctrlServer ?v"
    "P (v2\<lparr>ctrlServer := ctrlServer v\<rparr>) (os_close d s2)"
    using e [of d "hear ?v segs s0"] ans d by (auto simp: hear_def answering_client s0_def)
  have "(ctrlServer v)\<lparr>InfoSockets := []\<rparr> = ctrlServer v" using none by simp
  then have "ReceiveOrder fpu v s = Ok (v2\<lparr>ctrlServer := ctrlServer v\<rparr>, os_close d s2)"
    using x(1,2) d acc ord by (simp add: ReceiveOrder_def Let_def SOCKET_ERROR_def erase_def flip: with_client_def)
  with x(3) show ?thesis by blast
qed

section \<open>A session of the control program\<close>

lemma abind_simps [simp]:
  "m s = Ok (Inr x, s') \<Longrightarrow> abind m f s = f x s'"
  "m s = Ok (Inl n, s') \<Longrightarrow> abind m f s = Ok (Inl n, s')"
  by (simp_all add: abind_def)

definition chat :: "session \<Rightarrow> bool" where
  "chat s \<longleftrightarrow> IsConnected (Sock s) \<and> tx (Net s) (Master (Sock s)) = []"

definition incoming :: "session \<Rightarrow> byte list list" where
  "incoming s = rx (Net s) (Master (Sock s))"

definition tell :: "byte list \<Rightarrow> session \<Rightarrow> session" where
  "tell data s = s\<lparr>Net := reply (Master (Sock s)) [data] (Net s)\<rparr>"

definition got :: "byte list list \<Rightarrow> session \<Rightarrow> session" where
  "got segs s = s\<lparr>Net := (Net s)\<lparr>rx := (rx (Net s))(Master (Sock s) := segs)\<rparr>\<rparr>"

definition printed :: "item list \<Rightarrow> session \<Rightarrow> session" where
  "printed items s = s\<lparr>Stdout := Stdout s @ items\<rparr>"

lemma session_fields [simp]:
  "chat (tell data s) = chat s" "chat (got segs s) = chat s" "chat (printed items s) = chat s"
  "incoming (tell data s) = incoming s" "incoming (got segs s) = segs" "incoming (printed items s) = incoming s"
  "Stdout (tell data s) = Stdout s" "Stdout (got segs s) = Stdout s" "Stdout (printed items s) = Stdout s @ items"
  "Sock (tell data s) = Sock s" "Sock (got segs s) = Sock s" "Sock (printed items s) = Sock s"
  "sent (Net (tell data s)) = sent (Net s) @ [(Master (Sock s), data)]" "sent (Net (got segs s)) = sent (Net s)"
  "sent (Net (printed items s)) = sent (Net s)" "open_fds (Net (tell data s)) = open_fds (Net s)"
  "open_fds (Net (got segs s)) = open_fds (Net s)" "open_fds (Net (printed items s)) = open_fds (Net s)"
  "dials (Net (tell data s)) = dials (Net s)" "dials (Net (got segs s)) = dials (Net s)"
  "dials (Net (printed items s)) = dials (Net s)"
  by (simp_all add: chat_def incoming_def tell_def got_def printed_def reply_def)

lemma got_got [simp]: "got b (got a s) = got b s"
  by (simp add: got_def)

lemma act_steps [simp]:
  "act_return x s = Ok (Inr x, s)" "act_exit n s = Ok (Inl n, s)" "act_print items s = Ok (Inr (), printed items s)"
  "act_lift (Inr y) s = Ok (Inr y, s)" "act_lift (Inl e) s = Inl e"
  by (simp_all add: act_return_def act_exit_def act_print_def act_lift_def printed_def)

lemma act_send_healthy [simp]: "chat s \<Longrightarrow> act_send data s = Ok (Inr (), tell data s)"
  by (simp add: act_send_def chat_def CSocketClient_Send_def Send_def os_send_def tell_def reply_def SOCKET_ERROR_def)

lemma act_read_segment [simp]:
  assumes "chat s" and "incoming s = data # segs" and "length data = n" and "0 < n"
  shows "act_read n s = Ok (Inr data, got segs s)"
  using assms
  by (auto simp: act_read_def chat_def incoming_def CSocketClient_Read_def Read_def os_recv_def got_def SOCKET_ERROR_def)

lemma read_new_segment [simp]:
  assumes "chat s" and "incoming s = data # segs" and "length data = n" and "0 < n"
  shows "read_new n s = Ok (Inr data, got segs s)"
  using assms by (simp add: read_new_def)

lemma read_bool_segment [simp]:
  "chat s \<Longrightarrow> incoming s = put_bool b # segs \<Longrightarrow> read_bool s = Ok (Inr b, got segs s)"
  by (cases b) (simp_all add: read_bool_def defined_def)

lemma act_line_step [simp]:
  "act_line str s = Ok (Inr (), printed [Text (str @ [CHR 0x0A])] s)"
  "act_line_real str x s = Ok (Inr (), printed [Text str, Real x, Text [CHR 0x0A]] s)"
  by (simp_all add: act_line_def act_line_real_def)

text \<open>The identity that was sent is the identity that is read.\<close>

lemma word_of_length_name:
  assumes "n \<le> MAX_SIZE_NAME"
  shows "sint (word_of_nat n :: 32 word) = int n"
proof -
  have n: "n < 2 ^ 31" using assms by (simp add: MAX_SIZE_NAME_def)
  then have "unat (word_of_nat n :: 32 word) = n" by (simp add: unat_of_nat take_bit_nat_eq_self)
  then have "uint (word_of_nat n :: 32 word) = int n" by (metis uint_nat)
  with n show ?thesis by (simp add: sint_uint signed_take_bit_int_eq_self)
qed

lemma GetCInfoWifi_msgs:
  assumes "info_ok w" and "chat s" and "incoming s = info_msgs w @ segs"
  shows "GetCInfoWifi info s = Ok (Inr w, got segs s)"
proof -
  have len: "length (Name w) \<le> MAX_SIZE_NAME" "CHR 0x00 \<notin> set (Name w)" "Cid w = 0 \<or> TCID_GUEST_MIN \<le> Cid w"
    using assms(1) by (simp_all add: info_ok_def)
  have "takeWhile (\<lambda>c. c \<noteq> CHR 0x00) (Name w @ [CHR 0x00]) = Name w"
    using len(2) by (subst takeWhile_append2) auto
  then have "rbind (SetCid (Cid w) info) (\<lambda>infoWifi. rbind (cstring (Name w @ [CHR 0x00]))
      (\<lambda>name. Ok (Vwifi_Infos.SetName name (SetCoo (coo_of w) infoWifi)))) = Ok w"
    using len by (simp add: SetCid_def assertion_def cstring_def defined_def Vwifi_Infos.SetName_def set_coo_defs coo_of_def)
  then show ?thesis
    using assms len by (cases "Name w = []") (simp_all add: GetCInfoWifi_def info_msgs_def word_of_length_name overlay_def)
qed

lemma AskList_loop_msgs:
  assumes "list_all info_ok ws" and "chat s" and "incoming s = concat (map info_msgs ws) @ segs"
  shows "\<exists>info' s'. AskList_loop show (length ws) info s = Ok (Inr info', s') \<and> chat s' \<and> incoming s' = segs \<and>
    Sock s' = Sock s \<and> sent (Net s') = sent (Net s) \<and> open_fds (Net s') = open_fds (Net s) \<and>
    dials (Net s') = dials (Net s) \<and> Stdout s' = Stdout s @ map (\<lambda>w. Text (show w @ [CHR 0x0A])) ws"
  using assms
proof (induction ws arbitrary: info s)
  case (Cons w ws)
  let ?segs = "concat (map info_msgs ws) @ segs"
  let ?s = "printed [Text (show w @ [CHR 0x0A])] (got ?segs s)"
  have "returned info (GetCInfoWifi info) s = Ok (Inr (0, w), got ?segs s)"
    using GetCInfoWifi_msgs [of w s ?segs info] Cons.prems by (simp add: returned_def)
  then have step: "AskList_loop show (length (w # ws)) info s = AskList_loop show (length ws) w ?s"
    by (simp add: SOCKET_ERROR_def)
  show ?case
    unfolding step using Cons.IH [of ?s w] Cons.prems by simp
qed simp

lemma CInfoWifi_default_Ok: "\<exists>w. CInfoWifi_default = Ok w"
  by (simp add: CInfoWifi_default_def SetCid_def assertion_def)

text \<open>
  What a session does with a healthy connection on which the segments \<open>segs\<close> arrive: its exit code,
  the messages it sends, what it prints; its descriptor is closed at the end.
\<close>

definition performs :: "unit act \<Rightarrow> byte list list \<Rightarrow> int \<Rightarrow> byte list list \<Rightarrow> item list \<Rightarrow> bool" where
  "performs body segs n msgs items \<longleftrightarrow>
     (\<forall>s. chat s \<longrightarrow> incoming s = segs \<longrightarrow> 0 \<le> Master (Sock s) \<longrightarrow>
        (\<exists>r s'. body s = Ok (r, s') \<and> (case r of Inl k \<Rightarrow> k | Inr _ \<Rightarrow> 0) = n \<and>
           sent (Net s') = sent (Net s) @ map (Pair (Master (Sock s))) msgs \<and> Stdout s' = Stdout s @ items \<and>
           set (open_fds (CSocketClient_destroy (Sock s') (Net s'))) = set (open_fds (Net s)) - {Master (Sock s)} \<and>
           dials (Net s') = dials (Net s)))"

definition ended :: "session \<Rightarrow> session" where
  "ended s = s\<lparr>Sock := (Sock s)\<lparr>Master := SOCKET_ERROR\<rparr>, Net := os_close (Master (Sock s)) (Net s)\<rparr>"

lemma ended_fields [simp]:
  "Stdout (ended s) = Stdout s" "Net (ended s) = os_close (Master (Sock s)) (Net s)"
  "Master (Sock (ended s)) = SOCKET_ERROR"
  by (simp_all add: ended_def)

lemma act_close_open [simp]: "Master (Sock s) \<noteq> SOCKET_ERROR \<Longrightarrow> act_close s = Ok (Inr (), ended s)"
  by (simp add: act_close_def CSocket_Close_def ended_def)

lemma os_close_fields [simp]: "sent (os_close d s) = sent s" "dials (os_close d s) = dials s"
  by (simp_all add: os_close_def)

lemma destroy_closed [simp]: "Master sk = SOCKET_ERROR \<Longrightarrow> CSocketClient_destroy sk s = s"
  by (simp add: CSocketClient_destroy_def CSocket_Close_def)

lemma destroy_open: "Master sk \<noteq> SOCKET_ERROR \<Longrightarrow> CSocketClient_destroy sk s = os_close (Master sk) s"
  by (simp add: CSocketClient_destroy_def CSocket_Close_def)

lemma valid_not_error: "0 \<le> Master (Sock s) \<Longrightarrow> Master (Sock s) \<noteq> SOCKET_ERROR"
  by (simp add: SOCKET_ERROR_def)

definition address :: "config \<Rightarrow> endpoint" where
  "address cfg = Inet (inet_addr (IP_Ctrl cfg)) (htons (Port_of_Ctrl cfg))"

lemma with_socket_performs:
  assumes "performs body segs n msgs items" and c: "coming (address cfg) net = Some (segs, []) # cs"
  shows "\<exists>net'. with_socket cfg body out net = Some (Ok (n, out @ items, net')) \<and> said net net' = msgs \<and>
    set (open_fds net') = set (open_fds net) \<and> dials net' (address cfg) = cs"
proof -
  define sk where "sk = Init_ITCP (IP_Ctrl cfg) (Port_of_Ctrl cfg) CSocketClientITCP_new"
  have "\<not> StopTheReconnect sk" "Server_in sk = address cfg"
    by (simp_all add: sk_def Init_ITCP_def CSocketClientITCP_new_def CSocketClient_new_def CSocketClient_Init_def CSocket.defs
        CSocketClient.defs CSocket_new_def address_def)
  with itcp_client.loop_connects [of sk net "(segs, [])" cs] c
  obtain sk1 s1 where l: "ConnectLoop Connect_ITCP sk net = Some (True, sk1, s1)" and sk1: "IsConnected sk1"
    and o: "opened (Master sk1) (segs, []) net s1" and d: "dials s1 (address cfg) = cs" by auto
  let ?s = "\<lparr>Sock = sk1, Net = s1, Stdout = out\<rparr>"
  have "chat ?s" "incoming ?s = segs" "0 \<le> Master (Sock ?s)"
    using sk1 o by (simp_all add: chat_def incoming_def opened_def)
  with assms(1) obtain r s' where b: "body ?s = Ok (r, s')" and r: "(case r of Inl k \<Rightarrow> k | Inr _ \<Rightarrow> 0) = n"
    and s': "sent (Net s') = sent s1 @ map (Pair (Master sk1)) msgs" "Stdout s' = out @ items"
      "set (open_fds (CSocketClient_destroy (Sock s') (Net s'))) = set (open_fds s1) - {Master sk1}"
      "dials (Net s') = dials s1"
    unfolding performs_def by fastforce
  have "sent (CSocketClient_destroy (Sock s') (Net s')) = sent (Net s')" "dials (CSocketClient_destroy (Sock s') (Net s')) = dials (Net s')"
    by (simp_all add: CSocketClient_destroy_def CSocket_Close_def)
  with b r s' o d l show ?thesis
    by (simp add: with_socket_def opened_def said_def comp_def flip: sk_def)
qed

lemma AskList_performs:
  assumes spy: "wifi_ok spy" "length (InfoWifis spy) < 2 ^ 32" and sv: "wifi_ok sv" "length (InfoWifis sv) < 2 ^ 32"
  shows "performs AskList_body (list_msgs spy @ list_msgs sv) 0 [put_order TORDER_LIST]
    (map (\<lambda>w. Text (show_spy w @ [CHR 0x0A])) (InfoWifis spy) @
     map (\<lambda>w. Text (CInfoWifi_Display w @ [CHR 0x0A])) (InfoWifis sv))"
  unfolding performs_def
proof (intro allI impI)
  fix s assume s: "chat s" "incoming s = list_msgs spy @ list_msgs sv" "0 \<le> Master (Sock s)"
  obtain w where w: "CInfoWifi_default = Ok w" using CInfoWifi_default_Ok by blast
  have ok: "list_all info_ok (InfoWifis spy)" "list_all info_ok (InfoWifis sv)" using spy sv by (simp_all add: wifi_ok_def)
  have n: "unat (word_of_nat (length (InfoWifis spy)) :: 32 word) = length (InfoWifis spy)"
    "unat (word_of_nat (length (InfoWifis sv)) :: 32 word) = length (InfoWifis sv)"
    using spy(2) sv(2) by (simp_all add: unat_of_nat take_bit_nat_eq_self)
  define s1 where "s1 = got (concat (map info_msgs (InfoWifis spy)) @ list_msgs sv) (tell (put_order TORDER_LIST) s)"
  have "chat s1" "incoming s1 = concat (map info_msgs (InfoWifis spy)) @ list_msgs sv" using s by (simp_all add: s1_def)
  from AskList_loop_msgs [OF ok(1) this, of show_spy w] obtain i2 s2 where
    2: "AskList_loop show_spy (length (InfoWifis spy)) w s1 = Ok (Inr i2, s2)" "chat s2" "incoming s2 = list_msgs sv"
      "Sock s2 = Sock s1" "sent (Net s2) = sent (Net s1)" "open_fds (Net s2) = open_fds (Net s1)" "dials (Net s2) = dials (Net s1)"
      "Stdout s2 = Stdout s1 @ map (\<lambda>w. Text (show_spy w @ [CHR 0x0A])) (InfoWifis spy)" by blast
  define s3 where "s3 = got (concat (map info_msgs (InfoWifis sv))) s2"
  have "chat s3" "incoming s3 = concat (map info_msgs (InfoWifis sv)) @ []" using 2 by (simp_all add: s3_def)
  from AskList_loop_msgs [OF ok(2) this, of CInfoWifi_Display i2] obtain i4 s4 where
    4: "AskList_loop CInfoWifi_Display (length (InfoWifis sv)) i2 s3 = Ok (Inr i4, s4)" "chat s4"
      "Sock s4 = Sock s3" "sent (Net s4) = sent (Net s3)" "open_fds (Net s4) = open_fds (Net s3)" "dials (Net s4) = dials (Net s3)"
      "Stdout s4 = Stdout s3 @ map (\<lambda>w. Text (CInfoWifi_Display w @ [CHR 0x0A])) (InfoWifis sv)" by blast
  have "AskList_body s = Ok (Inr (), ended s4)"
    using s 2 4 w n by (simp add: AskList_body_def list_msgs_def s1_def s3_def overlay_def valid_not_error)
  then show "\<exists>r s'. AskList_body s = Ok (r, s') \<and> (case r of Inl k \<Rightarrow> k | Inr _ \<Rightarrow> 0) = 0 \<and>
     sent (Net s') = sent (Net s) @ map (Pair (Master (Sock s))) [put_order TORDER_LIST] \<and>
     Stdout s' = Stdout s @ map (\<lambda>w. Text (show_spy w @ [CHR 0x0A])) (InfoWifis spy) @
       map (\<lambda>w. Text (CInfoWifi_Display w @ [CHR 0x0A])) (InfoWifis sv) \<and>
     set (open_fds (CSocketClient_destroy (Sock s') (Net s'))) = set (open_fds (Net s)) - {Master (Sock s)} \<and>
     dials (Net s') = dials (Net s)"
    using 2 4 by (simp add: s1_def s3_def)
qed

lemma ChangeCoordinate_performs:
  "performs (ChangeCoordinate_body cid coo) [] 0 [put_order TORDER_CHANGE_COORDINATE, put_word cid, put_coo coo] []"
  by (simp add: performs_def ChangeCoordinate_body_def valid_not_error)

lemma SetName_performs:
  "performs (SetName_body cid name) [] 0
     [put_order TORDER_SETNAME, put_word cid, put_word (word_of_nat (length name) :: 32 word), name @ [CHR 0x00]] []"
  by (simp add: performs_def SetName_body_def valid_not_error)

lemma ChangePacketLoss_performs:
  "performs (ChangePacketLoss_body b) [] 0 [put_order TORDER_PACKET_LOSS, put_word (of_bool b :: 32 word)] []"
  by (simp add: performs_def ChangePacketLoss_body_def valid_not_error)

lemma SetScale_performs:
  "performs (SetScale_body x) [] 0 [put_order TORDER_SET_SCALE, put_word x] []"
  by (simp add: performs_def SetScale_body_def valid_not_error)

lemma CloseAllClient_performs: "performs CloseAllClient_body [] 0 [put_order TORDER_CLOSE_ALL_CLIENT] []"
  by (simp add: performs_def CloseAllClient_body_def valid_not_error)

definition status_msgs :: "server \<Rightarrow> byte list list" where
  "status_msgs v = [put_bool (CanLostPackets (Globals v)), put_word (Scale (Globals v)),
     put_word (Port (wifiServerVTCP v)), put_word (Port (wifiServerITCP v)),
     put_word (word_of_nat (MaxClientDeconnected (wifiServerITCP v)) :: 32 word),
     put_bool (GetNumberClient (wifiServerSPY v) > 0)]"

definition text_line :: "string \<Rightarrow> item" where
  "text_line str = Text (str @ [CHR 0x0A])"

definition status_lines :: "server \<Rightarrow> item list" where
  "status_lines v =
     [text_line (''SRV : PacketLoss : '' @ (if CanLostPackets (Globals v) then ''Enable'' else ''Disable'')),
      Text ''SRV : Scale : '', Real (Scale (Globals v)), Text [CHR 0x0A],
      text_line (''SRV VHOST : Port : '' @ show_nat (unat (Port (wifiServerVTCP v)))),
      text_line (''SRV INET : Port : '' @ show_nat (unat (Port (wifiServerITCP v)))),
      text_line (''SRV : SizeOfDisconnected : '' @ show_nat (MaxClientDeconnected (wifiServerITCP v))),
      text_line (''SPY : '' @ (if InfoSockets (wifiServerSPY v) \<noteq> [] then ''Connected'' else ''Disconnected''))]"

lemma AskStatus_performs:
  assumes "MaxClientDeconnected (wifiServerITCP v) < 2 ^ 32"
  shows "performs AskStatus_body (status_msgs v) 0 [put_order TORDER_STATUS] (status_lines v)"
proof -
  have "unat (word_of_nat (MaxClientDeconnected (wifiServerITCP v)) :: 32 word) = MaxClientDeconnected (wifiServerITCP v)"
    using assms by (simp add: unat_of_nat take_bit_nat_eq_self)
  then show ?thesis
    by (simp add: performs_def AskStatus_body_def status_msgs_def status_lines_def text_line_def overlay_def GetNumberClient_def
        valid_not_error)
qed

definition distance_msgs :: "64 word \<Rightarrow> byte list list" where
  "distance_msgs x = [put_word (0 :: 32 word), put_word x]"

lemma DistanceBetweenCID_performs:
  "performs (DistanceBetweenCID_body cid1 cid2) (distance_msgs x) 0
     [put_order TORDER_DISTANCE_BETWEEN_CID, put_word cid1, put_word cid2] [Text [], Real x, Text [CHR 0x0A]]"
  "performs (DistanceBetweenCID_body cid1 cid2) [put_word (-1 :: 32 word)] 1
     [put_order TORDER_DISTANCE_BETWEEN_CID, put_word cid1, put_word cid2] []"
  "performs (DistanceBetweenCID_body cid1 cid2) [put_word (-2 :: 32 word)] 1
     [put_order TORDER_DISTANCE_BETWEEN_CID, put_word cid1, put_word cid2] []"
  by (simp_all add: performs_def DistanceBetweenCID_body_def distance_msgs_def valid_not_error destroy_open)

section \<open>The orders at the server\<close>

lemma said_close [simp]: "said s (os_close d s') = said s s'"
  by (simp add: said_def)

text \<open>Orders that only answer.\<close>

lemma ReceiveOrder_answer:
  assumes none: "InfoSockets (ctrlServer v) = []" and n: "next_client v s (put_order r # segs)"
    and e: "\<And>d s1. answering (with_client d v) s1 \<Longrightarrow> rx s1 d = segs \<Longrightarrow>
      \<exists>segs'. execute_order fpu (Some r) (with_client d v) s1 = Ok (with_client d v, reply d ms (hear (with_client d v) segs' s1))"
  shows "\<exists>s'. ReceiveOrder fpu v s = Ok (v, s') \<and> said s s' = ms \<and> set (open_fds s') = set (open_fds s)"
proof -
  have "\<exists>v' s'. ReceiveOrder fpu v s = Ok (v', s') \<and> (v' = v \<and> said s s' = ms \<and> set (open_fds s') = set (open_fds s))"
  proof (rule ReceiveOrder_order [OF none n])
    fix d s1 assume s1: "answering (with_client d v) s1" "rx s1 d = segs" "d \<notin> set (open_fds s)" "open_fds s1 = d # open_fds s"
      "sent s1 = sent s"
    from e [OF s1(1,2)] obtain segs' where
      "execute_order fpu (Some r) (with_client d v) s1 = Ok (with_client d v, reply d ms (hear (with_client d v) segs' s1))" by blast
    with s1 show "\<exists>v2 s2. execute_order fpu (Some r) (with_client d v) s1 = Ok (v2, s2) \<and>
        ctrlServer v2 = ctrlServer (with_client d v) \<and>
        (v2\<lparr>ctrlServer := ctrlServer v\<rparr> = v \<and> said s (os_close d s2) = ms \<and> set (open_fds (os_close d s2)) = set (open_fds s))"
      by (auto simp: said_def comp_def)
  qed
  then show ?thesis by blast
qed

lemma hear_all: "rx s (client v) = segs \<Longrightarrow> hear v segs s = s"
  by (simp add: hear_def fun_upd_idem)

lemma ReceiveOrder_list:
  assumes inv: "server_inv (v, s)" and n: "next_client v s [put_order TORDER_LIST]"
    and en: "list_all Enable (InfoSockets (wifiServerSPY v))" "list_all Enable (InfoSockets (wifiServerITCP v))"
  shows "\<exists>s'. ReceiveOrder fpu v s = Ok (v, s') \<and> said s s' = list_msgs (wifiServerSPY v) @ list_msgs (wifiServerITCP v) \<and>
    set (open_fds s') = set (open_fds s)"
proof (rule ReceiveOrder_answer [OF _ n])
  show "InfoSockets (ctrlServer v) = []" using inv by (simp add: server_inv_def)
  fix d s1 assume a: "answering (with_client d v) s1" "rx s1 d = []"
  have "SendList (with_client d v) s1 = Ok (reply d (list_msgs (wifiServerSPY v) @ list_msgs (wifiServerITCP v)) s1)"
    using SendList_healthy [OF a(1)] en inv by (simp add: server_inv_def server_ok_def)
  with a show "\<exists>segs'. execute_order fpu (Some TORDER_LIST) (with_client d v) s1 =
      Ok (with_client d v, reply d (list_msgs (wifiServerSPY v) @ list_msgs (wifiServerITCP v)) (hear (with_client d v) segs' s1))"
    by (intro exI [of _ "[]"]) (simp add: execute_order_def hear_all)
qed

lemma ReceiveOrder_status:
  assumes inv: "server_inv (v, s)" and n: "next_client v s [put_order TORDER_STATUS]"
  shows "\<exists>s'. ReceiveOrder fpu v s = Ok (v, s') \<and> said s s' = status_msgs v \<and> set (open_fds s') = set (open_fds s)"
proof (rule ReceiveOrder_answer [OF _ n])
  show "InfoSockets (ctrlServer v) = []" using inv by (simp add: server_inv_def)
  fix d s1 assume a: "answering (with_client d v) s1" "rx s1 d = []"
  then show "\<exists>segs'. execute_order fpu (Some TORDER_STATUS) (with_client d v) s1 =
      Ok (with_client d v, reply d (status_msgs v) (hear (with_client d v) segs' s1))"
    by (intro exI [of _ "[]"]) (simp add: execute_order_def SendStatus_def send_all_healthy status_msgs_def hear_all del: send_all.simps)
qed

lemma ReceiveOrder_distance:
  assumes inv: "server_inv (v, s)" and n: "next_client v s [put_order TORDER_DISTANCE_BETWEEN_CID, put_word cid1, put_word cid2]"
    and c: "coordinate_of cid1 (wifiServerITCP v) = Some coo1" "coordinate_of cid2 (wifiServerITCP v) = Some coo2"
    and x: "DistanceWith (double_of_bits (Scale (Globals v))) coo1 coo2 = Ok x"
  shows "\<exists>s'. ReceiveOrder fpu v s = Ok (v, s') \<and> said s s' = distance_msgs (fpu x) \<and> set (open_fds s') = set (open_fds s)"
proof (rule ReceiveOrder_answer [OF _ n])
  show "InfoSockets (ctrlServer v) = []" using inv by (simp add: server_inv_def)
  fix d s1 assume a: "answering (with_client d v) s1" "rx s1 d = [put_word cid1, put_word cid2]"
  then show "\<exists>segs'. execute_order fpu (Some TORDER_DISTANCE_BETWEEN_CID) (with_client d v) s1 =
      Ok (with_client d v, reply d (distance_msgs (fpu x)) (hear (with_client d v) segs' s1))"
    using c x
    by (intro exI [of _ "[]"]) (simp add: execute_order_def SendDistance_def distance_msgs_def SOCKET_ERROR_def)
qed

section \<open>Orders that change the server\<close>

lemma find_cid_cids: "map Cid ws = map Cid ws' \<Longrightarrow> find_cid cid k ws = find_cid cid k ws'"
proof (induction ws arbitrary: ws' k)
  case (Cons w ws)
  then show ?case by (cases ws') auto
qed simp

lemma set_coo_at_cids [simp]: "map Cid (set_coo_at coo i ws) = map Cid ws"
proof -
  have "Cid (SetCoo coo w) = Cid w" for w :: CInfoWifi by (simp add: set_coo_defs)
  then show ?thesis
    unfolding set_coo_at_def by (cases "i < length ws") (simp_all add: map_update list_update_same_conv list_update_beyond)
qed

lemma move_client_coordinate:
  assumes ok: "wifi_ok sv" and cid: "TCID_GUEST_MIN \<le> cid"
  shows "\<exists>sv'. move_client cid coo sv = Ok sv' \<and> coordinate_of cid sv' = Some (coo_of coo) \<and>
    InfoSockets sv' = InfoSockets sv \<and> length (InfoWifis sv') = length (InfoWifis sv) \<and>
    (\<forall>i < length (InfoWifis sv). Cid (InfoWifis sv ! i) \<noteq> cid \<longrightarrow> InfoWifis sv' ! i = InfoWifis sv ! i)"
proof (cases "GetReferenceOnInfoWifiByCID cid sv")
  case (Some i)
  then have i: "i < length (InfoWifis sv)" "Cid (InfoWifis sv ! i) = cid"
    using find_cid_SomeD [of cid "InfoWifis sv" i] by (simp_all add: GetReferenceOnInfoWifiByCID_def)
  let ?sv = "sv\<lparr>InfoWifis := set_coo_at coo i (InfoWifis sv)\<rparr>"
  have "GetReferenceOnInfoWifiByCID cid ?sv = Some i"
    using Some find_cid_cids [of "set_coo_at coo i (InfoWifis sv)" "InfoWifis sv"] by (simp add: GetReferenceOnInfoWifiByCID_def)
  then have "coordinate_of cid ?sv = Some (coo_of coo)"
    using i by (simp add: coordinate_of_def set_coo_at_def)
  with Some i show ?thesis by (auto simp: move_client_def set_coo_at_def nth_list_update)
next
  case None
  show ?thesis
  proof (cases "GetReferenceOnInfoWifiDeconnectedByCID cid sv")
    case (Some i)
    then have i: "i < length (InfoWifisDeconnected sv)"
      using find_cid_SomeD [of cid "InfoWifisDeconnected sv" i] by (simp add: GetReferenceOnInfoWifiDeconnectedByCID_def)
    let ?sv = "sv\<lparr>InfoWifisDeconnected := set_coo_at coo i (InfoWifisDeconnected sv)\<rparr>"
    have "GetReferenceOnInfoWifiDeconnectedByCID cid ?sv = Some i" "GetReferenceOnInfoWifiByCID cid ?sv = None"
      using None Some find_cid_cids [of "set_coo_at coo i (InfoWifisDeconnected sv)" "InfoWifisDeconnected sv"]
      by (simp_all add: GetReferenceOnInfoWifiDeconnectedByCID_def GetReferenceOnInfoWifiByCID_def)
    then have "coordinate_of cid ?sv = Some (coo_of coo)"
      using i by (simp add: coordinate_of_def set_coo_at_def)
    with Some None show ?thesis by (simp add: move_client_def)
  next
    case none: None
    obtain w where w: "CInfoWifi_of cid coo = Ok w" "Cid w = cid" "coo_of w = coo_of coo"
      using cid by (auto simp: CInfoWifi_of_def SetCid_def assertion_def CInfoWifi_raw_def coo_of_def set_coo_defs CCoordinate.defs)
    have "0 < MaxClientDeconnected sv" using ok by (simp add: wifi_ok_def)
    then have "\<exists>l. AddInfoWifiDeconnected w sv = Ok (sv\<lparr>InfoWifisDeconnected := l @ [w]\<rparr>) \<and> set l \<subseteq> set (InfoWifisDeconnected sv)"
      by (cases "MaxClientDeconnected sv \<le> length (InfoWifisDeconnected sv)")
        (auto simp: AddInfoWifiDeconnected_def erase_r_def erase_def dest: in_set_dropD)
    then obtain l where l: "AddInfoWifiDeconnected w sv = Ok (sv\<lparr>InfoWifisDeconnected := l @ [w]\<rparr>)"
        "set l \<subseteq> set (InfoWifisDeconnected sv)" by blast
    let ?sv = "sv\<lparr>InfoWifisDeconnected := l @ [w]\<rparr>"
    have "find_cid cid 0 l = None"
      using none l(2) by (auto simp: GetReferenceOnInfoWifiDeconnectedByCID_def find_cid_None_iff)
    then have "GetReferenceOnInfoWifiDeconnectedByCID cid ?sv = Some (length l)" "GetReferenceOnInfoWifiByCID cid ?sv = None"
      using None w(2) by (simp_all add: GetReferenceOnInfoWifiDeconnectedByCID_def GetReferenceOnInfoWifiByCID_def find_cid_append)
    then have "coordinate_of cid ?sv = Some (coo_of coo)"
      using w(3) by (simp add: coordinate_of_def)
    with None none w l show ?thesis by (simp add: move_client_def)
  qed
qed

lemma ReceiveOrder_set:
  assumes inv: "server_inv (v, s)" and cid: "TCID_GUEST_MIN \<le> cid"
    and n: "next_client v s [put_order TORDER_CHANGE_COORDINATE, put_word cid, put_coo (coo :: CCoordinate)]"
  shows "\<exists>v' s'. ReceiveOrder fpu v s = Ok (v', s') \<and> (coordinate_of cid (wifiServerITCP v') = Some coo \<and>
    InfoSockets (wifiServerITCP v') = InfoSockets (wifiServerITCP v) \<and>
    (\<forall>i < length (InfoWifis (wifiServerITCP v)). Cid (InfoWifis (wifiServerITCP v) ! i) \<noteq> cid \<longrightarrow>
       InfoWifis (wifiServerITCP v') ! i = InfoWifis (wifiServerITCP v) ! i) \<and>
    said s s' = [] \<and> set (open_fds s') = set (open_fds s))"
proof (rule ReceiveOrder_order [OF _ n])
  show "InfoSockets (ctrlServer v) = []" using inv by (simp add: server_inv_def)
  have w: "wifi_ok (wifiServerITCP v)" using inv by (simp add: server_inv_def server_ok_def)
  obtain sv where sv: "move_client cid coo (wifiServerITCP v) = Ok sv" "coordinate_of cid sv = Some coo"
      "InfoSockets sv = InfoSockets (wifiServerITCP v)"
      "\<forall>i < length (InfoWifis (wifiServerITCP v)). Cid (InfoWifis (wifiServerITCP v) ! i) \<noteq> cid \<longrightarrow>
         InfoWifis sv ! i = InfoWifis (wifiServerITCP v) ! i"
    using move_client_coordinate [OF w cid, of coo] by (auto simp: coo_of_def set_coo_defs)
  fix d s1 assume a: "answering (with_client d v) s1" "rx s1 d = [put_word cid, put_coo coo]" "d \<notin> set (open_fds s)"
    "open_fds s1 = d # open_fds s" "sent s1 = sent s"
  have "execute_order fpu (Some TORDER_CHANGE_COORDINATE) (with_client d v) s1 =
      Ok ((with_client d v)\<lparr>wifiServerITCP := sv\<rparr>, hear (with_client d v) [] s1)"
    using a sv(1) cid by (simp add: execute_order_def ChangeCoordinate_def overlay_def coo_of_def set_coo_defs not_less)
  with a sv show "\<exists>v2 s2. execute_order fpu (Some TORDER_CHANGE_COORDINATE) (with_client d v) s1 = Ok (v2, s2) \<and>
      ctrlServer v2 = ctrlServer (with_client d v) \<and>
      (coordinate_of cid (wifiServerITCP (v2\<lparr>ctrlServer := ctrlServer v\<rparr>)) = Some coo \<and>
    InfoSockets (wifiServerITCP (v2\<lparr>ctrlServer := ctrlServer v\<rparr>)) = InfoSockets (wifiServerITCP v) \<and>
    (\<forall>i < length (InfoWifis (wifiServerITCP v)). Cid (InfoWifis (wifiServerITCP v) ! i) \<noteq> cid \<longrightarrow>
       InfoWifis (wifiServerITCP (v2\<lparr>ctrlServer := ctrlServer v\<rparr>)) ! i = InfoWifis (wifiServerITCP v) ! i) \<and>
    said s (os_close d s2) = [] \<and> set (open_fds (os_close d s2)) = set (open_fds s))"
    by (auto simp: said_def)
qed

lemma ReceiveOrder_loss:
  assumes inv: "server_inv (v, s)" and n: "next_client v s [put_order TORDER_PACKET_LOSS, put_word (of_bool b :: 32 word)]"
  shows "\<exists>v' s'. ReceiveOrder fpu v s = Ok (v', s') \<and>
    (v' = v\<lparr>Globals := (Globals v)\<lparr>CanLostPackets := b\<rparr>\<rparr> \<and> said s s' = [])"
proof (rule ReceiveOrder_order [OF _ n])
  show "InfoSockets (ctrlServer v) = []" using inv by (simp add: server_inv_def)
  fix d s1 assume a: "answering (with_client d v) s1" "rx s1 d = [put_word (of_bool b :: 32 word)]" "sent s1 = sent s"
  have "execute_order fpu (Some TORDER_PACKET_LOSS) (with_client d v) s1 =
      Ok ((with_client d v)\<lparr>Globals := (Globals v)\<lparr>CanLostPackets := b\<rparr>\<rparr>, hear (with_client d v) [] s1)"
    using a by (simp add: execute_order_def ChangePacketLoss_def)
  with a show "\<exists>v2 s2. execute_order fpu (Some TORDER_PACKET_LOSS) (with_client d v) s1 = Ok (v2, s2) \<and>
      ctrlServer v2 = ctrlServer (with_client d v) \<and>
      (v2\<lparr>ctrlServer := ctrlServer v\<rparr> = v\<lparr>Globals := (Globals v)\<lparr>CanLostPackets := b\<rparr>\<rparr> \<and> said s (os_close d s2) = [])"
    by (auto simp: said_def with_client_def)
qed

lemma ReceiveOrder_scale:
  assumes inv: "server_inv (v, s)" and n: "next_client v s [put_order TORDER_SET_SCALE, put_word x]"
  shows "\<exists>v' s'. ReceiveOrder fpu v s = Ok (v', s') \<and> (v' = v\<lparr>Globals := (Globals v)\<lparr>Scale := x\<rparr>\<rparr> \<and> said s s' = [])"
proof (rule ReceiveOrder_order [OF _ n])
  show "InfoSockets (ctrlServer v) = []" using inv by (simp add: server_inv_def)
  fix d s1 assume a: "answering (with_client d v) s1" "rx s1 d = [put_word x]" "sent s1 = sent s"
  have "execute_order fpu (Some TORDER_SET_SCALE) (with_client d v) s1 =
      Ok ((with_client d v)\<lparr>Globals := (Globals v)\<lparr>Scale := x\<rparr>\<rparr>, hear (with_client d v) [] s1)"
    using a by (simp add: execute_order_def SetScale_def)
  with a show "\<exists>v2 s2. execute_order fpu (Some TORDER_SET_SCALE) (with_client d v) s1 = Ok (v2, s2) \<and>
      ctrlServer v2 = ctrlServer (with_client d v) \<and>
      (v2\<lparr>ctrlServer := ctrlServer v\<rparr> = v\<lparr>Globals := (Globals v)\<lparr>Scale := x\<rparr>\<rparr> \<and> said s (os_close d s2) = [])"
    by (auto simp: said_def with_client_def)
qed

lemma name_client_with_client:
  "name_client cid name (with_client d v) = with_client d (name_client cid name v)"
  by (simp add: name_client_def Let_def with_client_def split: option.splits)

lemma name_client_ctrl [simp]: "ctrlServer (name_client cid name v) = ctrlServer v"
  by (simp add: name_client_def Let_def split: option.splits)

lemma cstring_name: "CHR 0x00 \<notin> set name \<Longrightarrow> cstring (name @ [CHR 0x00]) = Ok name"
  by (simp add: cstring_def defined_def, subst takeWhile_append2) auto

lemma ReceiveOrder_setname:
  assumes inv: "server_inv (v, s)" and cid: "TCID_GUEST_MIN \<le> cid" and name: "length name \<le> MAX_SIZE_NAME" "CHR 0x00 \<notin> set name"
    and n: "next_client v s [put_order TORDER_SETNAME, put_word cid, put_word (word_of_nat (length name) :: 32 word), name @ [CHR 0x00]]"
  shows "\<exists>v' s'. ReceiveOrder fpu v s = Ok (v', s') \<and> (v' = name_client cid name v \<and> said s s' = [])"
proof (rule ReceiveOrder_order [OF _ n])
  show "InfoSockets (ctrlServer v) = []" using inv by (simp add: server_inv_def)
  fix d s1 assume a: "answering (with_client d v) s1" "sent s1 = sent s"
    "rx s1 d = [put_word cid, put_word (word_of_nat (length name) :: 32 word), name @ [CHR 0x00]]"
  have "execute_order fpu (Some TORDER_SETNAME) (with_client d v) s1 =
      Ok (name_client cid name (with_client d v), hear (with_client d v) [] s1)"
    unfolding execute_order_def CCTRL_SetName_def
    by (simp add: a name(1) cstring_name [OF name(2)] leD [OF cid])
  with a show "\<exists>v2 s2. execute_order fpu (Some TORDER_SETNAME) (with_client d v) s1 = Ok (v2, s2) \<and>
      ctrlServer v2 = ctrlServer (with_client d v) \<and>
      (v2\<lparr>ctrlServer := ctrlServer v\<rparr> = name_client cid name v \<and> said s (os_close d s2) = [])"
    using with_client_fields(8) [where v = "name_client cid name v" and d = d] by (auto simp: said_def name_client_with_client)
qed

lemma ReceiveOrder_close:
  assumes inv: "server_inv (v, s)" and n: "next_client v s [put_order TORDER_CLOSE_ALL_CLIENT]"
  shows "\<exists>v' s'. ReceiveOrder fpu v s = Ok (v', s') \<and>
    (InfoSockets (wifiServerITCP v') = [] \<and> InfoSockets (wifiServerSPY v') = [] \<and>
     set (ListNodes (Scheduler v')) = set (masters v) \<and>
     set (open_fds s') = set (open_fds s) - enabled_descriptors (wifiServerITCP v) - enabled_descriptors (wifiServerSPY v) \<and>
     InfoWifisDeconnected (wifiServerITCP v') = latest (MaxClientDeconnected (wifiServerITCP v))
       (InfoWifisDeconnected (wifiServerITCP v) @ InfoWifis (wifiServerITCP v)))"
proof (rule ReceiveOrder_order [OF _ n])
  show "InfoSockets (ctrlServer v) = []" using inv by (simp add: server_inv_def)
  fix d and s1 :: os assume a: "d \<notin> set (open_fds s)" "open_fds s1 = d # open_fds s"
  have ok: "server_ok v s" using inv by (simp add: server_inv_def)
  have fds: "distinct (all_fds v)" "set (all_fds v) \<subseteq> set (open_fds s)" using server_okD(5,6) [OF ok] by auto
  have "server_ok (with_client d v) s1"
    unfolding with_client_def by (rule server_ok_ctrl [OF ok]) (use fds a in auto)
  from CCTRL_CloseAllClient_Ok [OF this] obtain itcp spy sched s2 where
    c: "CCTRL_CloseAllClient (with_client d v) s1 = Ok ((with_client d v)\<lparr>Scheduler := sched, wifiServerITCP := itcp, wifiServerSPY := spy\<rparr>, s2)"
    "InfoSockets itcp = []" "InfoSockets spy = []" "set (ListNodes sched) = set (masters (with_client d v))"
    "set (open_fds s2) = set (open_fds s1) - enabled_descriptors (wifiServerITCP v) - enabled_descriptors (wifiServerSPY v)"
    "InfoWifisDeconnected itcp = latest (MaxClientDeconnected (wifiServerITCP v))
       (InfoWifisDeconnected (wifiServerITCP v) @ InfoWifis (wifiServerITCP v))"
    by (metis with_client_fields(2,3))
  have "masters (with_client d v) = masters v" by (simp add: masters_def)
  moreover have "set (open_fds (os_close d s2)) = set (open_fds s) - enabled_descriptors (wifiServerITCP v) - enabled_descriptors (wifiServerSPY v)"
    using c(5) a by auto
  ultimately show "\<exists>v2 s2. execute_order fpu (Some TORDER_CLOSE_ALL_CLIENT) (with_client d v) s1 = Ok (v2, s2) \<and>
      ctrlServer v2 = ctrlServer (with_client d v) \<and>
      (InfoSockets (wifiServerITCP (v2\<lparr>ctrlServer := ctrlServer v\<rparr>)) = [] \<and>
       InfoSockets (wifiServerSPY (v2\<lparr>ctrlServer := ctrlServer v\<rparr>)) = [] \<and>
       set (ListNodes (Scheduler (v2\<lparr>ctrlServer := ctrlServer v\<rparr>))) = set (masters v) \<and>
       set (open_fds (os_close d s2)) = set (open_fds s) - enabled_descriptors (wifiServerITCP v) - enabled_descriptors (wifiServerSPY v) \<and>
       InfoWifisDeconnected (wifiServerITCP (v2\<lparr>ctrlServer := ctrlServer v\<rparr>)) = latest (MaxClientDeconnected (wifiServerITCP v))
         (InfoWifisDeconnected (wifiServerITCP v) @ InfoWifis (wifiServerITCP v)))"
    using c by (simp add: execute_order_def)
qed

section \<open>Properties\<close>

text \<open>A server with nobody connected whose next control client says \<open>ms\<close>, and a network for that client.\<close>

lemma sample_server:
  obtains v s where "server_inv (v, s)" "next_client v s ms" "InfoSockets (wifiServerITCP v) = []" "InfoWifis (wifiServerITCP v) = []"
    "InfoSockets (wifiServerSPY v) = []" "InfoWifis (wifiServerSPY v) = []" "Globals v = globals_new"
    "InfoWifisDeconnected (wifiServerITCP v) = []" "length (open_fds s) = 7"
    "MaxClientDeconnected (wifiServerITCP v) = WIFI_MAX_DECONNECTED_CLIENT"
proof -
  have "call_fails os_start = []" "length (open_fds os_start) + 4 \<le> nat FD_SETSIZE"
    by (simp_all add: os_start_def FD_SETSIZE_def)
  from vwifi_server_start_Ok [OF this, of default_ports globals_new]
  obtain v s where st: "vwifi_server_start default_ports globals_new os_start = Ok (v, s)" .
  have inv: "server_inv (v, s)" by (rule vwifi_server_start_inv [OF st])
  have nobody: "InfoSockets (wifiServerITCP v) = []" "InfoWifis (wifiServerITCP v) = []"
    "InfoSockets (wifiServerSPY v) = []" "InfoWifis (wifiServerSPY v) = []" "Globals v = globals_new"
    "InfoWifisDeconnected (wifiServerITCP v) = []" "length (open_fds s) = 7"
    "MaxClientDeconnected (wifiServerITCP v) = WIFI_MAX_DECONNECTED_CLIENT"
    using st
    by (auto dest!: Listen_ITCP_Ok(3) Listen_VTCP_Ok(3) simp: os_start_def vwifi_server_start_def rbind_Inr_iff or_exit_Inr CWifiServer_Listen_Inr Listen_Inr Init_def
        CWifiServer_new_def CSocketServer_new_def CSocket_new_def CSocket.defs CSocketServer.defs DefaultValues_def)
  define s1 where "s1 = s\<lparr>pending := (pending s)(Master (ctrlServer v) :=
    [\<lparr>peer = \<lparr>s_addr = 0, sin_port = 0, svm_cid = 0\<rparr>, segments = ms, outcomes = []\<rparr>])\<rparr>"
  show thesis
    by (rule that [of v s1])
      (use inv nobody in \<open>auto simp: s1_def next_client_def server_inv_def intro: server_ok_os\<close>)
qed

definition sample_net :: "byte list list \<Rightarrow> os" where
  "sample_net segs = os_start\<lparr>dials := (\<lambda>_. [None, Some (segs, [])])\<rparr>"

lemma sample_net_coming [simp]: "coming ep (sample_net segs) = [Some (segs, [])]"
  by (simp add: coming_def sample_net_def)



text \<open>
  C14: \<^verbatim>\<open>vwifi-ctrl set\<close> moves the client. With an identifier that is not reserved and three integers
  in the range of \<^verbatim>\<open>int\<close>, the program exits with 0 after sending the order; a server that receives
  what it sent then answers every question about this client with the new position, connected,
  remembered or unknown before, and leaves the other connected clients as they were.
\<close>

theorem set_command:
  assumes inv: "server_inv (v, s)"
    and args: "cid_arg a1 = Ok (Some cid)" "isInt a2" "atoi a2 = Ok x" "isInt a3" "atoi a3 = Ok y" "isInt a4" "atoi a4 = Ok z"
    and net: "coming (address cfg) net = Some ([], []) # cs"
  shows "\<exists>net' out'. ChangeCoordinate_ctrl cfg prog [a0, a1, a2, a3, a4] out net = Some (Ok (0, out', net')) \<and>
    (next_client v s (said net net') \<longrightarrow>
       (\<exists>v' s'. ReceiveOrder fpu v s = Ok (v', s') \<and>
          coordinate_of cid (wifiServerITCP v') = Some \<lparr>X = word_of_int x, Y = word_of_int y, Z = word_of_int z\<rparr> \<and>
          InfoSockets (wifiServerITCP v') = InfoSockets (wifiServerITCP v) \<and>
          (\<forall>i < length (InfoWifis (wifiServerITCP v)). Cid (InfoWifis (wifiServerITCP v) ! i) \<noteq> cid \<longrightarrow>
             InfoWifis (wifiServerITCP v') ! i = InfoWifis (wifiServerITCP v) ! i)))"
proof -
  let ?coo = "CCoordinate_of (word_of_int x) (word_of_int y) (word_of_int z)"
  have coo: "?coo = \<lparr>X = word_of_int x, Y = word_of_int y, Z = word_of_int z\<rparr>"
    by (simp add: CCoordinate_of_def CCoordinate_new_def set_coo_defs)
  have cid: "TCID_GUEST_MIN \<le> cid"
    using args(1) by (auto simp: cid_arg_def rbind_Inr_iff Let_def split: if_splits)
  let ?out = "out @ [Text (show_nat (unat cid) @ '' '' @ CCoordinate_Display ?coo @ '' '' @ [CHR 0x0A])]"
  obtain net' where n: "with_socket cfg (ChangeCoordinate_body cid ?coo) ?out net = Some (Ok (0, ?out @ [], net'))"
      "said net net' = [put_order TORDER_CHANGE_COORDINATE, put_word cid, put_coo ?coo]"
    using with_socket_performs [OF ChangeCoordinate_performs net] by blast
  have "ChangeCoordinate_ctrl cfg prog [a0, a1, a2, a3, a4] out net = Some (Ok (0, ?out @ [], net'))"
    using n(1) args by (simp add: ChangeCoordinate_ctrl_def)
  moreover have "\<exists>v' s'. ReceiveOrder fpu v s = Ok (v', s') \<and> coordinate_of cid (wifiServerITCP v') = Some ?coo \<and>
      InfoSockets (wifiServerITCP v') = InfoSockets (wifiServerITCP v) \<and>
      (\<forall>i < length (InfoWifis (wifiServerITCP v)). Cid (InfoWifis (wifiServerITCP v) ! i) \<noteq> cid \<longrightarrow>
         InfoWifis (wifiServerITCP v') ! i = InfoWifis (wifiServerITCP v) ! i)" if "next_client v s (said net net')"
    using ReceiveOrder_set [OF inv cid that [unfolded n(2)], of fpu] by blast
  ultimately show ?thesis unfolding coo by blast
qed

theorem set_command_witness:
  "\<exists>v s net' out' v' s'.
     ChangeCoordinate_ctrl config_new ''vwifi-ctrl'' [''set'', ''10'', ''-5'', ''7'', ''0''] [] (sample_net []) = Some (Ok (0, out', net')) \<and>
     ReceiveOrder (\<lambda>_. 0) v s = Ok (v', s') \<and> coordinate_of 10 (wifiServerITCP v') = Some \<lparr>X = -5, Y = 7, Z = 0\<rparr>"
proof -
  have args: "cid_arg ''10'' = Ok (Some 10)" "isInt ''-5''" "atoi ''-5'' = Ok (-5)" "isInt ''7''" "atoi ''7'' = Ok 7" "isInt ''0''" "atoi ''0'' = Ok 0"
    by code_simp+
  obtain v0 s0 where "server_inv (v0, s0)" by (rule sample_server)
  from set_command [OF this args sample_net_coming, of config_new "''vwifi-ctrl''" "''set''" "[]"]
  obtain net' out' where c: "ChangeCoordinate_ctrl config_new ''vwifi-ctrl'' [''set'', ''10'', ''-5'', ''7'', ''0''] [] (sample_net []) = Some (Ok (0, out', net'))"
    by blast
  obtain v s where v: "server_inv (v, s)" "next_client v s (said (sample_net []) net')" by (rule sample_server)
  from set_command [OF v(1) args sample_net_coming, of config_new "''vwifi-ctrl''" "''set''" "[]" "\<lambda>_. 0"] c v(2) show ?thesis
    by fastforce
qed

text \<open>
  C20: \<^verbatim>\<open>vwifi-ctrl setname\<close> names the client: the name, cut to \<open>MAX_SIZE_NAME\<close> characters, is the
  name that the server keeps for the connected client with this identifier; its other clients and
  its sockets are unchanged.
\<close>

theorem setname_command:
  assumes inv: "server_inv (v, s)" and cid: "cid_arg a1 = Ok (Some cid)" and name: "CHR 0x00 \<notin> set a2"
    and i: "GetReferenceOnInfoWifiByCID cid (wifiServerITCP v) = Some i"
    and net: "coming (address cfg) net = Some ([], []) # cs"
  shows "\<exists>net' out'. SetName_ctrl cfg prog [a0, a1, a2] out net = Some (Ok (0, out', net')) \<and>
    (next_client v s (said net net') \<longrightarrow>
       (\<exists>v' s'. ReceiveOrder fpu v s = Ok (v', s') \<and>
          v' = v\<lparr>wifiServerITCP := (wifiServerITCP v)\<lparr>InfoWifis := (InfoWifis (wifiServerITCP v))
            [i := (InfoWifis (wifiServerITCP v) ! i)\<lparr>Name := take MAX_SIZE_NAME a2\<rparr>]\<rparr>\<rparr>))"
proof -
  define name where "name = (if length a2 > MAX_SIZE_NAME then take MAX_SIZE_NAME a2 else a2)"
  have len: "length name \<le> MAX_SIZE_NAME" "CHR 0x00 \<notin> set name" "name = take MAX_SIZE_NAME a2"
    using name by (auto simp: name_def dest: in_set_takeD)
  have g: "TCID_GUEST_MIN \<le> cid"
    using cid by (auto simp: cid_arg_def rbind_Inr_iff Let_def split: if_splits)
  let ?out = "out @ [Text (show_nat (unat cid) @ '' '' @ name @ '' '' @ [CHR 0x0A])]"
  obtain net' where n: "with_socket cfg (SetName_body cid name) ?out net = Some (Ok (0, ?out @ [], net'))"
      "said net net' = [put_order TORDER_SETNAME, put_word cid, put_word (word_of_nat (length name) :: 32 word), name @ [CHR 0x00]]"
    using with_socket_performs [OF SetName_performs net] by blast
  have c: "SetName_ctrl cfg prog [a0, a1, a2] out net = Some (Ok (0, ?out @ [], net'))"
    using n(1) cid by (simp add: SetName_ctrl_def name_def)
  have "name_client cid name v = v\<lparr>wifiServerITCP := (wifiServerITCP v)\<lparr>InfoWifis := (InfoWifis (wifiServerITCP v))
      [i := (InfoWifis (wifiServerITCP v) ! i)\<lparr>Name := take MAX_SIZE_NAME a2\<rparr>]\<rparr>\<rparr>"
    using i len(1) by (simp add: name_client_def Let_def set_name_at_def Vwifi_Infos.SetName_def flip: len(3))
  with ReceiveOrder_setname [OF inv g len(1,2), of fpu] c n(2) show ?thesis by metis
qed

text \<open>
  C23: \<^verbatim>\<open>vwifi-ctrl loss\<close> and \<^verbatim>\<open>vwifi-ctrl scale\<close> change exactly one setting of the server that
  receives what they send: whether packets can be lost, and the scale, which is the argument rounded
  to a \<^verbatim>\<open>double\<close>.
\<close>

theorem settings_command:
  assumes inv: "server_inv (v, s)" and net: "coming (address cfg) net = Some ([], []) # cs"
    and a: "a1 \<in> {''yes'', ''no''}" and f: "isIntOrFloat f1" "\<not> not_positive (double_of_bits (atof fpu f1))"
  shows "\<exists>net1 net2. ChangePacketLoss_ctrl cfg prog [a0, a1] out net = Some (Ok (0, out, net1)) \<and>
    SetScale_ctrl fpu cfg prog [a0, f1] out net = Some (Ok (0, out, net2)) \<and>
    (next_client v s (said net net1) \<longrightarrow>
       (\<exists>s'. ReceiveOrder fpu v s = Ok (v\<lparr>Globals := (Globals v)\<lparr>CanLostPackets := (a1 = ''yes'')\<rparr>\<rparr>, s'))) \<and>
    (next_client v s (said net net2) \<longrightarrow>
       (\<exists>s'. ReceiveOrder fpu v s = Ok (v\<lparr>Globals := (Globals v)\<lparr>Scale := atof fpu f1\<rparr>\<rparr>, s')))"
proof -
  let ?b = "a1 = ''yes''"
  obtain net1 where 1: "with_socket cfg (ChangePacketLoss_body ?b) out net = Some (Ok (0, out @ [], net1))"
      "said net net1 = [put_order TORDER_PACKET_LOSS, put_word (of_bool ?b :: 32 word)]"
    using with_socket_performs [OF ChangePacketLoss_performs net] by blast
  obtain net2 where 2: "with_socket cfg (SetScale_body (atof fpu f1)) out net = Some (Ok (0, out @ [], net2))"
      "said net net2 = [put_order TORDER_SET_SCALE, put_word (atof fpu f1)]"
    using with_socket_performs [OF SetScale_performs net] by blast
  have "ChangePacketLoss_ctrl cfg prog [a0, a1] out net = Some (Ok (0, out, net1))"
    using 1(1) a by (auto simp: ChangePacketLoss_ctrl_def)
  moreover have "SetScale_ctrl fpu cfg prog [a0, f1] out net = Some (Ok (0, out, net2))"
    using 2(1) f by (simp add: SetScale_ctrl_def)
  ultimately show ?thesis
    using ReceiveOrder_loss [OF inv, of ?b fpu] ReceiveOrder_scale [OF inv, of "atof fpu f1" fpu] 1(2) 2(2)
    by (intro exI [of _ net1] exI [of _ net2]) auto
qed


text \<open>
  C21: \<^verbatim>\<open>vwifi-ctrl distance\<close> prints the distance between the two clients as the server knows them,
  connected or remembered, at the server's scale.
\<close>

theorem distance_command:
  assumes inv: "server_inv (v, s)" and args: "cid_arg a1 = Ok (Some cid1)" "cid_arg a2 = Ok (Some cid2)"
    and n: "next_client v s [put_order TORDER_DISTANCE_BETWEEN_CID, put_word cid1, put_word cid2]"
    and c: "coordinate_of cid1 (wifiServerITCP v) = Some coo1" "coordinate_of cid2 (wifiServerITCP v) = Some coo2"
    and x: "DistanceWith (double_of_bits (Scale (Globals v))) coo1 coo2 = Ok x"
  shows "\<exists>s'. ReceiveOrder fpu v s = Ok (v, s') \<and>
    (\<forall>net cs. coming (address cfg) net = Some (said s s', []) # cs \<longrightarrow>
       (\<exists>net'. DistanceBetweenCID cfg prog [a0, a1, a2] [] net =
            Some (Ok (0, [Text [], Real (fpu x), Text [CHR 0x0A]], net')) \<and>
          said net net' = [put_order TORDER_DISTANCE_BETWEEN_CID, put_word cid1, put_word cid2]))"
proof -
  obtain s' where s': "ReceiveOrder fpu v s = Ok (v, s')" "said s s' = distance_msgs (fpu x)"
    using ReceiveOrder_distance [OF inv n c x] by blast
  have "DistanceBetweenCID cfg prog [a0, a1, a2] [] net = with_socket cfg (DistanceBetweenCID_body cid1 cid2) [] net" for net
    using args by (simp add: DistanceBetweenCID_def)
  note d = this
  show ?thesis
  proof (rule exI [of _ s'], intro conjI allI impI)
    show "ReceiveOrder fpu v s = Ok (v, s')" by (rule s')
    fix net cs assume "coming (address cfg) net = Some (said s s', []) # cs"
    then have "coming (address cfg) net = Some (distance_msgs (fpu x), []) # cs" by (simp only: s')
    from with_socket_performs [OF DistanceBetweenCID_performs(1) [of cid1 cid2] this, of "[]"]
    show "\<exists>net'. DistanceBetweenCID cfg prog [a0, a1, a2] [] net =
            Some (Ok (0, [Text [], Real (fpu x), Text [CHR 0x0A]], net')) \<and>
          said net net' = [put_order TORDER_DISTANCE_BETWEEN_CID, put_word cid1, put_word cid2]"
      unfolding d by auto
  qed
qed

text \<open>
  C16: \<^verbatim>\<open>vwifi-ctrl close\<close> disconnects everybody: the server that receives the order closes the
  descriptor of every enabled client and spy, watches only its four listening sockets, and remembers
  the most recent of the clients that were connected.
\<close>

theorem close_command:
  assumes inv: "server_inv (v, s)" and net: "coming (address cfg) net = Some ([], []) # cs"
  shows "\<exists>net'. CloseAllClient_ctrl cfg [] net = Some (Ok (0, [], net')) \<and>
    (next_client v s (said net net') \<longrightarrow>
       (\<exists>v' s'. ReceiveOrder fpu v s = Ok (v', s') \<and> InfoSockets (wifiServerITCP v') = [] \<and> InfoSockets (wifiServerSPY v') = [] \<and>
          set (ListNodes (Scheduler v')) = set (masters v) \<and>
          set (open_fds s') = set (open_fds s) - enabled_descriptors (wifiServerITCP v) - enabled_descriptors (wifiServerSPY v) \<and>
          InfoWifisDeconnected (wifiServerITCP v') = latest (MaxClientDeconnected (wifiServerITCP v))
            (InfoWifisDeconnected (wifiServerITCP v) @ InfoWifis (wifiServerITCP v))))"
proof -
  obtain net' where n: "CloseAllClient_ctrl cfg [] net = Some (Ok (0, [] @ [], net'))" "said net net' = [put_order TORDER_CLOSE_ALL_CLIENT]"
    using with_socket_performs [OF CloseAllClient_performs net, of "[]"] unfolding CloseAllClient_ctrl_def by blast
  with ReceiveOrder_close [OF inv, of fpu] show ?thesis by auto
qed

theorem close_command_witness:
  "\<exists>v s net' v' s'. CloseAllClient_ctrl config_new [] (sample_net []) = Some (Ok (0, [], net')) \<and>
     ReceiveOrder (\<lambda>_. 0) v s = Ok (v', s') \<and> set (ListNodes (Scheduler v')) = set (masters v)"
proof -
  obtain v0 s0 where "server_inv (v0, s0)" by (rule sample_server)
  from close_command [OF this sample_net_coming, of config_new]
  obtain net' where c: "CloseAllClient_ctrl config_new [] (sample_net []) = Some (Ok (0, [], net'))" by blast
  obtain v s where v: "server_inv (v, s)" "next_client v s (said (sample_net []) net')" by (rule sample_server)
  obtain n2 where n2: "CloseAllClient_ctrl config_new [] (sample_net []) = Some (Ok (0, [], n2))"
      "next_client v s (said (sample_net []) n2) \<longrightarrow> (\<exists>v' s'. ReceiveOrder (\<lambda>_. 0) v s = Ok (v', s') \<and> set (ListNodes (Scheduler v')) = set (masters v))"
    using close_command [OF v(1) sample_net_coming, of config_new "\<lambda>_. 0"] by blast
  have "n2 = net'" using c n2(1) by simp
  with n2 v(2) show ?thesis by blast
qed

text \<open>The same with one client connected, identifier 10, at the origin.\<close>

lemma sample_joined:
  obtains v s w where "server_inv (v, s)" "next_client v s ms" "InfoWifis (wifiServerITCP v) = [w]" "Cid w = 10"
    "coo_of w = CCoordinate_new" "Globals v = globals_new"
proof -
  obtain v s where v: "server_inv (v, s)" "next_client v s ms" "InfoWifis (wifiServerITCP v) = []" "Globals v = globals_new"
      "InfoWifisDeconnected (wifiServerITCP v) = []" "length (open_fds s) = 7" by (rule sample_server)
  define d where "d = lowest_free (open_fds s)"
  let ?s = "s\<lparr>open_fds := d # open_fds s\<rparr>"
  have d: "0 \<le> d" "d < FD_SETSIZE" "d \<notin> set (open_fds s)"
    using lowest_free_bound [of "open_fds s"] v(6)
    by (simp_all add: d_def lowest_free_nonneg lowest_free_fresh FD_SETSIZE_def)
  have ok: "server_ok v s" "InfoSockets (ctrlServer v) = []" using v(1) by (simp_all add: server_inv_def)
  have w: "wifi_ok (wifiServerITCP v)" using ok(1) by (simp add: server_ok_def)
  have "d \<notin> set (ListNodes (Scheduler v))" using server_okD(4,6) [OF ok(1)] d(3) by auto
  from AddNode_ok [OF server_okD(3) [OF ok(1)] this d(1,2)]
  obtain sched where a: "AddNode d (Scheduler v) = Inr sched" by blast
  have "d \<notin> set (descriptors (wifiServerITCP v))"
    using wifi_descriptors_open [OF ok(1), of False] d(3) by (auto simp: server_of_def)
  then have r: "wifi_ok (rejoin 10 d (server_of False v))"
    using w d(1) by (intro rejoin_wifi_ok) (simp_all add: server_of_def TCID_GUEST_MIN_def)
  let ?w = "(CInfoWifi_raw CCoordinate_new)\<lparr>Cid := 10\<rparr>"
  let ?v = "(put_server False (rejoin 10 d (server_of False v)) v)\<lparr>Scheduler := sched\<rparr>"
  have j: "InfoWifis (rejoin 10 d (wifiServerITCP v)) = [?w]"
    using v(3,5) by (simp add: rejoin_def join_as_def GetReferenceOnInfoWifiDeconnectedByCID_def)
  show thesis
  proof (rule that [of ?v ?s ?w])
    show "server_inv (?v, ?s)"
      using join_keeps [OF ok(1) d(3) _ r a, of ?s] ok(2) by (simp add: server_inv_def)
  qed (use v(2,4) j in \<open>simp_all add: next_client_def put_server_def server_of_def CInfoWifi_raw_def coo_of_def set_coo_defs
      CCoordinate.defs CCoordinate_new_def\<close>)
qed

theorem setname_command_witness:
  "\<exists>v s net' out' v' s'. SetName_ctrl config_new ''vwifi-ctrl'' [''setname'', ''10'', ''kitchen''] [] (sample_net []) = Some (Ok (0, out', net')) \<and>
     ReceiveOrder (\<lambda>_. 0) v s = Ok (v', s') \<and> map Name (InfoWifis (wifiServerITCP v')) = [''kitchen'']"
proof -
  have cid: "cid_arg ''10'' = Ok (Some 10)" by code_simp
  have i: "GetReferenceOnInfoWifiByCID 10 sv = Some 0" if "InfoWifis sv = [w]" "Cid w = 10" for sv w
    using that by (simp add: GetReferenceOnInfoWifiByCID_def)
  have cmd: "\<exists>net' out'. SetName_ctrl config_new ''vwifi-ctrl'' [''setname'', ''10'', ''kitchen''] [] (sample_net []) = Some (Ok (0, out', net')) \<and>
      (next_client v s (said (sample_net []) net') \<longrightarrow> (\<exists>v' s'. ReceiveOrder (\<lambda>_. 0) v s = Ok (v', s') \<and>
         map Name (InfoWifis (wifiServerITCP v')) = [''kitchen'']))"
    if "server_inv (v, s)" "InfoWifis (wifiServerITCP v) = [w]" "Cid w = 10" for v s w
    using setname_command [OF that(1) cid _ i [OF that(2,3)] sample_net_coming, of "''kitchen''" config_new "''vwifi-ctrl''" "''setname''" "[]" "\<lambda>_. 0"]
      that(2) by (auto simp: MAX_SIZE_NAME_def)
  obtain v0 s0 w0 where 0: "server_inv (v0, s0)" "InfoWifis (wifiServerITCP v0) = [w0]" "Cid w0 = 10" by (rule sample_joined)
  from cmd [OF 0] obtain net' out' where
    c: "SetName_ctrl config_new ''vwifi-ctrl'' [''setname'', ''10'', ''kitchen''] [] (sample_net []) = Some (Ok (0, out', net'))" by blast
  obtain v s w where v: "server_inv (v, s)" "next_client v s (said (sample_net []) net')"
      "InfoWifis (wifiServerITCP v) = [w]" "Cid w = 10" by (rule sample_joined)
  from cmd [OF v(1,3,4)] c v(2) show ?thesis by fastforce
qed


theorem distance_command_witness:
  "\<exists>v s s' net'. ReceiveOrder (\<lambda>_. 7) v s = Ok (v, s') \<and>
     DistanceBetweenCID config_new ''vwifi-ctrl'' [''distance'', ''10'', ''10''] [] (sample_net (said s s')) =
       Some (Ok (0, [Text [], Real 7, Text [CHR 0x0A]], net'))"
proof -
  have cid: "cid_arg ''10'' = Ok (Some 10)" by code_simp
  obtain v s w where v: "server_inv (v, s)" "next_client v s [put_order TORDER_DISTANCE_BETWEEN_CID, put_word (10 :: TCID), put_word (10 :: TCID)]"
      "InfoWifis (wifiServerITCP v) = [w]" "Cid w = 10" "coo_of w = CCoordinate_new" by (rule sample_joined)
  have c: "coordinate_of 10 (wifiServerITCP v) = Some CCoordinate_new"
    using v(3-5) by (simp add: coordinate_of_def GetReferenceOnInfoWifiByCID_def)
  obtain x where "DistanceWith (double_of_bits (Scale (Globals v))) CCoordinate_new CCoordinate_new = Ok x"
    by (simp add: DistanceWith_eq dist2_def)
  from distance_command [OF v(1) cid cid v(2) c c this, of "\<lambda>_. 7" config_new "''vwifi-ctrl''" "''distance''"]
  obtain s' where s': "ReceiveOrder (\<lambda>_. 7) v s = Ok (v, s')" and d: "\<forall>net cs. coming (address config_new) net = Some (said s s', []) # cs \<longrightarrow>
       (\<exists>net'. DistanceBetweenCID config_new ''vwifi-ctrl'' [''distance'', ''10'', ''10''] [] net =
            Some (Ok (0, [Text [], Real 7, Text [CHR 0x0A]], net')) \<and>
          said net net' = [put_order TORDER_DISTANCE_BETWEEN_CID, put_word (10 :: TCID), put_word (10 :: TCID)])" by blast
  from d sample_net_coming s' show ?thesis by blast
qed

theorem settings_command_witness:
  "\<exists>v s net1 net2 s'. let fpu = (\<lambda>_. 0x3FF0000000000000) in
     ChangePacketLoss_ctrl config_new ''vwifi-ctrl'' [''loss'', ''yes''] [] (sample_net []) = Some (Ok (0, [], net1)) \<and>
     SetScale_ctrl fpu config_new ''vwifi-ctrl'' [''scale'', ''1.0''] [] (sample_net []) = Some (Ok (0, [], net2)) \<and>
     ReceiveOrder fpu v s = Ok (v\<lparr>Globals := globals_new\<lparr>CanLostPackets := True\<rparr>\<rparr>, s')"
proof -
  let ?fpu = "\<lambda>_ :: double. 0x3FF0000000000000 :: 64 word"
  have "isIntOrFloat ''1.0''" by code_simp
  moreover have "double_of_bits 0x3FF0000000000000 = Fin 1" by (simp add: double_of_bits_def Let_def bit_iff_odd)
  ultimately have f: "isIntOrFloat ''1.0''" "\<not> not_positive (double_of_bits (atof ?fpu ''1.0''))"
    by (simp_all add: atof_def)
  have y: "''yes'' \<in> {''yes'', ''no''}" by simp
  obtain v0 s0 where "server_inv (v0, s0)" by (rule sample_server)
  from settings_command [OF this sample_net_coming y f, of config_new "''vwifi-ctrl''" "''loss''" "[]"]
  obtain net1 where c: "ChangePacketLoss_ctrl config_new ''vwifi-ctrl'' [''loss'', ''yes''] [] (sample_net []) = Some (Ok (0, [], net1))"
    by blast
  obtain v s where v: "server_inv (v, s)" "next_client v s (said (sample_net []) net1)" "Globals v = globals_new" by (rule sample_server)
  from settings_command [OF v(1) sample_net_coming y f, of config_new "''vwifi-ctrl''" "''loss''" "[]"]
  obtain n1 n2 where n: "ChangePacketLoss_ctrl config_new ''vwifi-ctrl'' [''loss'', ''yes''] [] (sample_net []) = Some (Ok (0, [], n1))"
    "next_client v s (said (sample_net []) n1) \<longrightarrow>
       (\<exists>s'. ReceiveOrder ?fpu v s = Ok (v\<lparr>Globals := (Globals v)\<lparr>CanLostPackets := (''yes'' = ''yes'')\<rparr>\<rparr>, s'))" by blast
  from settings_command [OF v(1) sample_net_coming y f, of config_new "''vwifi-ctrl''" "''scale''" "[]"]
  obtain n3 where n3: "SetScale_ctrl ?fpu config_new ''vwifi-ctrl'' [''scale'', ''1.0''] [] (sample_net []) = Some (Ok (0, [], n3))" by blast
  have "n1 = net1" using c n(1) by simp
  with n v(2,3) obtain s' where "ReceiveOrder ?fpu v s = Ok (v\<lparr>Globals := globals_new\<lparr>CanLostPackets := True\<rparr>\<rparr>, s')" by auto
  with c n3 show ?thesis unfolding Let_def by blast
qed



end
