(* ===== verification/Vwifi_Devices.thy ===== *)
theory Vwifi_Devices
  imports Vwifi_Tools "HOL-Library.Signed_Division"
begin

text \<open>
  The radio interfaces a guest knows (\<^verbatim>\<open>src/src/cwirelessdevice.cc\<close> and
  \<^verbatim>\<open>src/src/cwirelessdevicelist.cc\<close>). A \<^verbatim>\<open>std::map\<close> keyed by interface index is the list of its
  entries in increasing order of the key, which is the order the source iterates in.

  The interface \<open>device_store\<close> is what the client program relies on: the devices as a list in the order
  of their keys, and what adding and deleting mean for them. From it follows that two stores with the same
  devices list them alike, so a store is determined by the last notification about each interface. The
  lock around each operation makes it atomic.
\<close>

section \<open>Addresses\<close>

text \<open>\<^verbatim>\<open>struct ether_addr\<close>: six octets.\<close>

type_synonym ether_addr = "byte list"

definition ETH_ALEN :: nat where "ETH_ALEN = 6"

definition ether_zero :: ether_addr where "ether_zero = replicate ETH_ALEN (CHR 0x00)"

text \<open>\<^verbatim>\<open>%02X\<close> and the six of them with colons.\<close>

definition hex_upper :: "nat \<Rightarrow> char" where
  "hex_upper n = (if n < 10 then char_of (48 + n) else char_of (55 + n))"

definition hex2 :: "byte \<Rightarrow> string" where
  "hex2 b = [hex_upper (of_char b div 16), hex_upper (of_char b mod 16)]"

fun mac_address_to_string :: "ether_addr \<Rightarrow> string" where
  "mac_address_to_string [] = []"
| "mac_address_to_string [b] = hex2 b"
| "mac_address_to_string (b # bs) = hex2 b @ CHR '':'' # mac_address_to_string bs"

section \<open>Class WirelessDevice\<close>

record WirelessDevice =
  dev_name :: string
  dev_index :: int
  dev_iftype :: int
  dev_txpower :: int
  dev_macaddr :: ether_addr
  dev_machwsim :: ether_addr

definition WirelessDevice_hwsim ::
  "string \<Rightarrow> int \<Rightarrow> int \<Rightarrow> ether_addr \<Rightarrow> ether_addr \<Rightarrow> int \<Rightarrow> WirelessDevice" where
  "WirelessDevice_hwsim name index iftype macaddr machwsim txpower =
     \<lparr>dev_name = name, dev_index = index, dev_iftype = iftype, dev_txpower = txpower,
      dev_macaddr = macaddr, dev_machwsim = machwsim\<rparr>"

definition WirelessDevice_of :: "string \<Rightarrow> int \<Rightarrow> int \<Rightarrow> ether_addr \<Rightarrow> int \<Rightarrow> WirelessDevice" where
  "WirelessDevice_of name index iftype macaddr txpower =
     \<lparr>dev_name = name, dev_index = index, dev_iftype = iftype, dev_txpower = txpower,
      dev_macaddr = macaddr, dev_machwsim = macaddr\<rparr>"

definition getName :: "WirelessDevice \<Rightarrow> string" where "getName wd = dev_name wd"
definition getMacaddr :: "WirelessDevice \<Rightarrow> ether_addr" where "getMacaddr wd = dev_macaddr wd"
definition setMachwsim :: "ether_addr \<Rightarrow> WirelessDevice \<Rightarrow> WirelessDevice" where
  "setMachwsim machwsim wd = wd\<lparr>dev_machwsim := machwsim\<rparr>"
definition getMachwsim :: "WirelessDevice \<Rightarrow> ether_addr" where "getMachwsim wd = dev_machwsim wd"
definition getIndex :: "WirelessDevice \<Rightarrow> int" where "getIndex wd = dev_index wd"
definition getTxPower :: "WirelessDevice \<Rightarrow> int" where "getTxPower wd = dev_txpower wd"

text \<open>\<^verbatim>\<open>std::regex_match\<close> of the whole name with \<^verbatim>\<open>wlan[0-9]*\<close>.\<close>

definition checkif_wireless_device :: "WirelessDevice \<Rightarrow> bool" where
  "checkif_wireless_device wd \<longleftrightarrow>
     take 4 (dev_name wd) = ''wlan'' \<and> list_all is_digit (drop 4 (dev_name wd))"

definition ARPHRD_ETHER :: int where "ARPHRD_ETHER = 1"
definition ARPHRD_IEEE80211_RADIOTAP :: int where "ARPHRD_IEEE80211_RADIOTAP = 803"

definition line :: "string \<Rightarrow> string" where "line str = str @ [CHR 0x0A]"

definition WirelessDevice_Display :: "WirelessDevice \<Rightarrow> string" where
  "WirelessDevice_Display wd =
     line (''name: '' @ dev_name wd) @
     line (''index: '' @ show_int (dev_index wd)) @
     (if dev_iftype wd = ARPHRD_ETHER then line ''iftype: ARPHRD_ETHER''
      else if dev_iftype wd = ARPHRD_IEEE80211_RADIOTAP then line ''iftype: ARPHRD_IEEE80211_RADIOTAP''
      else line ''iftype: UNKNOWN'') @
     line (''mac:'' @ mac_address_to_string (dev_macaddr wd)) @
     line (''mac hwsim:'' @ mac_address_to_string (dev_machwsim wd)) @
     line (''Tx-Power : '' @ show_int (dev_txpower wd sdiv 100) @ ''.'' @ show_int (dev_txpower wd smod 100) @ ''dBm'')"

section \<open>Class WirelessDeviceList\<close>

fun map_put :: "int \<Rightarrow> 'a \<Rightarrow> (int \<times> 'a) list \<Rightarrow> (int \<times> 'a) list" where
  "map_put k v [] = [(k, v)]"
| "map_put k v ((k', v') # m) =
     (if k < k' then (k, v) # (k', v') # m
      else if k = k' then (k, v) # m
      else (k', v') # map_put k v m)"

fun map_erase :: "int \<Rightarrow> (int \<times> 'a) list \<Rightarrow> (int \<times> 'a) list" where
  "map_erase k [] = []"
| "map_erase k ((k', v') # m) = (if k = k' then m else (k', v') # map_erase k m)"

type_synonym WirelessDeviceList = "(int \<times> WirelessDevice) list"

definition WirelessDeviceList_new :: WirelessDeviceList where
  "WirelessDeviceList_new = []"

fun get_device_by_mac :: "ether_addr \<Rightarrow> WirelessDeviceList \<Rightarrow> WirelessDevice option" where
  "get_device_by_mac mac [] = None"
| "get_device_by_mac mac ((k, wd) # wds) =
     (if getMacaddr wd = mac then Some wd else get_device_by_mac mac wds)"

definition add_device :: "WirelessDevice \<Rightarrow> WirelessDeviceList \<Rightarrow> WirelessDeviceList" where
  "add_device wd wds = map_put (getIndex wd) wd wds"

definition delete_device :: "WirelessDevice \<Rightarrow> WirelessDeviceList \<Rightarrow> WirelessDeviceList" where
  "delete_device wd wds = map_erase (getIndex wd) wds"

definition delete_device_index :: "int \<Rightarrow> WirelessDeviceList \<Rightarrow> WirelessDeviceList" where
  "delete_device_index index wds = map_erase index wds"

definition list_devices :: "WirelessDeviceList \<Rightarrow> WirelessDevice list" where
  "list_devices wds = map snd wds"

definition WirelessDeviceList_Display :: "WirelessDeviceList \<Rightarrow> string" where
  "WirelessDeviceList_Display wds = concat (map (\<lambda>(k, wd). line (WirelessDevice_Display wd)) wds)"

section \<open>The interface: a store of devices by key\<close>

locale device_store =
  fixes add :: "'d \<Rightarrow> 's \<Rightarrow> 's"
    and del :: "int \<Rightarrow> 's \<Rightarrow> 's"
    and devices :: "'s \<Rightarrow> 'd list"
    and key :: "'d \<Rightarrow> int"
    and ok :: "'s \<Rightarrow> bool"
  assumes add_ok: "ok s \<Longrightarrow> ok (add d s)"
    and del_ok: "ok s \<Longrightarrow> ok (del k s)"
    and in_order: "ok s \<Longrightarrow> sorted_wrt (<) (map key (devices s))"
    and devices_add: "ok s \<Longrightarrow> set (devices (add d s)) = insert d {x \<in> set (devices s). key x \<noteq> key d}"
    and devices_del: "ok s \<Longrightarrow> set (devices (del k s)) = {x \<in> set (devices s). key x \<noteq> k}"
begin

lemma one_per_key: "ok s \<Longrightarrow> x \<in> set (devices s) \<Longrightarrow> y \<in> set (devices s) \<Longrightarrow> key x = key y \<Longrightarrow> x = y"
  using in_order [of s] strict_sorted_iff [of "map key (devices s)"] by (auto simp: distinct_map inj_on_def)

lemma determined: "ok s \<Longrightarrow> ok t \<Longrightarrow> set (devices s) = set (devices t) \<Longrightarrow> devices s = devices t"
proof -
  assume ok: "ok s" "ok t" and same: "set (devices s) = set (devices t)"
  have "map key (devices s) = map key (devices t)"
    using in_order [OF ok(1)] in_order [OF ok(2)] same
    by (intro strict_sorted_equal) simp_all
  moreover have "inj_on key (set (devices s) \<union> set (devices t))"
    using one_per_key [OF ok(1)] same by (auto simp: inj_on_def)
  ultimately show ?thesis by (simp add: inj_on_map_eq_map)
qed

lemma add_again: "ok s \<Longrightarrow> key c = key d \<Longrightarrow> devices (add d (add c s)) = devices (add d s)"
  by (intro determined) (auto simp: add_ok devices_add)

lemma add_then_del: "ok s \<Longrightarrow> devices (del (key d) (add d s)) = devices (del (key d) s)"
  by (intro determined) (auto simp: add_ok del_ok devices_add devices_del)

lemma add_commutes: "ok s \<Longrightarrow> key c \<noteq> key d \<Longrightarrow> devices (add c (add d s)) = devices (add d (add c s))"
  by (intro determined) (auto simp: add_ok devices_add)

end

lemma keys_map_put: "set (map fst (map_put k v m)) = insert k (set (map fst m))"
  by (induction k v m rule: map_put.induct) auto

lemma map_put_sorted: "sorted_wrt (<) (map fst m) \<Longrightarrow> sorted_wrt (<) (map fst (map_put k v m))"
proof (induction k v m rule: map_put.induct)
  case (2 k v k' v' m)
  show ?case
  proof (cases "k < k' \<or> k = k'")
    case True
    with 2(2) show ?thesis by force
  next
    case False
    with 2 have "sorted_wrt (<) (map fst (map_put k v m))" by simp
    with False 2(2) show ?thesis using keys_map_put [of k v m] by (simp flip: set_map)
  qed
qed simp

lemma set_map_put:
  "sorted_wrt (<) (map fst m) \<Longrightarrow> set (map_put k v m) = insert (k, v) {e \<in> set m. fst e \<noteq> k}"
proof (induction k v m rule: map_put.induct)
  case (2 k v k' v' m)
  have above: "\<And>e. e \<in> set m \<Longrightarrow> k' < fst e" using 2(2) by simp
  show ?case
  proof (cases "k < k' \<or> k = k'")
    case True
    then have "\<And>e. e \<in> set m \<Longrightarrow> fst e \<noteq> k" using above by fastforce
    with True show ?thesis by auto
  next
    case False
    with 2 show ?thesis by auto
  qed
qed simp

lemma set_map_erase:
  "sorted_wrt (<) (map fst m) \<Longrightarrow> set (map_erase k m) = {e \<in> set m. fst e \<noteq> k}"
proof (induction k m rule: map_erase.induct)
  case (2 k k' v' m)
  have "\<And>e. e \<in> set m \<Longrightarrow> k' < fst e" using 2(2) by simp
  then have "k = k' \<Longrightarrow> {e \<in> set ((k', v') # m). fst e \<noteq> k} = set m" by fastforce
  with 2 show ?case by (cases "k = k'") auto
qed simp

lemma map_erase_sorted: "sorted_wrt (<) (map fst m) \<Longrightarrow> sorted_wrt (<) (map fst (map_erase k m))"
proof (induction k m rule: map_erase.induct)
  case (2 k k' v' m)
  then show ?case using set_map_erase [of m k] by auto
qed simp

text \<open>What the class keeps: the keys increase and every device stands under its own index.\<close>

definition devices_ok :: "WirelessDeviceList \<Rightarrow> bool" where
  "devices_ok wds \<longleftrightarrow> sorted_wrt (<) (map fst wds) \<and> (\<forall>(k, wd) \<in> set wds. k = getIndex wd)"

lemma devices_ok_keys: "devices_ok wds \<Longrightarrow> map fst wds = map getIndex (list_devices wds)"
  by (auto simp: devices_ok_def list_devices_def)

lemma devices_ok_new [simp]: "devices_ok WirelessDeviceList_new"
  by (simp add: devices_ok_def WirelessDeviceList_new_def)

interpretation wdevs: device_store add_device delete_device_index list_devices getIndex devices_ok
proof
  fix s :: WirelessDeviceList and d k assume s: "devices_ok s"
  then have srt: "sorted_wrt (<) (map fst s)" and own: "\<And>k wd. (k, wd) \<in> set s \<Longrightarrow> k = getIndex wd"
    by (auto simp: devices_ok_def)
  note put = set_map_put [OF srt] and er = set_map_erase [OF srt]
  show "devices_ok (add_device d s)"
    using map_put_sorted [OF srt] own by (auto simp: devices_ok_def add_device_def put)
  show "devices_ok (delete_device_index k s)"
    using map_erase_sorted [OF srt] own by (auto simp: devices_ok_def delete_device_index_def er)
  show "sorted_wrt (<) (map getIndex (list_devices s))"
    using srt devices_ok_keys [OF s] by simp
  show "set (list_devices (add_device d s)) = insert d {x \<in> set (list_devices s). getIndex x \<noteq> getIndex d}"
    using own by (fastforce simp: list_devices_def add_device_def put)
  show "set (list_devices (delete_device_index k s)) = {x \<in> set (list_devices s). getIndex x \<noteq> k}"
    using own by (fastforce simp: list_devices_def delete_device_index_def er)
qed

lemma delete_device_eq: "delete_device wd = delete_device_index (getIndex wd)"
  by (simp add: fun_eq_iff delete_device_def delete_device_index_def)

lemma get_device_by_mac_Some:
  "get_device_by_mac mac wds = Some wd \<Longrightarrow> wd \<in> set (list_devices wds) \<and> getMacaddr wd = mac"
  by (induction mac wds rule: get_device_by_mac.induct) (auto simp: list_devices_def split: if_splits)

lemma get_device_by_mac_None:
  "get_device_by_mac mac wds = None \<longleftrightarrow> (\<forall>wd \<in> set (list_devices wds). getMacaddr wd \<noteq> mac)"
  by (induction mac wds rule: get_device_by_mac.induct) (auto simp: list_devices_def)

section \<open>Notifications\<close>

text \<open>
  The specification of the list: what is known of the interface with index \<open>k\<close> after a sequence of
  notifications is the last one about it.
\<close>

datatype notification = Found WirelessDevice | Gone WirelessDevice

fun notify :: "notification \<Rightarrow> WirelessDeviceList \<Rightarrow> WirelessDeviceList" where
  "notify (Found wd) wds = add_device wd wds"
| "notify (Gone wd) wds = delete_device wd wds"

fun known :: "notification list \<Rightarrow> int \<Rightarrow> WirelessDevice option" where
  "known [] k = None"
| "known (Found wd # ns) k = (if k = getIndex wd then Some wd else known ns k)"
| "known (Gone wd # ns) k = (if k = getIndex wd then None else known ns k)"

lemma known_index: "known ns k = Some wd \<Longrightarrow> getIndex wd = k"
  by (induction ns k rule: known.induct) (auto split: if_splits)

lemma notify_known:
  "devices_ok (foldr notify ns WirelessDeviceList_new) \<and>
   (\<forall>wd. wd \<in> set (list_devices (foldr notify ns WirelessDeviceList_new)) \<longleftrightarrow> known ns (getIndex wd) = Some wd)"
proof (induction ns)
  case Nil
  show ?case by (simp add: list_devices_def WirelessDeviceList_new_def devices_ok_def)
next
  case (Cons n ns)
  then show ?case
    by (cases n) (auto simp: delete_device_eq wdevs.add_ok wdevs.del_ok wdevs.devices_add wdevs.devices_del)
qed

text \<open>
  C19: after any sequence of notifications (the newest first), the list of devices holds exactly the last known
  device of every interface, in increasing order of the interface index.
\<close>

theorem devices_are_last_known:
  "(\<forall>wd. wd \<in> set (list_devices (foldr notify ns WirelessDeviceList_new)) \<longleftrightarrow> known ns (getIndex wd) = Some wd) \<and>
   sorted_wrt (<) (map getIndex (list_devices (foldr notify ns WirelessDeviceList_new)))"
  using notify_known [of ns] wdevs.in_order by blast

end
