(* ===== verification/Vwifi_Netlink.thy ===== *)
theory Vwifi_Netlink
  imports Vwifi_Devices
begin

text \<open>
  What the guest programs use of the kernel driver \<^verbatim>\<open>mac80211_hwsim\<close>: its commands, attributes and flags
  (\<^verbatim>\<open>src/src/mac80211_hwsim.h\<close>), and messages to it through libnl.

  libnl is not part of the sources. The state \<open>kernel\<close> has the outcomes of the calls that are still to come:
  for every call that can fail, whether it does (with none listed, it succeeds), and what
  \<^verbatim>\<open>genl_ctrl_resolve\<close> will return (with none listed, that the family is unknown). They are arbitrary in
  every theorem. The messages that were handed to the kernel are recorded.
\<close>

section \<open>The driver's enumerations\<close>

datatype hwsim_commands = HWSIM_CMD_UNSPEC | HWSIM_CMD_REGISTER | HWSIM_CMD_FRAME | HWSIM_CMD_TX_INFO_FRAME
  | HWSIM_CMD_NEW_RADIO | HWSIM_CMD_DEL_RADIO | HWSIM_CMD_GET_RADIO | HWSIM_CMD_ADD_MAC_ADDR
  | HWSIM_CMD_DEL_MAC_ADDR | HWSIM_CMD_START_PMSR | HWSIM_CMD_ABORT_PMSR | HWSIM_CMD_REPORT_PMSR

fun command_code :: "hwsim_commands \<Rightarrow> nat" where
  "command_code HWSIM_CMD_UNSPEC = 0"
| "command_code HWSIM_CMD_REGISTER = 1"
| "command_code HWSIM_CMD_FRAME = 2"
| "command_code HWSIM_CMD_TX_INFO_FRAME = 3"
| "command_code HWSIM_CMD_NEW_RADIO = 4"
| "command_code HWSIM_CMD_DEL_RADIO = 5"
| "command_code HWSIM_CMD_GET_RADIO = 6"
| "command_code HWSIM_CMD_ADD_MAC_ADDR = 7"
| "command_code HWSIM_CMD_DEL_MAC_ADDR = 8"
| "command_code HWSIM_CMD_START_PMSR = 9"
| "command_code HWSIM_CMD_ABORT_PMSR = 10"
| "command_code HWSIM_CMD_REPORT_PMSR = 11"

datatype hwsim_attrs = HWSIM_ATTR_UNSPEC | HWSIM_ATTR_ADDR_RECEIVER | HWSIM_ATTR_ADDR_TRANSMITTER
  | HWSIM_ATTR_FRAME | HWSIM_ATTR_FLAGS | HWSIM_ATTR_RX_RATE | HWSIM_ATTR_SIGNAL | HWSIM_ATTR_TX_INFO
  | HWSIM_ATTR_COOKIE | HWSIM_ATTR_CHANNELS | HWSIM_ATTR_RADIO_ID | HWSIM_ATTR_REG_HINT_ALPHA2
  | HWSIM_ATTR_REG_CUSTOM_REG | HWSIM_ATTR_REG_STRICT_REG | HWSIM_ATTR_SUPPORT_P2P_DEVICE
  | HWSIM_ATTR_USE_CHANCTX | HWSIM_ATTR_DESTROY_RADIO_ON_CLOSE | HWSIM_ATTR_RADIO_NAME | HWSIM_ATTR_NO_VIF
  | HWSIM_ATTR_FREQ | HWSIM_ATTR_PAD | HWSIM_ATTR_TX_INFO_FLAGS | HWSIM_ATTR_PERM_ADDR
  | HWSIM_ATTR_IFTYPE_SUPPORT | HWSIM_ATTR_CIPHER_SUPPORT | HWSIM_ATTR_MLO_SUPPORT
  | HWSIM_ATTR_PMSR_SUPPORT | HWSIM_ATTR_PMSR_REQUEST | HWSIM_ATTR_PMSR_RESULT | HWSIM_ATTR_MULTI_RADIO

datatype hwsim_tx_control_flags = HWSIM_TX_CTL_REQ_TX_STATUS | HWSIM_TX_CTL_NO_ACK | HWSIM_TX_STAT_ACK

fun tx_control_bit :: "hwsim_tx_control_flags \<Rightarrow> 32 word" where
  "tx_control_bit HWSIM_TX_CTL_REQ_TX_STATUS = push_bit 0 1"
| "tx_control_bit HWSIM_TX_CTL_NO_ACK = push_bit 1 1"
| "tx_control_bit HWSIM_TX_STAT_ACK = push_bit 2 1"

definition IEEE80211_TX_MAX_RATES :: nat where "IEEE80211_TX_MAX_RATES = 4"

text \<open>\<^verbatim>\<open>struct hwsim_tx_rate\<close> is packed: an index and a count.\<close>

record hwsim_tx_rate =
  tx_idx :: "8 word"
  tx_count :: "8 word"

definition sizeof_hwsim_tx_rate :: nat where "sizeof_hwsim_tx_rate = 2"

definition KERNEL_HWSIM_FAMILY_NAME :: string where "KERNEL_HWSIM_FAMILY_NAME = ''MAC80211_HWSIM''"

section \<open>Messages to the kernel\<close>

record nl_msg =
  msg_family :: int
  msg_cmd :: hwsim_commands
  msg_attrs :: "(hwsim_attrs \<times> byte list) list"

record kernel =
  nl_fails :: "bool list"
  nl_families :: "int list"
  nl_sent :: "nl_msg list"

definition nl_call :: "kernel \<Rightarrow> bool \<times> kernel" where
  "nl_call k = (case nl_fails k of [] \<Rightarrow> (True, k) | b # bs \<Rightarrow> (\<not> b, k\<lparr>nl_fails := bs\<rparr>))"

definition nl_send_auto :: "nl_msg \<Rightarrow> kernel \<Rightarrow> bool \<times> kernel" where
  "nl_send_auto msg k =
     (let (ok, k) = nl_call k in (ok, if ok then k\<lparr>nl_sent := nl_sent k @ [msg]\<rparr> else k))"

text \<open>\<^verbatim>\<open>nla_put\<close> and its variants in a row, \<^verbatim>\<open>||\<close> between them: the first that fails ends the row.\<close>

fun nla_puts :: "(hwsim_attrs \<times> byte list) list \<Rightarrow> nl_msg \<Rightarrow> kernel \<Rightarrow> bool \<times> nl_msg \<times> kernel" where
  "nla_puts [] msg k = (True, msg, k)"
| "nla_puts (a # as) msg k =
     (let (ok, k) = nl_call k
      in if ok then nla_puts as (msg\<lparr>msg_attrs := msg_attrs msg @ [a]\<rparr>) k else (False, msg, k))"

definition genl_ctrl_resolve :: "string \<Rightarrow> kernel \<Rightarrow> int \<times> kernel" where
  "genl_ctrl_resolve name k = (case nl_families k of [] \<Rightarrow> (-1, k) | f # fs \<Rightarrow> (f, k\<lparr>nl_families := fs\<rparr>))"

text \<open>
  An exchange with the kernel in which no call fails, and what every exchange keeps: messages are only added.
\<close>

definition nl_healthy :: "kernel \<Rightarrow> bool" where "nl_healthy k \<longleftrightarrow> nl_fails k = []"

lemma nl_call_healthy [simp]: "nl_healthy k \<Longrightarrow> nl_call k = (True, k)"
  by (simp add: nl_call_def nl_healthy_def)

lemma nl_healthy_sent [simp]: "nl_healthy (k\<lparr>nl_sent := l\<rparr>) = nl_healthy k"
  "nl_healthy (k\<lparr>nl_families := f\<rparr>) = nl_healthy k"
  by (simp_all add: nl_healthy_def)

lemma nl_send_healthy [simp]:
  "nl_healthy k \<Longrightarrow> nl_send_auto msg k = (True, k\<lparr>nl_sent := nl_sent k @ [msg]\<rparr>)"
  by (simp add: nl_send_auto_def)

lemma nla_puts_healthy [simp]:
  "nl_healthy k \<Longrightarrow> nla_puts as msg k = (True, msg\<lparr>msg_attrs := msg_attrs msg @ as\<rparr>, k)"
  by (induction as arbitrary: msg) simp_all

lemma nl_call_sent: "nl_call k = (ok, k') \<Longrightarrow> nl_sent k' = nl_sent k"
  by (auto simp: nl_call_def split: list.splits)

lemma nla_puts_sent: "nla_puts as msg k = (ok, msg', k') \<Longrightarrow> nl_sent k' = nl_sent k"
  by (induction as arbitrary: msg k) (auto split: prod.splits if_splits dest: nl_call_sent)

lemma nla_puts_ok:
  "nla_puts as msg k = (True, msg', k') \<Longrightarrow> msg' = msg\<lparr>msg_attrs := msg_attrs msg @ as\<rparr>"
  by (induction as arbitrary: msg k) (fastforce split: prod.splits if_splits)+

declare nla_puts.simps(2) [simp del]

lemma nl_send_auto_sent:
  "nl_send_auto msg k = (ok, k') \<Longrightarrow> nl_sent k' = (if ok then nl_sent k @ [msg] else nl_sent k)"
  by (auto simp: nl_send_auto_def Let_def split: prod.splits if_splits dest: nl_call_sent)

end
