(* ===== verification/Vwifi_AddInterfaces.thy ===== *)
theory Vwifi_AddInterfaces
  imports Vwifi_Netlink
begin

text \<open>
  The creation of the simulated radios (\<^verbatim>\<open>src/src/addinterfaces.cc\<close>), which \<^verbatim>\<open>vwifi-client\<close> does at its
  start and the program \<^verbatim>\<open>vwifi-add-interfaces\<close> (\<^verbatim>\<open>src/src/vwifi-add-interfaces.cc\<close>) on its own.

  Shown: an address that was printed is read back unchanged; the radios that a call asks the driver for have
  the given prefix and distinct addresses, and the call fails exactly when some message did not go out; what
  the program does for every command line. What the programs print is left out.
\<close>

section \<open>Reading an address\<close>

definition DEFAULT_MAC_PREFIX :: string where "DEFAULT_MAC_PREFIX = ''74:F8:F6''"

definition hex_digit :: "char \<Rightarrow> nat option" where
  "hex_digit c =
     (let n = of_char c in
      if 48 \<le> n \<and> n \<le> 57 then Some (n - 48)
      else if 65 \<le> n \<and> n \<le> 70 then Some (n - 55)
      else if 97 \<le> n \<and> n \<le> 102 then Some (n - 87)
      else None)"

fun hex_run :: "nat \<Rightarrow> string \<Rightarrow> nat \<times> string" where
  "hex_run acc [] = (acc, [])"
| "hex_run acc (c # cs) = (case hex_digit c of None \<Rightarrow> (acc, c # cs) | Some n \<Rightarrow> hex_run (16 * acc + n) cs)"

definition skip_0x :: "string \<Rightarrow> string" where
  "skip_0x str = (if take 1 str = ''0'' \<and> take 1 (drop 1 str) \<in> {''x'', ''X''} then drop 2 str else str)"

text \<open>
  One conversion \<^verbatim>\<open>%hhx\<close>, after the white space: an optional sign, an optional prefix \<^verbatim>\<open>0x\<close> and at least one
  digit. \<^const>\<open>None\<close> is a matching failure; a value that a \<^verbatim>\<open>TByte\<close> cannot hold is undefined.
\<close>

definition scan_hhx :: "string \<Rightarrow> (byte \<times> string) option result" where
  "scan_hhx str =
     (let digits = skip_0x (skip_sign str); (v, rest) = hex_run 0 digits in
      if rest = digits then Ok None
      else if v < 256 \<and> (take 1 str \<noteq> ''-'' \<or> v = 0) then Ok (Some (char_of v, rest))
      else Fault Undefined_behaviour)"

text \<open>
  \<^verbatim>\<open>sscanf\<close> of \<open>n\<close> conversions with \<^verbatim>\<open>:\<close> between them, \<open>i\<close> done before: the number of octets assigned, or
  \<^verbatim>\<open>EOF\<close> when the input ends before the first.
\<close>

fun scan_octets :: "nat \<Rightarrow> nat \<Rightarrow> string \<Rightarrow> ether_addr \<Rightarrow> (int \<times> ether_addr) result" where
  "scan_octets 0 i str addr = Ok (int i, addr)"
| "scan_octets (Suc n) i str addr =
     (let str = dropWhile is_space str in
      if str = [] then Ok (if i = 0 then -1 else int i, addr)
      else rbind (scan_hhx str) (\<lambda>r. case r of
          None \<Rightarrow> Ok (int i, addr)
        | Some (b, rest) \<Rightarrow>
            if n \<noteq> 0 \<and> take 1 rest \<noteq> '':'' then Ok (int (Suc i), addr[i := b])
            else scan_octets n (Suc i) (drop 1 rest) (addr[i := b])))"

definition ParseAddress :: "string \<Rightarrow> ether_addr \<Rightarrow> (int \<times> ether_addr) result" where
  "ParseAddress str addr = scan_octets 6 0 str addr"

text \<open>\<^verbatim>\<open>ParseInt\<close>: \<^verbatim>\<open>sscanf\<close> with \<^verbatim>\<open>%d\<close>; the value is \<^const>\<open>None\<close> when nothing was assigned.\<close>

definition ParseInt :: "string \<Rightarrow> (int \<times> int option) result" where
  "ParseInt str =
     (let str = dropWhile is_space str in
      if str = [] then Ok (-1, None)
      else if \<not> list_all is_digit (take 1 (skip_sign str)) \<or> skip_sign str = [] then Ok (0, None)
      else rbind (s32 (signed_val str)) (\<lambda>v. Ok (1, Some v)))"

section \<open>Creating radios\<close>

definition CreateNlMessage :: "int \<Rightarrow> hwsim_commands \<Rightarrow> kernel \<Rightarrow> nl_msg option \<times> kernel" where
  "CreateNlMessage family cmd k =
     (let (ok, k) = nl_call k in
      if \<not> ok then (None, k)
      else let (user, k) = nl_call k in
        if \<not> user then (None, k) else (Some \<lparr>msg_family = family, msg_cmd = cmd, msg_attrs = []\<rparr>, k))"

definition BuildCreateRadioMessage :: "int \<Rightarrow> ether_addr \<Rightarrow> kernel \<Rightarrow> nl_msg option \<times> kernel" where
  "BuildCreateRadioMessage family mac k =
     (case CreateNlMessage family HWSIM_CMD_NEW_RADIO k of
        (None, k) \<Rightarrow> (None, k)
      | (Some msg, k) \<Rightarrow>
          (let (ok, msg, k) = nla_puts [(HWSIM_ATTR_PERM_ADDR, mac), (HWSIM_ATTR_SUPPORT_P2P_DEVICE, [])] msg k
           in if ok then (Some msg, k) else (None, k)))"

fun CreateRadios_loop :: "int \<Rightarrow> int \<Rightarrow> nat list \<Rightarrow> ether_addr \<Rightarrow> kernel \<Rightarrow> int \<times> ether_addr \<times> kernel" where
  "CreateRadios_loop family nRadios [] mac k = (0, mac, k)"
| "CreateRadios_loop family nRadios (idx # idxs) mac k =
     (let mac = (if nRadios \<noteq> 1 then mac[5 := char_of idx] else mac);
          (msg, k) = BuildCreateRadioMessage family mac k
      in case msg of
           None \<Rightarrow> (1, mac, k)
         | Some msg \<Rightarrow>
             (let (ok, k) = nl_send_auto msg k
              in if \<not> ok then (1, mac, k) else CreateRadios_loop family nRadios idxs mac k))"

definition CreateRadios :: "int \<Rightarrow> int \<Rightarrow> ether_addr \<Rightarrow> kernel \<Rightarrow> int \<times> ether_addr \<times> kernel" where
  "CreateRadios family nRadios mac k = CreateRadios_loop family nRadios [0..<nat nRadios] mac k"

definition ManageRadios :: "int \<Rightarrow> ether_addr \<Rightarrow> kernel \<Rightarrow> int \<times> ether_addr \<times> kernel" where
  "ManageRadios nRadios macPrefix k =
     (let (ok, k) = nl_call k in
      if \<not> ok then (1, macPrefix, k)
      else let (ok, k) = nl_call k in
        if \<not> ok then (1, macPrefix, k)
        else let (netlinkFamily, k) = genl_ctrl_resolve KERNEL_HWSIM_FAMILY_NAME k in
          if netlinkFamily < 0 then (2, macPrefix, k)
          else CreateRadios netlinkFamily nRadios macPrefix k)"

section \<open>The program vwifi-add-interfaces\<close>

text \<open>
  The start of both programs: the default prefix, its fourth octet from the random number \<open>r\<close> (the default
  has at most eight characters).
\<close>

definition default_prefix :: "nat \<Rightarrow> (int \<times> ether_addr) result" where
  "default_prefix r =
     rbind (ParseAddress DEFAULT_MAC_PREFIX ether_zero) (\<lambda>(n, mac).
     Ok (n, if length DEFAULT_MAC_PREFIX \<le> 8 then mac[3 := char_of (r mod 100)] else mac))"

text \<open>The arguments; \<^const>\<open>Inl\<close> is the exit code of a run that ends here, \<^const>\<open>None\<close> an uninitialised number.\<close>

fun add_args :: "string list \<Rightarrow> nat \<Rightarrow> int option \<Rightarrow> ether_addr \<Rightarrow> (int + int option \<times> ether_addr) result" where
  "add_args [] arg_used nRadios mac = Ok (Inr (nRadios, mac))"
| "add_args (arg # args) arg_used nRadios mac =
     (if arg = ''-v'' \<or> arg = ''--version'' then Ok (Inl 0)
      else if arg = ''-h'' \<or> arg = ''--help'' then Ok (Inl 0)
      else if take 1 arg = ''-'' then Ok (Inl 1)
      else if arg_used = 1 then
        rbind (ParseInt arg) (\<lambda>(n, v).
        if n = 0 then Ok (Inl 2)
        else case (case v of None \<Rightarrow> nRadios | Some v \<Rightarrow> Some v) of
            None \<Rightarrow> Fault Undefined_behaviour
          | Some v \<Rightarrow>
              if v < 1 then Ok (Inl 3) else if v > 100 then Ok (Inl 4)
              else add_args args (arg_used + 1) (Some v) mac)
      else if arg_used = 2 then
        (if length arg > 17 then Ok (Inl 5)
         else rbind (ParseAddress arg mac) (\<lambda>(n, mac).
           if n = 0 then Ok (Inl 6) else add_args args (arg_used + 1) nRadios mac))
      else add_args args arg_used nRadios mac)"

text \<open>The arguments without the program's name, whether it runs as as_root, the random number.\<close>

definition add_interfaces_main :: "string list \<Rightarrow> bool \<Rightarrow> nat \<Rightarrow> kernel \<Rightarrow> (int \<times> kernel) result" where
  "add_interfaces_main args as_root r k =
     (if args = [] then Ok (0, k)
      else rbind (default_prefix r) (\<lambda>(n, mac).
        if n = 0 then Ok (6, k)
        else rbind (add_args args 1 None mac) (\<lambda>c.
          case c of
            Inl n \<Rightarrow> Ok (n, k)
          | Inr (nRadios, mac) \<Rightarrow>
              if \<not> as_root then Ok (2, k)
              else case nRadios of
                  None \<Rightarrow> Fault Undefined_behaviour
                | Some n \<Rightarrow> (let (ret, mac, k) = ManageRadios n mac k in Ok (ret, k)))))"

section \<open>Addresses\<close>

lemma hex_digit_upper: "n < 16 \<Longrightarrow> hex_digit (hex_upper n) = Some n"
  by (auto simp: hex_digit_def hex_upper_def Let_def)

lemma hex_upper_plain: "n < 16 \<Longrightarrow> hex_upper n \<notin> {CHR ''x'', CHR ''X'', CHR ''-'', CHR ''+''} \<and> \<not> is_space (hex_upper n)"
proof -
  have "of_char (hex_upper n) \<in> {48..57} \<union> {65..(70 :: nat)}" if "n < 16"
    using that by (auto simp: hex_upper_def)
  moreover have "of_char c \<notin> {48..57} \<union> {65..(70 :: nat)}" if "c \<in> {CHR ''x'', CHR ''X'', CHR ''-'', CHR ''+''} \<or> is_space c" for c
    using that by (auto simp: is_space_def)
  ultimately show "n < 16 \<Longrightarrow> ?thesis" by blast
qed

lemma nibbles: "of_char b div 16 < (16 :: nat)" "of_char b mod 16 < (16 :: nat)"
  using nat_of_char_less_256 [of b] by (simp_all add: less_mult_imp_div_less)

lemma scan_hhx_hex2:
  assumes "rest = [] \<or> (\<exists>r. rest = CHR '':'' # r)"
  shows "scan_hhx (hex2 b @ rest) = Ok (Some (b, rest))"
proof -
  define h l :: nat where "h = of_char b div 16" and "l = of_char b mod 16"
  have hl: "h < 16" "l < 16" and v: "16 * h + l = of_char b"
    using nibbles [of b] by (simp_all add: h_def l_def)
  have b: "hex2 b = [hex_upper h, hex_upper l]" by (simp add: hex2_def h_def l_def)
  have colon: "hex_digit (CHR '':'') = None" by (simp add: hex_digit_def)
  have "hex_run 0 (hex2 b @ rest) = (of_char b, rest)"
    using assms v by (auto simp: b hex_digit_upper hl colon)
  moreover have "skip_0x (skip_sign (hex2 b @ rest)) = hex2 b @ rest" "take 1 (hex2 b @ rest) \<noteq> ''-''"
    using hex_upper_plain [OF hl(1)] hex_upper_plain [OF hl(2)]
    by (auto simp: b is_sign_def skip_0x_def)
  ultimately show ?thesis
    using nat_of_char_less_256 [of b] by (simp add: scan_hhx_def b)
qed

lemma hex2_no_space: "dropWhile is_space (hex2 b @ rest) = hex2 b @ rest"
  using hex_upper_plain [OF nibbles(1) [of b]] by (simp add: hex2_def)

lemma mac_string_Cons: "bs \<noteq> [] \<Longrightarrow> mac_address_to_string (b # bs) = hex2 b @ CHR '':'' # mac_address_to_string bs"
  by (cases bs) simp_all

lemma scan_octets_mac:
  "length bs = n \<Longrightarrow> 0 < n \<Longrightarrow> i + n = length addr \<Longrightarrow>
   scan_octets n i (mac_address_to_string bs) addr = Ok (int (length addr), take i addr @ bs)"
proof (induction n arbitrary: i bs addr)
  case (Suc n)
  then obtain b bs' where bs: "bs = b # bs'" "length bs' = n" by (cases bs) auto
  have ne: "hex2 b \<noteq> []" by (simp add: hex2_def)
  show ?case
  proof (cases "bs' = []")
    case True
    then have "n = 0" "Suc i = length addr" using bs(2) Suc.prems(3) by simp_all
    then show ?thesis
      using True scan_hhx_hex2 [of "[]" b] hex2_no_space [of b "[]"] ne
      by (simp add: bs(1) upd_conv_take_nth_drop \<open>n = 0\<close>)
  next
    case False
    then have n: "0 < n" using bs(2) by auto
    have "scan_octets (Suc n) i (mac_address_to_string bs) addr =
        scan_octets n (Suc i) (mac_address_to_string bs') (addr[i := b])"
      using False scan_hhx_hex2 hex2_no_space ne n by (simp add: bs(1) mac_string_Cons)
    also have "\<dots> = Ok (int (length (addr[i := b])), take (Suc i) (addr[i := b]) @ bs')"
      using Suc.prems(3) by (intro Suc.IH [OF bs(2) n]) simp
    also have "take (Suc i) (addr[i := b]) @ bs' = take i addr @ bs"
      using Suc.prems(3) bs(1) by (simp add: take_Suc_conv_app_nth)
    finally show ?thesis by simp
  qed
qed simp

text \<open>
  An address that the programs print with \<^verbatim>\<open>%02X\<close> and colons, as the guest does, is read back by
  \<^verbatim>\<open>ParseAddress\<close> into any variable, all six octets, without error.
\<close>

lemma ParseAddress_mac:
  "length mac = ETH_ALEN \<Longrightarrow> length addr = ETH_ALEN \<Longrightarrow> ParseAddress (mac_address_to_string mac) addr = Ok (6, mac)"
  using scan_octets_mac [of mac 6 0 addr] by (simp add: ParseAddress_def ETH_ALEN_def)

lemma ParseAddress_steps: "ParseAddress str addr = scan_octets (Suc (Suc (Suc (Suc (Suc (Suc 0)))))) 0 str addr"
  unfolding ParseAddress_def by (simp only: eval_nat_numeral BitM.simps Suc_numeral)

lemma ether_zero_octets: "ether_zero = [CHR 0x00, CHR 0x00, CHR 0x00, CHR 0x00, CHR 0x00, CHR 0x00]"
  by (simp add: ether_zero_def ETH_ALEN_def eval_nat_numeral)

lemma prefix_octets: "char_of (116 :: nat) = CHR 0x74" "char_of (248 :: nat) = CHR 0xF8" "char_of (246 :: nat) = CHR 0xF6"
  by (simp_all add: char_of_def bit_Suc_0_iff)

lemma default_prefix_value:
  "default_prefix r = Ok (3, [CHR 0x74, CHR 0xF8, CHR 0xF6, char_of (r mod 100), CHR 0x00, CHR 0x00])"
proof -
  have "ParseAddress DEFAULT_MAC_PREFIX ether_zero = Ok (3, [CHR 0x74, CHR 0xF8, CHR 0xF6, CHR 0x00, CHR 0x00, CHR 0x00])"
    by (simp add: ParseAddress_steps DEFAULT_MAC_PREFIX_def ether_zero_octets prefix_octets
        scan_hhx_def is_space_def is_sign_def hex_digit_def skip_0x_def Let_def)
  then show ?thesis
    by (simp add: default_prefix_def DEFAULT_MAC_PREFIX_def)
qed

text \<open>
  An empty argument is no error for \<^verbatim>\<open>ParseAddress\<close>'s callers: \<^verbatim>\<open>sscanf\<close> returns \<^verbatim>\<open>EOF\<close>, which is not 0.
  As the number of radios it leaves the variable uninitialised.
\<close>

lemma empty_prefix_accepted: "ParseAddress [] addr = Ok (-1, addr)"
  by (simp add: ParseAddress_steps)

lemma empty_number_undefined: "add_interfaces_main [[]] as_root r k = Fault Undefined_behaviour"
  by (simp add: add_interfaces_main_def default_prefix_value ParseInt_def)

section \<open>Radios\<close>

definition radio_address :: "int \<Rightarrow> ether_addr \<Rightarrow> nat \<Rightarrow> ether_addr" where
  "radio_address nRadios mac i = (if nRadios \<noteq> 1 then mac[5 := char_of i] else mac)"

definition radio_message :: "int \<Rightarrow> ether_addr \<Rightarrow> nl_msg" where
  "radio_message family mac = \<lparr>msg_family = family, msg_cmd = HWSIM_CMD_NEW_RADIO,
     msg_attrs = [(HWSIM_ATTR_PERM_ADDR, mac), (HWSIM_ATTR_SUPPORT_P2P_DEVICE, [])]\<rparr>"

lemma CreateNlMessage_cases:
  assumes "CreateNlMessage family cmd k = (m, k')"
  shows "nl_sent k' = nl_sent k \<and> (m = None \<or> m = Some \<lparr>msg_family = family, msg_cmd = cmd, msg_attrs = []\<rparr>)"
  using assms by (auto simp: CreateNlMessage_def split: prod.splits if_splits dest!: nl_call_sent)

lemma BuildCreateRadioMessage_cases:
  assumes "BuildCreateRadioMessage family mac k = (m, k')"
  shows "nl_sent k' = nl_sent k \<and> (m = None \<or> m = Some (radio_message family mac))"
proof -
  obtain m0 k0 where c: "CreateNlMessage family HWSIM_CMD_NEW_RADIO k = (m0, k0)"
    by (cases "CreateNlMessage family HWSIM_CMD_NEW_RADIO k")
  note c' = CreateNlMessage_cases [OF c]
  show ?thesis
  proof (cases m0)
    case None
    then show ?thesis using assms c c' by (simp add: BuildCreateRadioMessage_def)
  next
    case (Some msg)
    obtain ok msg' k1 where n: "nla_puts [(HWSIM_ATTR_PERM_ADDR, mac), (HWSIM_ATTR_SUPPORT_P2P_DEVICE, [])] msg k0 = (ok, msg', k1)"
      by (metis prod_cases3)
    have msg: "msg = \<lparr>msg_family = family, msg_cmd = HWSIM_CMD_NEW_RADIO, msg_attrs = []\<rparr>"
      using c' Some by simp
    have "msg' = radio_message family mac" if ok
    proof -
      from n that have "nla_puts [(HWSIM_ATTR_PERM_ADDR, mac), (HWSIM_ATTR_SUPPORT_P2P_DEVICE, [])] msg k0 = (True, msg', k1)"
        by simp
      from nla_puts_ok [OF this] show ?thesis by (simp add: msg radio_message_def)
    qed
    moreover have "(m, k') = (if ok then (Some msg', k1) else (None, k1))"
      using assms by (simp add: BuildCreateRadioMessage_def c Some n)
    ultimately show ?thesis
      using nla_puts_sent [OF n] c' by (cases ok) simp_all
  qed
qed

lemma BuildCreateRadioMessage_healthy [simp]:
  "nl_healthy k \<Longrightarrow> BuildCreateRadioMessage family mac k = (Some (radio_message family mac), k)"
  by (simp add: BuildCreateRadioMessage_def CreateNlMessage_def radio_message_def)

lemma radio_address_again: "radio_address n (radio_address n mac j) i = radio_address n mac i"
  by (simp add: radio_address_def)

lemma CreateRadios_loop_spec:
  assumes "CreateRadios_loop family n idxs mac k = (ret, mac', k')"
  shows "\<exists>j \<le> length idxs. nl_sent k' = nl_sent k @ map (\<lambda>i. radio_message family (radio_address n mac i)) (take j idxs) \<and>
    (ret = 0 \<longleftrightarrow> j = length idxs) \<and> (nl_healthy k \<longrightarrow> ret = 0)"
  using assms
proof (induction idxs arbitrary: mac k)
  case (Cons i idxs)
  obtain m k0 where b: "BuildCreateRadioMessage family (radio_address n mac i) k = (m, k0)"
    by (cases "BuildCreateRadioMessage family (radio_address n mac i) k")
  note b' = BuildCreateRadioMessage_cases [OF b]
  have loop: "CreateRadios_loop family n (i # idxs) mac k =
      (case m of None \<Rightarrow> (1, radio_address n mac i, k0)
       | Some msg \<Rightarrow> (let (ok, k) = nl_send_auto msg k0
           in if \<not> ok then (1, radio_address n mac i, k)
              else CreateRadios_loop family n idxs (radio_address n mac i) k))"
    unfolding CreateRadios_loop.simps radio_address_def [symmetric] Let_def using b by simp
  show ?case
  proof (cases m)
    case None
    then have "\<not> nl_healthy k" using b by auto
    then show ?thesis using None Cons.prems loop b' by (intro exI [of _ 0]) auto
  next
    case (Some msg)
    obtain ok k1 where s: "nl_send_auto msg k0 = (ok, k1)" by (cases "nl_send_auto msg k0")
    note s' = nl_send_auto_sent [OF s]
    have h: "nl_healthy k \<Longrightarrow> k0 = k \<and> ok \<and> nl_healthy k1"
      using b s by (auto simp: nl_send_healthy)
    show ?thesis
    proof (cases ok)
      case False
      then have "\<not> nl_healthy k" using h by blast
      then show ?thesis using Some False Cons.prems loop b' s s' by (intro exI [of _ 0]) auto
    next
      case True
      then have "CreateRadios_loop family n idxs (radio_address n mac i) k1 = (ret, mac', k')"
        using Cons.prems loop Some s by simp
      from Cons.IH [OF this] obtain j where j: "j \<le> length idxs"
          "nl_sent k' = nl_sent k1 @ map (\<lambda>i. radio_message family (radio_address n mac i)) (take j idxs)"
          "ret = 0 \<longleftrightarrow> j = length idxs" "nl_healthy k1 \<longrightarrow> ret = 0"
        by (auto simp: radio_address_again)
      then show ?thesis
        using Some True b' s' h by (intro exI [of _ "Suc j"]) auto
    qed
  qed
qed simp

text \<open>
  C25: asked for \<open>n\<close> radios, up to 256, \<^verbatim>\<open>ManageRadios\<close> sends the driver creation messages for the first \<open>j\<close> of
  \<open>n\<close> distinct addresses that differ from the prefix in the last octet at most, and returns 0 exactly
  when it has sent them all. When the driver is there and no call fails, it does.
\<close>

theorem radios_created:
  assumes "1 \<le> n" and "n \<le> 256" and "length mac = ETH_ALEN" and "ManageRadios n mac k = (ret, mac', k')"
  shows "distinct (map (radio_address n mac) [0..<nat n]) \<and>
    (\<forall>i. take 5 (radio_address n mac i) = take 5 mac) \<and>
    (\<exists>family j. j \<le> nat n \<and> (ret = 0 \<longleftrightarrow> j = nat n) \<and>
       nl_sent k' = nl_sent k @ map (\<lambda>i. radio_message family (radio_address n mac i)) [0..<j] \<and>
       (nl_healthy k \<and> (\<exists>f fs. nl_families k = f # fs \<and> 0 \<le> f) \<longrightarrow> ret = 0))"
proof (intro conjI allI)
  have "char_of i = char_of j \<Longrightarrow> i < 256 \<Longrightarrow> j < 256 \<Longrightarrow> i = j" for i j :: nat
    by (metis char_of_eq_iff of_char_of mod_less)
  then show "distinct (map (radio_address n mac) [0..<nat n])"
    using assms(1-3)
    by (cases "n = 1") (auto simp: distinct_map inj_on_def radio_address_def ETH_ALEN_def
        dest!: arg_cong [where f = "\<lambda>m. m ! 5"])
  show "take 5 (radio_address n mac i) = take 5 mac" for i
    by (simp add: radio_address_def)
  show "\<exists>family j. j \<le> nat n \<and> (ret = 0 \<longleftrightarrow> j = nat n) \<and>
       nl_sent k' = nl_sent k @ map (\<lambda>i. radio_message family (radio_address n mac i)) [0..<j] \<and>
       (nl_healthy k \<and> (\<exists>f fs. nl_families k = f # fs \<and> 0 \<le> f) \<longrightarrow> ret = 0)"
  proof -
    obtain ok1 k1 where k1: "nl_call k = (ok1, k1)" by (cases "nl_call k")
    obtain ok2 k2 where k2: "nl_call k1 = (ok2, k2)" by (cases "nl_call k1")
    obtain f k3 where k3: "genl_ctrl_resolve KERNEL_HWSIM_FAMILY_NAME k2 = (f, k3)"
      by (cases "genl_ctrl_resolve KERNEL_HWSIM_FAMILY_NAME k2")
    have sent: "nl_sent k3 = nl_sent k" "nl_sent k1 = nl_sent k" "nl_sent k2 = nl_sent k"
      using nl_call_sent [OF k1] nl_call_sent [OF k2] k3
      by (auto simp: genl_ctrl_resolve_def split: list.splits)
    have good: "ok1 \<and> ok2 \<and> nl_healthy k3 \<and> 0 \<le> f" if "nl_healthy k" "nl_families k = g # fs" "0 \<le> g" for g fs
      using that k1 k2 k3 by (auto simp: genl_ctrl_resolve_def)
    show ?thesis
    proof (cases "ok1 \<and> ok2 \<and> 0 \<le> f")
      case True
      then have "CreateRadios_loop f n [0..<nat n] mac k3 = (ret, mac', k')"
        using assms(4) k1 k2 k3 by (simp add: ManageRadios_def CreateRadios_def)
      from CreateRadios_loop_spec [OF this] obtain j where j: "j \<le> nat n"
          "nl_sent k' = nl_sent k3 @ map (\<lambda>i. radio_message f (radio_address n mac i)) (take j [0..<nat n])"
          "ret = 0 \<longleftrightarrow> j = nat n" "nl_healthy k3 \<longrightarrow> ret = 0"
        by (auto simp: radio_address_again)
      then show ?thesis
        using sent good by (intro exI [of _ f] exI [of _ j]) (auto simp: take_upt)
    next
      case False
      then show ?thesis
        using assms(1,4) k1 k2 k3 sent good
        by (intro exI [of _ f] exI [of _ 0]) (auto simp: ManageRadios_def split: if_splits)
    qed
  qed
qed

theorem radios_created_witness:
  "let k = \<lparr>nl_fails = [], nl_families = [28], nl_sent = []\<rparr> in
   length (nl_sent (snd (snd (ManageRadios 3 ether_zero k)))) = 3 \<and>
   ManageRadios 3 ether_zero (k\<lparr>nl_fails := [True]\<rparr>) = (1, ether_zero, k)"
proof -
  define k where "k = \<lparr>nl_fails = [], nl_families = [28], nl_sent = []\<rparr>"
  obtain ret mac' k' where m: "ManageRadios 3 ether_zero k = (ret, mac', k')"
    by (metis prod_cases3)
  have "nl_healthy k" "nl_families k = 28 # []" by (simp_all add: k_def nl_healthy_def)
  with radios_created [OF _ _ _ m] have "length (nl_sent k') = 3"
    by (auto simp: ether_zero_def k_def)
  then show ?thesis
    using m by (simp add: k_def ManageRadios_def nl_call_def)
qed

end
