(* ===== verification/Vwifi_Threads.thy ===== *)
theory Vwifi_Threads
  imports Vwifi_Prelude
begin

text \<open>
  The interruptible threads of the guest program (\<^verbatim>\<open>src/src/cthread.cc\<close> and \<^verbatim>\<open>src/src/cthread.h\<close>). A thread has a
  flag, known to the object once the thread is started, that its loop tests at each interruption point; a counter
  of threads says when all of them have ended. Every operation holds a lock, so it is one step here.

  The counter is the number of threads that have not passed an interruption point with their flag set, in every
  interleaving. A thread whose loop ends in another way is never uncounted, and who waits for all threads to be
  interrupted then waits for ever.
\<close>

section \<open>Flags\<close>

record InterruptFlag =
  flag_set :: bool

definition InterruptFlag_new :: InterruptFlag where "InterruptFlag_new = \<lparr>flag_set = False\<rparr>"
definition flag_raise :: "InterruptFlag \<Rightarrow> InterruptFlag" where "flag_raise f = f\<lparr>flag_set := True\<rparr>"
definition is_set :: "InterruptFlag \<Rightarrow> bool" where "is_set f = flag_set f"

text \<open>\<open>True\<close>: \<^verbatim>\<open>thread_interrupted\<close> is thrown.\<close>

definition interruption_point :: "InterruptFlag \<Rightarrow> bool" where
  "interruption_point this_thread_interrupt_flag = is_set this_thread_interrupt_flag"

section \<open>Threads\<close>

text \<open>How the loop of a thread ended: at an interruption point, or in another way.\<close>

datatype ending = Alive | Interrupted | Left

record InterruptibleThread =
  interrupt_flag :: "InterruptFlag option"
  thread_started :: bool
  thread_end :: ending

record threads =
  number_thread :: int
  tasks :: "InterruptibleThread list"

definition count_thread :: "threads \<Rightarrow> threads" where
  "count_thread p = p\<lparr>number_thread := number_thread p + 1\<rparr>"

definition uncount_thread :: "threads \<Rightarrow> threads" where
  "uncount_thread p = p\<lparr>number_thread := number_thread p - 1\<rparr>"

definition all_thread_interrupted :: "threads \<Rightarrow> bool" where
  "all_thread_interrupted p \<longleftrightarrow> number_thread p = 0"

definition InterruptibleThread_new :: "threads \<Rightarrow> threads" where
  "InterruptibleThread_new p =
     count_thread (p\<lparr>tasks := tasks p @ [\<lparr>interrupt_flag = None, thread_started = False, thread_end = Alive\<rparr>]\<rparr>)"

definition thread_start :: "nat \<Rightarrow> threads \<Rightarrow> threads" where
  "thread_start i p =
     p\<lparr>tasks := (tasks p)[i := (tasks p ! i)\<lparr>interrupt_flag := Some InterruptFlag_new, thread_started := True\<rparr>]\<rparr>"

definition interrupt :: "nat \<Rightarrow> threads \<Rightarrow> threads" where
  "interrupt i p =
     p\<lparr>tasks := (tasks p)[i := (tasks p ! i)\<lparr>
         interrupt_flag := (case interrupt_flag (tasks p ! i) of None \<Rightarrow> None | Some f \<Rightarrow> Some (flag_raise f)),
         thread_started := False\<rparr>]\<rparr>"

definition task_interrupted :: "nat \<Rightarrow> threads \<Rightarrow> bool" where
  "task_interrupted i p \<longleftrightarrow>
     (case interrupt_flag (tasks p ! i) of None \<Rightarrow> False | Some f \<Rightarrow> interruption_point f)"

text \<open>\<^verbatim>\<open>AsyncTask::dead\<close>, and \<^verbatim>\<open>dead(); break;\<close> in the loop of a thread, or the \<^verbatim>\<open>break\<close> alone.\<close>

definition dead :: "threads \<Rightarrow> threads" where
  "dead p = uncount_thread p"

definition end_task :: "ending \<Rightarrow> nat \<Rightarrow> threads \<Rightarrow> threads" where
  "end_task e i p = p\<lparr>tasks := (tasks p)[i := (tasks p ! i)\<lparr>thread_end := e\<rparr>]\<rparr>"

definition dead_break :: "nat \<Rightarrow> threads \<Rightarrow> threads" where
  "dead_break i p = end_task Interrupted i (dead p)"

section \<open>Every interleaving\<close>

text \<open>The object has \<open>n\<close> threads; whoever starts, interrupts, or runs one of them makes the next step.\<close>

definition new_threads :: "nat \<Rightarrow> threads" where
  "new_threads n = (InterruptibleThread_new ^^ n) \<lparr>number_thread = 0, tasks = []\<rparr>"

inductive pool :: "nat \<Rightarrow> threads \<Rightarrow> bool" for n where
  created: "pool n (new_threads n)"
| started: "pool n p \<Longrightarrow> i < n \<Longrightarrow> interrupt_flag (tasks p ! i) = None \<Longrightarrow> pool n (thread_start i p)"
| interrupted: "pool n p \<Longrightarrow> i < n \<Longrightarrow> pool n (interrupt i p)"
| ended: "pool n p \<Longrightarrow> i < n \<Longrightarrow> thread_end (tasks p ! i) = Alive \<Longrightarrow> task_interrupted i p \<Longrightarrow>
    pool n (dead_break i p)"
| left: "pool n p \<Longrightarrow> i < n \<Longrightarrow> thread_end (tasks p ! i) = Alive \<Longrightarrow> pool n (end_task Left i p)"

inductive_cases pool_cases: "pool n p"

definition not_interrupted :: "InterruptibleThread \<Rightarrow> bool" where
  "not_interrupted t \<longleftrightarrow> thread_end t \<noteq> Interrupted"

definition counted :: "nat \<Rightarrow> threads \<Rightarrow> bool" where
  "counted n p \<longleftrightarrow> length (tasks p) = n \<and> number_thread p = int (length (filter not_interrupted (tasks p)))"

lemma filter_update:
  "i < length xs \<Longrightarrow> int (length (filter P (xs[i := y]))) =
     int (length (filter P xs)) - (if P (xs ! i) then 1 else 0) + (if P y then 1 else 0)"
proof -
  assume i: "i < length xs"
  have "filter P xs = filter P (take i xs @ xs ! i # drop (Suc i) xs)"
    by (subst id_take_nth_drop [OF i]) simp
  then show ?thesis by (simp add: upd_conv_take_nth_drop [OF i])
qed

lemma counted_new: "counted n (new_threads n)"
  by (induction n) (simp_all add: new_threads_def counted_def InterruptibleThread_new_def count_thread_def not_interrupted_def)

lemma pool_counted: "pool n p \<Longrightarrow> counted n p"
  by (induction rule: pool.induct)
    (auto simp: counted_new, auto simp: counted_def thread_start_def interrupt_def dead_break_def end_task_def dead_def
      uncount_thread_def filter_update not_interrupted_def)

text \<open>
  C17: however the threads of the guest are started, interrupted and run, the counter of threads reaches zero exactly when
  every one of them has ended at an interruption point; so once one has ended otherwise, whoever waits for all of them
  to be interrupted waits for ever.
\<close>

theorem shutdown_waits_for_all:
  assumes "pool n p"
  shows "(all_thread_interrupted p \<longleftrightarrow> (\<forall>t \<in> set (tasks p). thread_end t = Interrupted)) \<and>
    0 \<le> number_thread p \<and> number_thread p \<le> int n"
proof -
  have c: "length (tasks p) = n" "number_thread p = int (length (filter not_interrupted (tasks p)))"
    using pool_counted [OF assms] by (simp_all add: counted_def)
  have "all_thread_interrupted p \<longleftrightarrow> filter not_interrupted (tasks p) = []"
    by (simp add: all_thread_interrupted_def c(2))
  also have "\<dots> \<longleftrightarrow> (\<forall>t \<in> set (tasks p). thread_end t = Interrupted)"
    by (simp add: filter_empty_conv not_interrupted_def)
  finally show ?thesis using c length_filter_le [of not_interrupted "tasks p"] by simp
qed

theorem shutdown_waits_for_all_witness:
  "all_thread_interrupted (dead_break 0 (interrupt 0 (thread_start 0 (new_threads 1)))) \<and>
   \<not> all_thread_interrupted (interrupt 0 (end_task Left 0 (thread_start 0 (new_threads 1))))"
proof -
  let ?p = "thread_start 0 (new_threads 1)"
  have t: "tasks (new_threads (Suc 0)) = [\<lparr>interrupt_flag = None, thread_started = False, thread_end = Alive\<rparr>]"
    by (simp add: new_threads_def InterruptibleThread_new_def count_thread_def)
  have p: "pool 1 ?p" by (rule pool.started [OF pool.created]) (simp_all add: t)
  have "pool 1 (dead_break 0 (interrupt 0 ?p))"
    by (rule pool.ended [OF pool.interrupted [OF p]])
      (simp_all add: t thread_start_def interrupt_def task_interrupted_def interruption_point_def is_set_def flag_raise_def)
  moreover have "pool 1 (interrupt 0 (end_task Left 0 ?p))"
    by (rule pool.interrupted [OF pool.left [OF p]]) (simp_all add: t thread_start_def)
  ultimately show ?thesis
    using shutdown_waits_for_all [of 1 "dead_break 0 (interrupt 0 ?p)"]
      shutdown_waits_for_all [of 1 "interrupt 0 (end_task Left 0 ?p)"]
    by (simp add: t thread_start_def interrupt_def dead_break_def end_task_def dead_def uncount_thread_def)
qed

end
