(* ===== verification/Vwifi_Guest.thy ===== *)
theory Vwifi_Guest
  imports Vwifi_Client Vwifi_Signal Vwifi_Select Vwifi_AddInterfaces Vwifi_Threads
begin

text \<open>
  The guest side of the medium (\<^verbatim>\<open>src/src/ckernelwifi.cc\<close> and \<^verbatim>\<open>src/src/cwificlient.h\<close>): between the
  driver \<^verbatim>\<open>mac80211_hwsim\<close>, which hands over the frames its radios send and takes the frames they receive,
  and the server.

  The state \<open>guest\<close> is the object \<^verbatim>\<open>CWifiClient<T>\<close>, its socket of the class \<open>T\<close> included, with the network
  and the kernel it talks to: \<open>nl_alive\<close> says whether its netlink socket is open, \<open>perm_addr\<close> what the kernel answers
  for the permanent address of an interface, and \<open>alarms\<close> at which of the pauses to come a signal stops the program. A netlink message is its bytes; \<^verbatim>\<open>genlmsg_parse\<close> of libnl is a parameter that
  gives, for each attribute in the message, the place and the length of its payload, or refuses the message,
  and then leaves the table of attributes uninitialised.
\<close>

section \<open>State\<close>

record 'a guest =
  Client :: "'a CSocketClient_scheme"
  Nodes :: CSelect
  connected :: bool
  being_initialized :: bool
  started_flag :: bool
  wdevices :: WirelessDeviceList
  family_id :: int
  initialized_flag :: bool
  In_buffer :: CDynBuffer
  nl_alive :: bool
  Tasks :: threads
  alarms :: "bool list"
  perm_addr :: "string \<Rightarrow> byte list option"
  Net :: os
  Kern :: kernel

definition is_connected_to_server :: "'a guest \<Rightarrow> bool" where
  "is_connected_to_server g = connected g"

definition connected_to_server :: "bool \<Rightarrow> 'a guest \<Rightarrow> 'a guest" where
  "connected_to_server v g = g\<lparr>connected := v\<rparr>"

definition being_started :: "bool \<Rightarrow> 'a guest \<Rightarrow> 'a guest" where
  "being_started v g = g\<lparr>started_flag := v\<rparr>"

definition is_being_started :: "'a guest \<Rightarrow> bool" where
  "is_being_started g = started_flag g"

definition initialized :: "'a guest \<Rightarrow> bool" where
  "initialized g = (if \<not> initialized_flag g then False else True)"

definition manage_server_crash :: "'a guest \<Rightarrow> 'a guest" where
  "manage_server_crash g = connected_to_server False g"

section \<open>Bytes of a netlink message\<close>

type_synonym attr_table = "hwsim_attrs \<Rightarrow> (nat \<times> nat) option"

definition parsed :: "attr_table option \<Rightarrow> attr_table result" where
  "parsed tb = (case tb of None \<Rightarrow> Fault Undefined_behaviour | Some tb \<Rightarrow> Ok tb)"

text \<open>The pointer and the length of an attribute, a null pointer when it is not there.\<close>

definition attr :: "attr_table \<Rightarrow> hwsim_attrs \<Rightarrow> (nat \<times> nat) result" where
  "attr tb a = (case tb a of None \<Rightarrow> Fault Undefined_behaviour | Some p \<Rightarrow> Ok p)"

definition attr_bytes :: "attr_table \<Rightarrow> hwsim_attrs \<Rightarrow> nat \<Rightarrow> byte list \<Rightarrow> byte list result" where
  "attr_bytes tb a n m = rbind (attr tb a) (\<lambda>(off, len). bytes_at off n m)"

definition attr_freq :: "attr_table \<Rightarrow> byte list \<Rightarrow> TFrequency result" where
  "attr_freq tb m =
     (if tb HWSIM_ATTR_FREQ \<noteq> None
      then rbind (attr_bytes tb HWSIM_ATTR_FREQ 4 m) (\<lambda>bs. Ok (get_word bs)) else Ok 0)"

section \<open>Messages to the driver\<close>

text \<open>
  \<^verbatim>\<open>nlmsg_alloc\<close>, and \<^verbatim>\<open>genlmsg_put\<close>, for which a fresh message has room; the functions that fill the
  rest read what their pointers point to when they reach it.
\<close>

definition new_message :: "hwsim_commands \<Rightarrow> 'a guest \<Rightarrow> nl_msg" where
  "new_message cmd g = \<lparr>msg_family = family_id g, msg_cmd = cmd, msg_attrs = []\<rparr>"

definition put_attrs ::
  "(hwsim_attrs \<times> byte list) list \<Rightarrow> nl_msg \<Rightarrow> 'a guest \<Rightarrow> (nl_msg \<Rightarrow> 'a guest \<Rightarrow> (int \<times> 'a guest) result) \<Rightarrow>
   (int \<times> 'a guest) result" where
  "put_attrs as msg g continue =
     (let (ok, msg, k) = nla_puts as msg (Kern g); g = g\<lparr>Kern := k\<rparr>
      in if ok then continue msg g else Ok (0, g))"

definition send_message :: "nl_msg \<Rightarrow> 'a guest \<Rightarrow> (int \<times> 'a guest) result" where
  "send_message msg g =
     rbind (defined (nl_alive g)) (\<lambda>_.
     let (ok, k) = nl_send_auto msg (Kern g) in Ok (if ok then 1 else 0, g\<lparr>Kern := k\<rparr>))"

definition with_message ::
  "hwsim_commands \<Rightarrow> 'a guest \<Rightarrow> (nl_msg \<Rightarrow> 'a guest \<Rightarrow> (int \<times> 'a guest) result) \<Rightarrow> (int \<times> 'a guest) result" where
  "with_message cmd g continue =
     (let (msg, k) = nl_call (Kern g); g = g\<lparr>Kern := k\<rparr>
      in if \<not> msg then Ok (0, g) else continue (new_message cmd g) g)"

definition send_tx_info_frame_nl ::
  "ether_addr \<Rightarrow> 32 word \<Rightarrow> int \<Rightarrow> byte list result \<Rightarrow> 64 word \<Rightarrow> 'a guest \<Rightarrow> (int \<times> 'a guest) result" where
  "send_tx_info_frame_nl src flags signal tx_attempts cookie g =
     with_message HWSIM_CMD_TX_INFO_FRAME g (\<lambda>msg g.
     if family_id g < 0 then Ok (0, g)
     else put_attrs [(HWSIM_ATTR_ADDR_TRANSMITTER, src), (HWSIM_ATTR_FLAGS, put_word flags),
         (HWSIM_ATTR_SIGNAL, put_word (word_of_int signal :: 32 word))] msg g (\<lambda>msg g.
       rbind tx_attempts (\<lambda>tx.
       put_attrs [(HWSIM_ATTR_TX_INFO, tx), (HWSIM_ATTR_COOKIE, put_word cookie)] msg g send_message)))"

definition send_cloned_frame_msg ::
  "ether_addr \<Rightarrow> byte list result \<Rightarrow> int \<Rightarrow> int \<Rightarrow> TFrequency \<Rightarrow> 'a guest \<Rightarrow> (int \<times> 'a guest) result" where
  "send_cloned_frame_msg dst data rate_idx signal freq g =
     with_message HWSIM_CMD_FRAME g (\<lambda>msg g.
     if family_id g < 0 then Ok (0, g)
     else put_attrs [(HWSIM_ATTR_ADDR_RECEIVER, dst)] msg g (\<lambda>msg g.
       rbind data (\<lambda>data.
       put_attrs [(HWSIM_ATTR_FRAME, data), (HWSIM_ATTR_RX_RATE, put_word (word_of_int rate_idx :: 32 word)),
           (HWSIM_ATTR_SIGNAL, put_word (word_of_int signal :: 32 word))] msg g (\<lambda>msg g.
         if freq \<noteq> 0 then put_attrs [(HWSIM_ATTR_FREQ, put_word freq)] msg g send_message
         else send_message msg g))))"

definition send_register_msg :: "'a guest \<Rightarrow> (int \<times> 'a guest) result" where
  "send_register_msg g = with_message HWSIM_CMD_REGISTER g send_message"

text \<open>The loop over the interfaces that send the frame on; the result of each call is ignored.\<close>

primrec send_clones ::
  "(WirelessDevice \<Rightarrow> bool) \<Rightarrow> byte list result \<Rightarrow> int \<Rightarrow> int \<Rightarrow> TFrequency \<Rightarrow> WirelessDevice list \<Rightarrow> 'a guest \<Rightarrow>
   'a guest result" where
  "send_clones to data rate_idx signal freq [] g = Ok g"
| "send_clones to data rate_idx signal freq (inet # inets) g =
     rbind (if to inet then rbind (send_cloned_frame_msg (getMachwsim inet) data rate_idx signal freq g) (\<lambda>(_, g). Ok g)
            else Ok g)
       (send_clones to data rate_idx signal freq inets)"

section \<open>A frame from the driver\<close>

definition signal_to_sender :: int where "signal_to_sender = -10"
definition rate_attempts :: int where "rate_attempts = 7"

text \<open>The level of the interface that has the frame's source address, narrowed to \<^verbatim>\<open>TPower\<close>.\<close>

definition sending_power :: "ether_addr \<Rightarrow> WirelessDeviceList \<Rightarrow> TPower" where
  "sending_power framesrc wds =
     (case get_device_by_mac framesrc wds of None \<Rightarrow> 10 | Some dev \<Rightarrow> word_of_int (getTxPower dev sdiv 100))"

definition acknowledge :: "attr_table \<Rightarrow> byte list \<Rightarrow> ether_addr \<Rightarrow> 'a guest \<Rightarrow> 'a guest result" where
  "acknowledge tb nlh src g =
     rbind (attr_bytes tb HWSIM_ATTR_FLAGS 4 nlh) (\<lambda>flags.
     let flags = get_word flags OR tx_control_bit HWSIM_TX_STAT_ACK in
     rbind (attr tb HWSIM_ATTR_TX_INFO) (\<lambda>(tx_rates, _).
     rbind (attr_bytes tb HWSIM_ATTR_COOKIE 8 nlh) (\<lambda>cookie.
     rbind (send_tx_info_frame_nl src flags signal_to_sender
              (bytes_at tx_rates (IEEE80211_TX_MAX_RATES * sizeof_hwsim_tx_rate) nlh) (get_word cookie) g)
       (\<lambda>(_, g). Ok g))))"

definition send_to_server :: "TPower \<Rightarrow> int \<Rightarrow> byte list \<Rightarrow> 'a guest \<Rightarrow> 'a guest result" where
  "send_to_server pw msg_len nlh g =
     rbind (defined (0 \<le> msg_len)) (\<lambda>_.
     rbind (bytes_at 0 (nat msg_len) nlh) (\<lambda>data.
     let (value, net) = SendSignalWithSocket (GetDescriptor (Client g)) pw data (Net g); g = g\<lparr>Net := net\<rparr>
     in Ok (if value = SOCKET_ERROR then manage_server_crash g else g)))"

definition process_frame ::
  "attr_table \<Rightarrow> int \<Rightarrow> byte list \<Rightarrow> 'a guest \<Rightarrow> (int \<times> 'a guest) result" where
  "process_frame tb msg_len nlh g =
     rbind (attr_bytes tb HWSIM_ATTR_ADDR_TRANSMITTER ETH_ALEN nlh) (\<lambda>src.
     rbind (acknowledge tb nlh src g) (\<lambda>g.
     rbind (attr tb HWSIM_ATTR_FRAME) (\<lambda>(data, data_len).
     rbind (bytes_at (data + 10) ETH_ALEN nlh) (\<lambda>framesrc.
     rbind (bytes_at (data + 4) ETH_ALEN nlh) (\<lambda>framedst.
     rbind (if framesrc \<noteq> src then write_at 24 framesrc nlh else Ok nlh) (\<lambda>nlh.
     let pw = sending_power framesrc (wdevices g) in
     rbind (send_to_server pw msg_len nlh g) (\<lambda>g.
     rbind (attr_freq tb nlh) (\<lambda>freq.
     rbind (send_clones (\<lambda>inet. src \<noteq> getMachwsim inet) (bytes_at data data_len nlh) rate_attempts (sint pw) freq
              (list_devices (wdevices g)) g) (\<lambda>g.
     Ok (0, g))))))))))"

definition process_messages ::
  "(byte list \<Rightarrow> attr_table option) \<Rightarrow> byte list \<Rightarrow> 'a guest \<Rightarrow> (int \<times> 'a guest) result" where
  "process_messages genlmsg_parse nlh g =
     (if \<not> is_connected_to_server g then Ok (1, g)
      else rbind (bytes_at 0 4 nlh) (\<lambda>len.
        let msg_len = sint (get_word len :: 32 word) in
        rbind (bytes_at 4 2 nlh) (\<lambda>type.
        if uint (get_word type :: 16 word) \<noteq> family_id g then Ok (1, g)
        else rbind (bytes_at 16 1 nlh) (\<lambda>cmd.
          if cmd \<noteq> [char_of (command_code HWSIM_CMD_FRAME)] then Ok (1, g)
          else rbind (parsed (genlmsg_parse nlh)) (\<lambda>tb.
            if tb HWSIM_ATTR_ADDR_TRANSMITTER = None then Ok (1, g)
            else process_frame tb msg_len nlh g)))))"

section \<open>A frame from the server\<close>

definition cell_at :: "nat \<Rightarrow> cells \<Rightarrow> byte result" where
  "cell_at i cs =
     (if i < length cs then (case cs ! i of None \<Rightarrow> Fault Undefined_behaviour | Some b \<Rightarrow> Ok b)
      else Fault Undefined_behaviour)"

text \<open>What the buffer holds, handed to the driver for every interface.\<close>

definition inject ::
  "(byte list \<Rightarrow> attr_table option) \<Rightarrow> int \<Rightarrow> cells \<Rightarrow> 'a guest \<Rightarrow> 'a guest result" where
  "inject genlmsg_parse signal cs g =
     rbind (cell_at 16 cs) (\<lambda>cmd.
     if cmd \<noteq> char_of (command_code HWSIM_CMD_FRAME) then Ok g
     else rbind (cell_bytes 4 cs) (\<lambda>len.
       rbind (cell_bytes (unat (get_word len :: 32 word)) cs) (\<lambda>nlh.
       rbind (parsed (genlmsg_parse nlh)) (\<lambda>tb.
       rbind (attr_freq tb nlh) (\<lambda>freq.
       if tb HWSIM_ATTR_ADDR_TRANSMITTER = None then Ok g
       else rbind (attr tb HWSIM_ATTR_FRAME) (\<lambda>(data, data_len).
         rbind (bytes_at (data + 4) ETH_ALEN nlh) (\<lambda>framedst.
         send_clones (\<lambda>inet. True) (bytes_at data data_len nlh) rate_attempts signal freq
           (list_devices (wdevices g)) g)))))))"

definition recv_from_server ::
  "(byte list \<Rightarrow> attr_table option) \<Rightarrow> pselect_outcome \<Rightarrow> 'a guest \<Rightarrow> 'a guest result" where
  "recv_from_server genlmsg_parse ev g =
     (if \<not> is_connected_to_server g then Ok g
      else let (r, nodes) = Wait ev (Nodes g); g = g\<lparr>Nodes := nodes\<rparr> in
        if r = SCHEDULER_ERROR then Ok g
        else rbind (NodeHasAction 0 (Nodes g)) (\<lambda>action.
          if \<not> action then Ok g
          else rbind (RecvSignalWithSocket (GetDescriptor (Client g)) (In_buffer g) (Net g)) (\<lambda>(r, pw, b, net).
            let g = g\<lparr>In_buffer := b, Net := net\<rparr>;
                g = (if r = SOCKET_ERROR then manage_server_crash g else g)
            in rbind (case pw of None \<Rightarrow> Fault Undefined_behaviour | Some p \<Rightarrow> Ok p) (\<lambda>pw.
               rbind (GetBuffer (In_buffer g)) (\<lambda>cs. inject genlmsg_parse (sint pw) cs g)))))"

section \<open>When no call fails\<close>

definition ack_message :: "int \<Rightarrow> ether_addr \<Rightarrow> 32 word \<Rightarrow> byte list \<Rightarrow> 64 word \<Rightarrow> nl_msg" where
  "ack_message family src flags rates cookie =
     \<lparr>msg_family = family, msg_cmd = HWSIM_CMD_TX_INFO_FRAME,
      msg_attrs = [(HWSIM_ATTR_ADDR_TRANSMITTER, src), (HWSIM_ATTR_FLAGS, put_word flags),
        (HWSIM_ATTR_SIGNAL, put_word (word_of_int signal_to_sender :: 32 word)),
        (HWSIM_ATTR_TX_INFO, rates), (HWSIM_ATTR_COOKIE, put_word cookie)]\<rparr>"

definition cloned_message :: "int \<Rightarrow> ether_addr \<Rightarrow> byte list \<Rightarrow> int \<Rightarrow> TFrequency \<Rightarrow> nl_msg" where
  "cloned_message family dst data signal freq =
     \<lparr>msg_family = family, msg_cmd = HWSIM_CMD_FRAME,
      msg_attrs = [(HWSIM_ATTR_ADDR_RECEIVER, dst), (HWSIM_ATTR_FRAME, data),
        (HWSIM_ATTR_RX_RATE, put_word (word_of_int rate_attempts :: 32 word)),
        (HWSIM_ATTR_SIGNAL, put_word (word_of_int signal :: 32 word))] @
        (if freq \<noteq> 0 then [(HWSIM_ATTR_FREQ, put_word freq)] else [])\<rparr>"

definition told :: "nl_msg list \<Rightarrow> 'a guest \<Rightarrow> 'a guest" where
  "told msgs g = g\<lparr>Kern := (Kern g)\<lparr>nl_sent := nl_sent (Kern g) @ msgs\<rparr>\<rparr>"

definition driver_ok :: "'a guest \<Rightarrow> bool" where
  "driver_ok g \<longleftrightarrow> nl_healthy (Kern g) \<and> nl_alive g \<and> 0 \<le> family_id g"

lemma told_simps [simp]:
  "told [] g = g" "told ms (told ns g) = told (ns @ ms) g" "driver_ok (told ms g) = driver_ok g"
  "family_id (told ms g) = family_id g" "wdevices (told ms g) = wdevices g" "Net (told ms g) = Net g"
  "Client (told ms g) = Client g" "told ms g\<lparr>Net := n\<rparr> = told ms (g\<lparr>Net := n\<rparr>)" "driver_ok (g\<lparr>Net := n\<rparr>) = driver_ok g"
  by (simp_all add: told_def driver_ok_def)

lemma driver_okE:
  assumes "driver_ok g"
  shows "nl_call (Kern g) = (True, Kern g)" "g\<lparr>Kern := Kern g\<rparr> = g" "nl_alive g" "\<not> family_id g < 0"
    "nla_puts as msg (Kern g) = (True, msg\<lparr>msg_attrs := msg_attrs msg @ as\<rparr>, Kern g)"
    "nl_send_auto msg (Kern g) = (True, (Kern g)\<lparr>nl_sent := nl_sent (Kern g) @ [msg]\<rparr>)"
  using assms by (simp_all add: driver_ok_def)

lemma send_message_ok: "driver_ok g \<Longrightarrow> send_message msg g = Ok (1, told [msg] g)"
  by (simp add: send_message_def driver_okE told_def)

lemma put_attrs_ok:
  "driver_ok g \<Longrightarrow> put_attrs as msg g continue = continue (msg\<lparr>msg_attrs := msg_attrs msg @ as\<rparr>) g"
  by (simp add: put_attrs_def driver_okE)

lemma with_message_ok: "driver_ok g \<Longrightarrow> with_message cmd g continue = continue (new_message cmd g) g"
  by (simp add: with_message_def driver_okE)

lemmas driver_simps = driver_okE(4) send_message_ok put_attrs_ok with_message_ok new_message_def

lemma send_tx_info_ok:
  "driver_ok g \<Longrightarrow> send_tx_info_frame_nl src flags signal_to_sender (Ok rates) cookie g =
     Ok (1, told [ack_message (family_id g) src flags rates cookie] g)"
  by (simp add: send_tx_info_frame_nl_def driver_simps ack_message_def)

lemma send_cloned_ok:
  "driver_ok g \<Longrightarrow> send_cloned_frame_msg dst (Ok data) rate_attempts signal freq g =
     Ok (1, told [cloned_message (family_id g) dst data signal freq] g)"
  by (simp add: send_cloned_frame_msg_def driver_simps cloned_message_def)

lemma send_register_ok:
  "driver_ok g \<Longrightarrow> send_register_msg g =
     Ok (1, told [\<lparr>msg_family = family_id g, msg_cmd = HWSIM_CMD_REGISTER, msg_attrs = []\<rparr>] g)"
  by (simp add: send_register_msg_def driver_simps)

lemma send_clones_ok:
  "driver_ok g \<Longrightarrow> send_clones to (Ok data) rate_attempts signal freq inets g =
     Ok (told (map (\<lambda>i. cloned_message (family_id g) (getMachwsim i) data signal freq) (filter to inets)) g)"
  by (induction inets arbitrary: g) (simp_all add: send_cloned_ok)

section \<open>The messages of the driver\<close>

definition payload :: "attr_table \<Rightarrow> hwsim_attrs \<Rightarrow> byte list \<Rightarrow> byte list" where
  "payload tb a m = (case tb a of None \<Rightarrow> [] | Some (off, n) \<Rightarrow> take n (drop off m))"

text \<open>
  A frame the driver hands over: its header, the transmitter as the first attribute, and the attributes the
  program uses, which lie behind it. The frequency is optional.
\<close>

definition behind :: "attr_table \<Rightarrow> hwsim_attrs \<Rightarrow> nat \<Rightarrow> byte list \<Rightarrow> bool" where
  "behind tb a n m \<longleftrightarrow> (case tb a of None \<Rightarrow> False | Some (off, len) \<Rightarrow> 30 \<le> off \<and> n \<le> len \<and> off + len \<le> length m)"

definition frame_message :: "attr_table \<Rightarrow> byte list \<Rightarrow> bool" where
  "frame_message tb m \<longleftrightarrow> m ! 16 = char_of (command_code HWSIM_CMD_FRAME) \<and> 30 \<le> length m \<and>
     get_word (take 4 m) = (word_of_nat (length m) :: 32 word) \<and> length m < 2 ^ 31 \<and>
     tb HWSIM_ATTR_ADDR_TRANSMITTER = Some (24, 6) \<and>
     behind tb HWSIM_ATTR_FRAME 16 m \<and> (tb HWSIM_ATTR_FREQ = None \<or> behind tb HWSIM_ATTR_FREQ 4 m)"

definition sent_message :: "attr_table \<Rightarrow> byte list \<Rightarrow> bool" where
  "sent_message tb m \<longleftrightarrow> frame_message tb m \<and> behind tb HWSIM_ATTR_FLAGS 4 m \<and>
     behind tb HWSIM_ATTR_TX_INFO 8 m \<and> behind tb HWSIM_ATTR_COOKIE 8 m"

definition frame_src :: "attr_table \<Rightarrow> byte list \<Rightarrow> ether_addr" where
  "frame_src tb m = take 6 (drop 10 (payload tb HWSIM_ATTR_FRAME m))"

definition freq_of :: "attr_table \<Rightarrow> byte list \<Rightarrow> TFrequency" where
  "freq_of tb m = (if tb HWSIM_ATTR_FREQ = None then 0 else get_word (take 4 (payload tb HWSIM_ATTR_FREQ m)))"

text \<open>The message with another transmitter, which is what travels to the server.\<close>

definition with_transmitter :: "ether_addr \<Rightarrow> byte list \<Rightarrow> byte list" where
  "with_transmitter mac m = take 24 m @ mac @ drop 30 m"

lemma behind_bytes:
  assumes "behind tb a n m" and "tb a = Some (off, len)" and "j + k \<le> n"
  shows "bytes_at (off + j) k m = Ok (take k (drop j (payload tb a m)))"
  using assms by (auto simp: behind_def bytes_at_def payload_def drop_take add.commute min_def)

lemma behind_payload:
  assumes "behind tb a n m" and "tb a = Some (off, len)"
  shows "bytes_at off len m = Ok (payload tb a m)"
  using assms by (simp add: behind_def bytes_at_def payload_def)

lemma behind_attr_bytes: "behind tb a n m \<Longrightarrow> k \<le> n \<Longrightarrow> attr_bytes tb a k m = Ok (take k (payload tb a m))"
  by (cases "tb a") (auto simp: attr_bytes_def attr_def behind_def bytes_at_def payload_def min_absorb1)

lemma behindE:
  assumes "behind tb a n m"
  obtains off len where "tb a = Some (off, len)" "attr tb a = Ok (off, len)"
  using assms by (cases "tb a") (auto simp: behind_def attr_def)

lemma attr_freq_ok: "frame_message tb m \<Longrightarrow> attr_freq tb m = Ok (freq_of tb m)"
  by (cases "tb HWSIM_ATTR_FREQ") (auto simp: attr_freq_def freq_of_def frame_message_def behind_attr_bytes)

lemma length_with_transmitter: "length mac = 6 \<Longrightarrow> 30 \<le> length m \<Longrightarrow> length (with_transmitter mac m) = length m"
  by (simp add: with_transmitter_def)

lemma drop_with_transmitter:
  "length mac = 6 \<Longrightarrow> 30 \<le> length m \<Longrightarrow> 30 \<le> off \<Longrightarrow> drop off (with_transmitter mac m) = drop off m"
  by (simp add: with_transmitter_def)

lemma with_transmitter_behind:
  assumes "length mac = 6" and "30 \<le> length m"
  shows "behind tb a n (with_transmitter mac m) = behind tb a n m"
    and "behind tb a n m \<Longrightarrow> payload tb a (with_transmitter mac m) = payload tb a m"
  using assms by (auto simp: behind_def payload_def length_with_transmitter drop_with_transmitter split: option.splits)

lemma with_transmitter_message:
  assumes "length mac = 6" and "frame_message tb m"
  shows "frame_message tb (with_transmitter mac m)" "freq_of tb (with_transmitter mac m) = freq_of tb m"
    "payload tb HWSIM_ATTR_FRAME (with_transmitter mac m) = payload tb HWSIM_ATTR_FRAME m"
proof -
  have m: "30 \<le> length m" using assms(2) by (simp add: frame_message_def)
  note b = with_transmitter_behind [OF assms(1) m]
  have "with_transmitter mac m ! 16 = m ! 16" "take 4 (with_transmitter mac m) = take 4 m"
    using m by (simp_all add: with_transmitter_def nth_append)
  then show "frame_message tb (with_transmitter mac m)"
    using assms m by (auto simp: frame_message_def b length_with_transmitter)
  show "freq_of tb (with_transmitter mac m) = freq_of tb m"
    "payload tb HWSIM_ATTR_FRAME (with_transmitter mac m) = payload tb HWSIM_ATTR_FRAME m"
    using assms(2) b(2) by (auto simp: freq_of_def frame_message_def)
qed

lemma write_transmitter: "length mac = 6 \<Longrightarrow> 30 \<le> length m \<Longrightarrow> write_at 24 mac m = Ok (with_transmitter mac m)"
  by (simp add: write_at_def with_transmitter_def)

lemma same_transmitter:
  "with_transmitter (take 6 (drop 24 m)) m = m"
proof -
  have "drop 30 m = drop 6 (drop 24 m)" by simp
  then show ?thesis unfolding with_transmitter_def by (simp only: append_take_drop_id)
qed

lemma length_frame_src: "frame_message tb m \<Longrightarrow> length (frame_src tb m) = 6"
  by (cases "tb HWSIM_ATTR_FRAME") (auto simp: frame_src_def frame_message_def behind_def payload_def)


section \<open>Frames through the guest\<close>

lemma acknowledge_ok:
  assumes "sent_message tb m" and "driver_ok g"
  shows "acknowledge tb m src g =
    Ok (told [ack_message (family_id g) src
                (get_word (take 4 (payload tb HWSIM_ATTR_FLAGS m)) OR tx_control_bit HWSIM_TX_STAT_ACK)
                (take 8 (payload tb HWSIM_ATTR_TX_INFO m)) (get_word (take 8 (payload tb HWSIM_ATTR_COOKIE m)))] g)"
proof -
  have b: "behind tb HWSIM_ATTR_FLAGS 4 m" "behind tb HWSIM_ATTR_TX_INFO 8 m" "behind tb HWSIM_ATTR_COOKIE 8 m"
    using assms(1) by (simp_all add: sent_message_def)
  obtain off len where tx: "tb HWSIM_ATTR_TX_INFO = Some (off, len)" "attr tb HWSIM_ATTR_TX_INFO = Ok (off, len)"
    using b(2) by (rule behindE)
  have "bytes_at off 8 m = Ok (take 8 (payload tb HWSIM_ATTR_TX_INFO m))"
    using behind_bytes [OF b(2) tx(1), of 0 8] by simp
  then show ?thesis
    using b tx assms(2)
    by (simp add: acknowledge_def behind_attr_bytes send_tx_info_ok IEEE80211_TX_MAX_RATES_def sizeof_hwsim_tx_rate_def)
qed

lemma send_to_server_ok:
  assumes "healthy (Net g) (GetDescriptor (Client g))"
  shows "send_to_server pw (int (length m)) m g =
    Ok (g\<lparr>Net := (Net g)\<lparr>sent := sent (Net g) @ [(GetDescriptor (Client g), put_word pw), (GetDescriptor (Client g), m)]\<rparr>\<rparr>)"
  using assms by (simp add: send_to_server_def bytes_at_def SendSignal_healthy SOCKET_ERROR_def Let_def)

lemma process_frame_ok:
  assumes m: "sent_message tb m" and ok: "driver_ok g" and net: "healthy (Net g) (GetDescriptor (Client g))"
  defines "src \<equiv> take 6 (drop 24 m)" and "m' \<equiv> with_transmitter (frame_src tb m) m"
    and "d \<equiv> GetDescriptor (Client g)" and "pw \<equiv> sending_power (frame_src tb m) (wdevices g)"
  shows "process_frame tb (int (length m)) m g = Ok (0,
    told (ack_message (family_id g) src
            (get_word (take 4 (payload tb HWSIM_ATTR_FLAGS m)) OR tx_control_bit HWSIM_TX_STAT_ACK)
            (take 8 (payload tb HWSIM_ATTR_TX_INFO m)) (get_word (take 8 (payload tb HWSIM_ATTR_COOKIE m))) #
          map (\<lambda>i. cloned_message (family_id g) (getMachwsim i) (payload tb HWSIM_ATTR_FRAME m) (sint pw) (freq_of tb m))
            (filter (\<lambda>i. src \<noteq> getMachwsim i) (list_devices (wdevices g))))
      (g\<lparr>Net := (Net g)\<lparr>sent := sent (Net g) @ [(d, put_word pw), (d, m')]\<rparr>\<rparr>))"
proof -
  have fm: "frame_message tb m" and len: "30 \<le> length m" and fr: "behind tb HWSIM_ATTR_FRAME 16 m"
    using m by (simp_all add: sent_message_def frame_message_def)
  have six: "length (frame_src tb m) = 6" using fm by (rule length_frame_src)
  obtain off n where f: "tb HWSIM_ATTR_FRAME = Some (off, n)" "attr tb HWSIM_ATTR_FRAME = Ok (off, n)"
    using fr by (rule behindE)
  have src: "attr_bytes tb HWSIM_ATTR_ADDR_TRANSMITTER ETH_ALEN m = Ok src"
    using fm by (simp add: attr_bytes_def attr_def frame_message_def bytes_at_def ETH_ALEN_def src_def)
  have fsrc: "bytes_at (off + 10) ETH_ALEN m = Ok (frame_src tb m)"
    and fdst: "\<exists>dst. bytes_at (off + 4) ETH_ALEN m = Ok dst"
    using behind_bytes [OF fr f(1)] by (simp_all add: ETH_ALEN_def frame_src_def)
  have wr: "(if frame_src tb m \<noteq> src then write_at 24 (frame_src tb m) m else Ok m) = Ok m'"
    using same_transmitter [of m] write_transmitter [OF six len] by (auto simp: m'_def src_def)
  have fm': "frame_message tb m'" "freq_of tb m' = freq_of tb m" "payload tb HWSIM_ATTR_FRAME m' = payload tb HWSIM_ATTR_FRAME m"
      "length m' = length m"
    using with_transmitter_message [OF six fm] length_with_transmitter [OF six len] by (simp_all add: m'_def)
  have data: "bytes_at off n m' = Ok (payload tb HWSIM_ATTR_FRAME m)"
    using fm' f(1) behind_payload [of tb HWSIM_ATTR_FRAME 16 m' off n] by (simp add: frame_message_def)
  define a where "a = [ack_message (family_id g) src
            (get_word (take 4 (payload tb HWSIM_ATTR_FLAGS m)) OR tx_control_bit HWSIM_TX_STAT_ACK)
            (take 8 (payload tb HWSIM_ATTR_TX_INFO m)) (get_word (take 8 (payload tb HWSIM_ATTR_COOKIE m)))]"
  define h where "h = told a g"
  have ack: "acknowledge tb m src g = Ok h"
    using acknowledge_ok [OF m ok] by (simp add: a_def h_def)
  define h' where "h' = h\<lparr>Net := (Net g)\<lparr>sent := sent (Net g) @ [(d, put_word pw), (d, m')]\<rparr>\<rparr>"
  have send: "send_to_server pw (int (length m)) m' h = Ok h'"
    using send_to_server_ok [of h pw m'] net fm'(4) by (simp add: h_def h'_def d_def)
  have clones: "send_clones (\<lambda>i. src \<noteq> getMachwsim i) (Ok (payload tb HWSIM_ATTR_FRAME m)) rate_attempts (sint pw) (freq_of tb m)
      (list_devices (wdevices h')) h' = Ok (told (map (\<lambda>i. cloned_message (family_id h') (getMachwsim i)
        (payload tb HWSIM_ATTR_FRAME m) (sint pw) (freq_of tb m)) (filter (\<lambda>i. src \<noteq> getMachwsim i) (list_devices (wdevices h')))) h')"
    using ok by (intro send_clones_ok) (simp add: h'_def h_def)
  have h: "wdevices h = wdevices g" "wdevices h' = wdevices g" "family_id h' = family_id g"
    by (simp_all add: h'_def h_def)
  show ?thesis
    using fdst data
    by (auto simp: process_frame_def src ack f(2) fsrc wr h pw_def [symmetric] send attr_freq_ok [OF fm'(1)] fm'(2) clones [unfolded h]
        simp flip: append_Cons) (simp add: h'_def h_def a_def)
qed


lemma process_messages_frame:
  assumes "genlmsg_parse m = Some tb" and "sent_message tb m"
    and "is_connected_to_server g" and "driver_ok g" and "healthy (Net g) (GetDescriptor (Client g))"
    and "uint (get_word (take 2 (drop 4 m)) :: 16 word) = family_id g"
  shows "process_messages genlmsg_parse m g = Ok (0,
    told (ack_message (family_id g) (take 6 (drop 24 m))
            (get_word (take 4 (payload tb HWSIM_ATTR_FLAGS m)) OR tx_control_bit HWSIM_TX_STAT_ACK)
            (take 8 (payload tb HWSIM_ATTR_TX_INFO m)) (get_word (take 8 (payload tb HWSIM_ATTR_COOKIE m))) #
          map (\<lambda>i. cloned_message (family_id g) (getMachwsim i) (payload tb HWSIM_ATTR_FRAME m)
                 (sint (sending_power (frame_src tb m) (wdevices g))) (freq_of tb m))
            (filter (\<lambda>i. take 6 (drop 24 m) \<noteq> getMachwsim i) (list_devices (wdevices g))))
      (g\<lparr>Net := (Net g)\<lparr>sent := sent (Net g) @
          [(GetDescriptor (Client g), put_word (sending_power (frame_src tb m) (wdevices g))),
           (GetDescriptor (Client g), with_transmitter (frame_src tb m) m)]\<rparr>\<rparr>))"
proof -
  have fm: "30 \<le> length m" "length m < 2 ^ 31" "m ! 16 = char_of (command_code HWSIM_CMD_FRAME)"
      "get_word (take 4 m) = (word_of_nat (length m) :: 32 word)" "tb HWSIM_ATTR_ADDR_TRANSMITTER \<noteq> None"
    using assms(2) by (simp_all add: sent_message_def frame_message_def)
  have "sint (word_of_nat (length m) :: 32 word) = int (length m)"
    using fm(2) by (intro sint_word_of_nat) simp
  moreover have "take 1 (drop 16 m) = [m ! 16]"
    using fm(1) by (simp add: take_Suc_conv_app_nth take_drop [symmetric] flip: drop_take)
  ultimately show ?thesis
    using assms(1,3,6) fm process_frame_ok [OF assms(2,4,5)]
    by (simp add: process_messages_def bytes_at_ok parsed_def)
qed

text \<open>
  C7: a connected guest that is handed a frame by the driver acknowledges it to the driver with the frame's own
  cookie and rates, sends the server the level of the sending interface and the message with the frame's source
  address as its transmitter, and passes the frame to its other interfaces, in this order of interfaces, with the
  same level and frequency. Nothing else changes.
\<close>

theorem frame_from_driver:
  assumes "genlmsg_parse m = Some tb" and "sent_message tb m"
    and "is_connected_to_server g" and "driver_ok g" and "healthy (Net g) (GetDescriptor (Client g))"
    and "uint (get_word (take 2 (drop 4 m)) :: 16 word) = family_id g"
  shows "process_messages genlmsg_parse m g = Ok (0,
    told (ack_message (family_id g) (take 6 (drop 24 m))
            (get_word (take 4 (payload tb HWSIM_ATTR_FLAGS m)) OR tx_control_bit HWSIM_TX_STAT_ACK)
            (take 8 (payload tb HWSIM_ATTR_TX_INFO m)) (get_word (take 8 (payload tb HWSIM_ATTR_COOKIE m))) #
          map (\<lambda>i. cloned_message (family_id g) (getMachwsim i) (payload tb HWSIM_ATTR_FRAME m)
                 (sint (sending_power (frame_src tb m) (wdevices g))) (freq_of tb m))
            (filter (\<lambda>i. take 6 (drop 24 m) \<noteq> getMachwsim i) (list_devices (wdevices g))))
      (g\<lparr>Net := (Net g)\<lparr>sent := sent (Net g) @
          [(GetDescriptor (Client g), put_word (sending_power (frame_src tb m) (wdevices g))),
           (GetDescriptor (Client g), with_transmitter (frame_src tb m) m)]\<rparr>\<rparr>))"
  using assms by (rule process_messages_frame)

lemma cell_at_bytes:
  assumes "cell_bytes n cs = Ok bs" and "i < n"
  shows "cell_at i cs = Ok (bs ! i)"
proof -
  have n: "n \<le> length cs" and all: "list_all (\<lambda>c. c \<noteq> None) (take n cs)" and bs: "bs = map the (take n cs)"
    using assms(1) by (auto simp: cell_bytes_def split: if_splits)
  have "take n cs ! i \<noteq> None" using all assms(2) n by (simp add: list_all_length)
  then show ?thesis using assms(2) n bs by (auto simp: cell_at_def)
qed

lemma cell_bytes_take:
  assumes "cell_bytes n cs = Ok bs" and "k \<le> n"
  shows "cell_bytes k cs = Ok (take k bs)"
  using assms by (auto simp: cell_bytes_def list_all_length take_map min_absorb1 split: if_splits)

lemma inject_ok:
  assumes "cell_bytes (length m) cs = Ok m" and "genlmsg_parse m = Some tb" and "frame_message tb m" and "driver_ok g"
  shows "inject genlmsg_parse signal cs g =
    Ok (told (map (\<lambda>i. cloned_message (family_id g) (getMachwsim i) (payload tb HWSIM_ATTR_FRAME m) signal (freq_of tb m))
          (list_devices (wdevices g))) g)"
proof -
  have fm: "30 \<le> length m" "length m < 2 ^ 31" "m ! 16 = char_of (command_code HWSIM_CMD_FRAME)"
      "get_word (take 4 m) = (word_of_nat (length m) :: 32 word)" "tb HWSIM_ATTR_ADDR_TRANSMITTER \<noteq> None"
      and fr: "behind tb HWSIM_ATTR_FRAME 16 m"
    using assms(3) by (simp_all add: frame_message_def)
  obtain off n where f: "tb HWSIM_ATTR_FRAME = Some (off, n)" "attr tb HWSIM_ATTR_FRAME = Ok (off, n)"
    using fr by (rule behindE)
  have "cell_at 16 cs = Ok (m ! 16)" "cell_bytes 4 cs = Ok (take 4 m)"
    using cell_at_bytes [OF assms(1)] cell_bytes_take [OF assms(1)] fm(1) by simp_all
  moreover have "unat (word_of_nat (length m) :: 32 word) = length m"
    using fm(2) by (simp add: unat_of_nat take_bit_nat_eq_self)
  moreover have "\<exists>dst. bytes_at (off + 4) ETH_ALEN m = Ok dst" "bytes_at off n m = Ok (payload tb HWSIM_ATTR_FRAME m)"
    using behind_bytes [OF fr f(1)] behind_payload [OF fr f(1)] by (simp_all add: ETH_ALEN_def)
  ultimately show ?thesis
    using assms fm f(2) send_clones_ok [OF assms(4), of "\<lambda>_. True"]
    by (auto simp: inject_def parsed_def attr_freq_ok)
qed

text \<open>The scheduler of a connected guest watches its socket as the first node, and the socket is ready.\<close>

definition socket_ready :: "pselect_outcome \<Rightarrow> 'a guest \<Rightarrow> bool" where
  "socket_ready ev g \<longleftrightarrow> 0 \<le> activity ev \<and> ListNodes (Nodes g) \<noteq> [] \<and>
     hd (ListNodes (Nodes g)) \<in> ready ev \<inter> FdMaster (Nodes g) \<and> hd (ListNodes (Nodes g)) \<le> MaxDescriptor (Nodes g)"

lemma recv_ready:
  assumes "is_connected_to_server g" and "socket_ready ev g"
  shows "recv_from_server genlmsg_parse ev g =
    rbind (RecvSignalWithSocket (GetDescriptor (Client g)) (In_buffer g) (Net g)) (\<lambda>(r, pw, b, net).
      let g = g\<lparr>Nodes := snd (Wait ev (Nodes g)), In_buffer := b, Net := net\<rparr>;
          g = (if r = SOCKET_ERROR then manage_server_crash g else g)
      in rbind (case pw of None \<Rightarrow> Fault Undefined_behaviour | Some p \<Rightarrow> Ok p) (\<lambda>pw.
         rbind (GetBuffer (In_buffer g)) (\<lambda>cs. inject genlmsg_parse (sint pw) cs g)))"
proof -
  obtain r nodes where w: "Wait ev (Nodes g) = (r, nodes)" by (cases "Wait ev (Nodes g)")
  have "r \<noteq> SCHEDULER_ERROR" "NodeHasAction 0 nodes = Ok True"
    using w assms(2) by (auto simp: Wait_def socket_ready_def NodeHasAction_def SCHEDULER_ERROR_def Let_def hd_conv_nth
        split: if_splits)
  then show ?thesis using assms(1) w by (simp add: recv_from_server_def)
qed

lemma recv_from_server_frame:
  assumes "frame_of (stream (GetDescriptor (Client g)) (Net g)) = Some (p, m, rest)"
    and "genlmsg_parse m = Some tb" and "frame_message tb m"
    and "is_connected_to_server g" and "driver_ok g" and "buf_ok (In_buffer g)" and "socket_ready ev g"
  shows "\<exists>b net. recv_from_server genlmsg_parse ev g = Ok (
      told (map (\<lambda>i. cloned_message (family_id g) (getMachwsim i) (payload tb HWSIM_ATTR_FRAME m) (sint p) (freq_of tb m))
            (list_devices (wdevices g)))
        (g\<lparr>Nodes := snd (Wait ev (Nodes g)), In_buffer := b, Net := net\<rparr>)) \<and>
    stream (GetDescriptor (Client g)) net = rest \<and> buf_ok b \<and> sent net = sent (Net g)"
proof -
  obtain r pw b net where r: "RecvSignalWithSocket (GetDescriptor (Client g)) (In_buffer g) (Net g) = Ok (r, pw, b, net)"
      "buf_ok b" "read_from (GetDescriptor (Client g)) (Net g) net"
      "received (GetDescriptor (Client g)) (stream (GetDescriptor (Client g)) (Net g)) r pw b net"
    using RecvSignal_spec [OF assms(6)] by blast
  then have got: "0 < r" "pw = Some p" "stream (GetDescriptor (Client g)) net = rest"
      "rbind (GetBuffer b) (cell_bytes (length m)) = Ok m"
    using assms(1) by (auto simp: received_def)
  then obtain cs where cs: "GetBuffer b = Ok cs" "cell_bytes (length m) cs = Ok m" by (cases "GetBuffer b") auto
  let ?g = "g\<lparr>Nodes := snd (Wait ev (Nodes g)), In_buffer := b, Net := net\<rparr>"
  have "driver_ok ?g" using assms(5) by (simp add: driver_ok_def)
  from inject_ok [where genlmsg_parse = genlmsg_parse, OF cs(2) assms(2,3) this] have "recv_from_server genlmsg_parse ev g = Ok (
      told (map (\<lambda>i. cloned_message (family_id g) (getMachwsim i) (payload tb HWSIM_ATTR_FRAME m) (sint p) (freq_of tb m))
            (list_devices (wdevices g))) ?g)"
    using recv_ready [OF assms(4,7)] r(1) got cs(1) by (simp add: SOCKET_ERROR_def Let_def)
  moreover have "sent net = sent (Net g)"
    using r(3) by (rule read_from_frame)
  ultimately show ?thesis using got(3) r(2) by blast
qed

text \<open>
  C8: when a message that a guest can use arrives from the server, whatever its segmentation, the guest hands the
  frame in it to the driver for each of its interfaces, in the order of their indexes, with the level that came
  before it as the signal, and waits for the next one.
\<close>

theorem frame_to_driver:
  assumes "frame_of (stream (GetDescriptor (Client g)) (Net g)) = Some (p, m, rest)"
    and "genlmsg_parse m = Some tb" and "frame_message tb m"
    and "is_connected_to_server g" and "driver_ok g" and "buf_ok (In_buffer g)" and "socket_ready ev g"
  shows "\<exists>b net. recv_from_server genlmsg_parse ev g = Ok (
      told (map (\<lambda>i. cloned_message (family_id g) (getMachwsim i) (payload tb HWSIM_ATTR_FRAME m) (sint p) (freq_of tb m))
            (list_devices (wdevices g)))
        (g\<lparr>Nodes := snd (Wait ev (Nodes g)), In_buffer := b, Net := net\<rparr>)) \<and>
    stream (GetDescriptor (Client g)) net = rest \<and> buf_ok b \<and> sent net = sent (Net g)"
  using assms by (rule recv_from_server_frame)


section \<open>A guest and a message\<close>

definition sample_table :: attr_table where
  "sample_table a =
     (case a of HWSIM_ATTR_ADDR_TRANSMITTER \<Rightarrow> Some (24, 6) | HWSIM_ATTR_FLAGS \<Rightarrow> Some (36, 4)
      | HWSIM_ATTR_TX_INFO \<Rightarrow> Some (44, 8) | HWSIM_ATTR_COOKIE \<Rightarrow> Some (56, 8) | HWSIM_ATTR_FRAME \<Rightarrow> Some (68, 24)
      | _ \<Rightarrow> None)"

definition sample_message :: "byte list" where
  "sample_message = put_word (92 :: 32 word) @ put_word (28 :: 16 word) @ replicate 10 (CHR 0x00) @
     [char_of (command_code HWSIM_CMD_FRAME)] @ replicate 75 (CHR 0x00)"

definition sample_device :: "int \<Rightarrow> byte \<Rightarrow> WirelessDevice" where
  "sample_device i b = WirelessDevice_hwsim ''wlan0'' i ARPHRD_ETHER ether_zero [CHR 0x02, CHR 0x00, CHR 0x00, CHR 0x00, b, CHR 0x00] 2000"

definition sample_guest :: "unit guest" where
  "sample_guest =
     \<lparr>Client = \<lparr>Master = 3, IsConnected = True, StopTheReconnect = False\<rparr>,
      Nodes = \<lparr>FdMaster = {3}, FdDup = {}, MaxDescriptor = 3, ListNodes = [3]\<rparr>,
      connected = True, being_initialized = False, started_flag = False,
      wdevices = [(7, sample_device 7 (CHR 0x01)), (9, sample_device 9 (CHR 0x02))], family_id = 28,
      initialized_flag = True, In_buffer = \<lparr>Buffer = Some (replicate 1024 None), Size = 1024\<rparr>, nl_alive = True,
      Tasks = new_threads 5, alarms = [], perm_addr = (\<lambda>_. None), Net = os_start, Kern = \<lparr>nl_fails = [], nl_families = [], nl_sent = []\<rparr>\<rparr>"

lemma sample_message_ok: "sent_message sample_table sample_message" "length sample_message = 92"
  "get_word (take 2 (drop 4 sample_message)) = (28 :: 16 word)" "sample_message \<noteq> []"
proof -
  show len: "length sample_message = 92" by (simp add: sample_message_def)
  then show "sample_message \<noteq> []" by auto
  show "get_word (take 2 (drop 4 sample_message)) = (28 :: 16 word)" by (simp add: sample_message_def)
  have "take 4 sample_message = put_word (92 :: 32 word)" "sample_message ! 16 = char_of (command_code HWSIM_CMD_FRAME)"
    by (simp_all add: sample_message_def nth_append)
  then show "sent_message sample_table sample_message"
    by (simp add: sent_message_def frame_message_def behind_def sample_table_def len)
qed

lemma sample_guest_ok: "is_connected_to_server sample_guest" "driver_ok sample_guest" "family_id sample_guest = 28"
  "GetDescriptor (Client sample_guest) = 3" "healthy (Net sample_guest) 3" "buf_ok (In_buffer sample_guest)"
  by (simp_all add: sample_guest_def is_connected_to_server_def driver_ok_def nl_healthy_def GetDescriptor_def healthy_def
      os_start_def buf_ok_def)

theorem frame_from_driver_witness:
  "\<exists>g. process_messages (\<lambda>_. Some sample_table) sample_message sample_guest = Ok (0, g) \<and>
     length (nl_sent (Kern g)) = 3 \<and> length (sent (Net g)) = 2"
proof -
  have "uint (get_word (take 2 (drop 4 sample_message)) :: 16 word) = family_id sample_guest"
    by (simp add: sample_message_ok sample_guest_ok)
  from frame_from_driver [where genlmsg_parse = "\<lambda>_. Some sample_table", OF refl sample_message_ok(1) sample_guest_ok(1,2) _ this]
  have r: "process_messages (\<lambda>_. Some sample_table) sample_message sample_guest = Ok (0,
    told (ack_message (family_id sample_guest) (take 6 (drop 24 sample_message))
            (get_word (take 4 (payload sample_table HWSIM_ATTR_FLAGS sample_message)) OR tx_control_bit HWSIM_TX_STAT_ACK)
            (take 8 (payload sample_table HWSIM_ATTR_TX_INFO sample_message)) (get_word (take 8 (payload sample_table HWSIM_ATTR_COOKIE sample_message))) #
          map (\<lambda>i. cloned_message (family_id sample_guest) (getMachwsim i) (payload sample_table HWSIM_ATTR_FRAME sample_message)
                 (sint (sending_power (frame_src sample_table sample_message) (wdevices sample_guest))) (freq_of sample_table sample_message))
            (filter (\<lambda>i. take 6 (drop 24 sample_message) \<noteq> getMachwsim i) (list_devices (wdevices sample_guest))))
      (sample_guest\<lparr>Net := (Net sample_guest)\<lparr>sent := sent (Net sample_guest) @
          [(GetDescriptor (Client sample_guest), put_word (sending_power (frame_src sample_table sample_message) (wdevices sample_guest))),
           (GetDescriptor (Client sample_guest), with_transmitter (frame_src sample_table sample_message) sample_message)]\<rparr>\<rparr>))"
    using sample_guest_ok by simp
  have "take 6 (drop 24 sample_message) = ether_zero"
    by (simp add: sample_message_def ether_zero_def ETH_ALEN_def min_def)
  then have two: "filter (\<lambda>i. take 6 (drop 24 sample_message) \<noteq> getMachwsim i) (list_devices (wdevices sample_guest)) =
      list_devices (wdevices sample_guest)"
    by (simp add: sample_guest_def list_devices_def sample_device_def getMachwsim_def WirelessDevice_hwsim_def ether_zero_octets)
  show ?thesis
    unfolding r two by (simp add: told_def) (simp add: sample_guest_def list_devices_def os_start_def)
qed

theorem frame_to_driver_witness:
  "\<exists>(g :: unit guest) ev g'. recv_from_server (\<lambda>_. Some sample_table) ev g = Ok g' \<and>
     nl_sent (Kern g) = [] \<and> length (nl_sent (Kern g')) = 2"
proof -
  define g where "g = sample_guest\<lparr>Net := os_start\<lparr>rx := (\<lambda>_. [put_word (5 :: TPower) @ sample_message])\<rparr>\<rparr>"
  define ev where "ev = \<lparr>activity = 1, errno_EINTR = False, ready = {3 :: int}\<rparr>"
  have "frame_ok sample_message"
    using sample_message_ok(1,2) by (simp add: frame_ok_def sent_message_def frame_message_def)
  from frame_of_frame [OF this, of 5 "[]"]
  have "frame_of (put_word (5 :: TPower) @ sample_message) = Some (5, sample_message, [])" by simp
  moreover have "stream (GetDescriptor (Client g)) (Net g) = put_word (5 :: TPower) @ sample_message"
    using sample_message_ok(4) by (simp add: g_def stream_def)
  ultimately have f: "frame_of (stream (GetDescriptor (Client g)) (Net g)) = Some (5, sample_message, [])" by simp
  have ok: "is_connected_to_server g" "driver_ok g" "buf_ok (In_buffer g)" "socket_ready ev g"
    using sample_guest_ok
    by (simp_all add: g_def is_connected_to_server_def socket_ready_def ev_def) (simp_all add: sample_guest_def)
  have fm: "frame_message sample_table sample_message" using sample_message_ok(1) by (simp add: sent_message_def)
  have "nl_sent (Kern g) = []" "length (list_devices (wdevices g)) = 2"
    by (simp_all add: g_def sample_guest_def list_devices_def)
  then show ?thesis
    using frame_to_driver [where genlmsg_parse = "\<lambda>_. Some sample_table", OF f refl fm ok]
    by (elim exE conjE) (intro exI conjI, assumption, simp_all add: told_def)
qed

section \<open>When the connection breaks\<close>

lemma RecvSignal_empty:
  assumes "stream d s = []"
  shows "\<exists>s'. RecvSignalWithSocket d b s = Ok (SOCKET_ERROR, None, b, s')"
proof -
  obtain r data t where rd: "Read d 1 s = (r, data, t)" by (cases "Read d 1 s")
  then have "r = SOCKET_ERROR" using sock.read_error_iff [OF _ rd] assms by simp
  with rd show ?thesis by (simp add: RecvSignalWithSocket_def SOCKET_ERROR_def)
qed

lemma RecvSignal_only_power:
  assumes "stream d s = [p]" and "buf_ok b" and "16 \<le> Size b"
  shows "\<exists>s'. RecvSignalWithSocket d b s = Ok (SOCKET_ERROR, Some (get_word [p]), b, s')"
proof -
  obtain r data t where rd: "Read d 1 s = (r, data, t)" by (cases "Read d 1 s")
  note one = sock.read_one [OF assms(1) rd]
  obtain r2 data2 t2 where rd2: "Read d 16 t = (r2, data2, t2)" by (cases "Read d 16 t")
  have "r2 = SOCKET_ERROR" using sock.read_error_iff [OF _ rd2] one(3) by simp
  moreover obtain cs where "Buffer b = Some cs" using assms(2) by (rule buf_okE)
  ultimately have "ReadEqualSize d 0 16 b t = Ok (SOCKET_ERROR, b, t2)"
    using rd2 assms(3) by (simp add: ReadEqualSize_def NeededSize_def GetBuffer_def ReadEqualSize_loop.simps [of d 0 16])
  then show ?thesis
    using rd one by (simp add: RecvSignalWithSocket_def SIZEOF_NLMSGHDR_def)
qed




end
