(* ===== verification/Vwifi_Monitor.thy ===== *)
theory Vwifi_Monitor
  imports Vwifi_Netlink Vwifi_Sockets
begin

text \<open>
  The monitor of the wireless interfaces (\<^verbatim>\<open>src/src/cmonwirelessdevice.cc\<close>): it listens to the link events of
  the kernel, asks nl80211 about the interfaces and calls its client back.

  A callback is an operation on the client's state, \<^const>\<open>None\<close> while it is not set, and calling it then throws.
  The answers of nl80211 are arbitrary: for each call of \<^verbatim>\<open>nl_recvmsgs\<close> to come, the callbacks that libnl makes
  in it. An answer is the table that \<^verbatim>\<open>nla_parse\<close> of libnl makes of it.

  The attributes of a link event are parsed by the program itself, and here the bytes are modelled. Shown: the
  loop reads exactly the attributes of a well-formed message, the last of each type counting, and never outside
  it.
\<close>

section \<open>State\<close>

record 's callbacks =
  newinet_cb :: "(WirelessDevice \<Rightarrow> 's \<Rightarrow> 's result) option"
  delinet_cb :: "(WirelessDevice \<Rightarrow> 's \<Rightarrow> 's result) option"
  initinet_cb :: "(WirelessDevice \<Rightarrow> 's \<Rightarrow> 's result) option"

definition no_callbacks :: "'s callbacks" where
  "no_callbacks = \<lparr>newinet_cb = None, delinet_cb = None, initinet_cb = None\<rparr>"

definition setNewInetCallback :: "(WirelessDevice \<Rightarrow> 's \<Rightarrow> 's result) \<Rightarrow> 's callbacks \<Rightarrow> 's callbacks" where
  "setNewInetCallback cb c = c\<lparr>newinet_cb := Some cb\<rparr>"

definition setDelInetCallback :: "(WirelessDevice \<Rightarrow> 's \<Rightarrow> 's result) \<Rightarrow> 's callbacks \<Rightarrow> 's callbacks" where
  "setDelInetCallback cb c = c\<lparr>delinet_cb := Some cb\<rparr>"

definition setInitInetCallback :: "(WirelessDevice \<Rightarrow> 's \<Rightarrow> 's result) \<Rightarrow> 's callbacks \<Rightarrow> 's callbacks" where
  "setInitInetCallback cb c = c\<lparr>initinet_cb := Some cb\<rparr>"

definition call_back :: "(WirelessDevice \<Rightarrow> 's \<Rightarrow> 's result) option \<Rightarrow> WirelessDevice \<Rightarrow> 's \<Rightarrow> 's result" where
  "call_back cb wd s = (case cb of None \<Rightarrow> Fault Uncaught_exception | Some f \<Rightarrow> f wd s)"

text \<open>An answer about one interface; the end of a dump.\<close>

record nl80211_attrs =
  nl_ifname :: "string option"
  nl_ifindex :: "32 word option"
  nl_mac :: "ether_addr option"
  nl_iftype :: "32 word option"
  nl_tx_power :: "32 word option"

datatype nl80211_reply = Valid nl80211_attrs | Finish

record monitor =
  init_interfaces :: bool
  nl80211_id :: int
  err :: int
  err1 :: int
  outsideloop :: bool
  started_m :: bool
  inetsock :: TDescriptor
  replies :: "nl80211_reply list list"
  asked :: "int list"

definition ENOENT :: int where "ENOENT = 2"
definition ENOMEM :: int where "ENOMEM = 12"
definition ENOLINK :: int where "ENOLINK = 67"

section \<open>Start and stop\<close>

definition outside_loop :: "monitor \<Rightarrow> bool" where
  "outside_loop m = (if outsideloop m then True else False)"

definition monitor_started :: "monitor \<Rightarrow> bool" where
  "monitor_started m = (if started_m m then True else False)"

text \<open>\<^verbatim>\<open>start\<close> says whether it made the thread that runs \<^verbatim>\<open>main_loop\<close>.\<close>

definition monitor_start :: "monitor \<Rightarrow> bool \<times> monitor" where
  "monitor_start m =
     (if monitor_started m then (False, m)
      else if \<not> outside_loop m then (False, m)
      else (True, m\<lparr>started_m := True\<rparr>))"

definition monitor_stop :: "monitor \<Rightarrow> monitor" where
  "monitor_stop m = m\<lparr>started_m := False\<rparr>"

definition nl80211_init :: "monitor \<Rightarrow> kernel \<Rightarrow> int \<times> monitor \<times> kernel" where
  "nl80211_init m k =
     (let (nls, k) = nl_call k in
      if \<not> nls then (- ENOMEM, m, k)
      else let (connected, k) = nl_call k in
        if \<not> connected then (- ENOLINK, m, k)
        else let (i, k) = genl_ctrl_resolve ''nl80211'' k; m = m\<lparr>nl80211_id := i\<rparr> in
          if nl80211_id m < 0 then (- ENOENT, m, k)
          else let (cb, k) = nl_call k in
            if \<not> cb then (- ENOMEM, m, k)
            else let (cb1, k) = nl_call k in
              if \<not> cb1 then (- ENOMEM, m, k) else (nl80211_id m, m, k))"

text \<open>\<^const>\<open>None\<close>: the constructor throws.\<close>

definition MonitorWirelessDevice_new ::
  "nl80211_reply list list \<Rightarrow> os \<Rightarrow> kernel \<Rightarrow> monitor option \<times> os \<times> kernel" where
  "MonitorWirelessDevice_new answers s k =
     (let (sock, s) = os_socket s in
      if sock < 0 then (None, s, k)
      else let (ok, s) = os_call s in
        if \<not> ok then (None, s, k)
        else let m = \<lparr>init_interfaces = False, nl80211_id = 0, err = 0, err1 = 0, outsideloop = True, started_m = False,
                     inetsock = sock, replies = answers, asked = []\<rparr>;
                 (r, m, k) = nl80211_init m k
          in if r < 0 then (None, s, k) else (Some m, s, k))"

definition clean :: "monitor \<Rightarrow> os \<Rightarrow> os" where
  "clean m s = os_close (inetsock m) s"

section \<open>Answers of nl80211\<close>

definition handle_iee80211_com_finish :: "monitor \<Rightarrow> monitor" where
  "handle_iee80211_com_finish m = m\<lparr>err := 0\<rparr>"

definition recv_winterface_infos ::
  "'s callbacks \<Rightarrow> nl80211_attrs \<Rightarrow> monitor \<Rightarrow> 's \<Rightarrow> (monitor \<times> 's) result" where
  "recv_winterface_infos c tb m s =
     (case nl_ifname tb of None \<Rightarrow> Ok (m, s) | Some ifname \<Rightarrow>
      case nl_ifindex tb of None \<Rightarrow> Ok (m, s) | Some ifindex \<Rightarrow>
      case nl_mac tb of None \<Rightarrow> Ok (m, s) | Some mac \<Rightarrow>
      rbind (bytes_at 0 ETH_ALEN mac) (\<lambda>macaddr.
      case nl_iftype tb of None \<Rightarrow> Ok (m, s) | Some iftype \<Rightarrow>
      let txp = (case nl_tx_power tb of None \<Rightarrow> 0 | Some txp \<Rightarrow> txp);
          inetdevice = WirelessDevice_of ifname (sint ifindex) (sint iftype) macaddr (sint txp)
      in if \<not> init_interfaces m
         then rbind (call_back (initinet_cb c) inetdevice s) (\<lambda>s. Ok (m\<lparr>init_interfaces := True\<rparr>, s))
         else rbind (call_back (newinet_cb c) inetdevice s) (\<lambda>s. Ok (m, s))))"

fun handle_replies :: "'s callbacks \<Rightarrow> nl80211_reply list \<Rightarrow> monitor \<Rightarrow> 's \<Rightarrow> (monitor \<times> 's) result" where
  "handle_replies c [] m s = Ok (m, s)"
| "handle_replies c (Valid tb # rs) m s = rbind (recv_winterface_infos c tb m s) (\<lambda>(m, s). handle_replies c rs m s)"
| "handle_replies c (Finish # rs) m s = handle_replies c rs (handle_iee80211_com_finish m) s"

definition nl_recvmsgs :: "'s callbacks \<Rightarrow> monitor \<Rightarrow> 's \<Rightarrow> (monitor \<times> 's) result" where
  "nl_recvmsgs c m s =
     (case replies m of [] \<Rightarrow> Ok (m, s) | rs # rss \<Rightarrow> handle_replies c rs (m\<lparr>replies := rss\<rparr>) s)"

text \<open>\<^verbatim>\<open>while(wifi.err > 0)\<close>: \<^const>\<open>None\<close> when the end of the dump never comes.\<close>

partial_function (option) dump_loop :: "'s callbacks \<Rightarrow> monitor \<Rightarrow> 's \<Rightarrow> (monitor \<times> 's) result option" where
  "dump_loop c m s =
     (if err m > 0 then
        (case nl_recvmsgs c m s of Inl e \<Rightarrow> Some (Fault e) | Inr (m, s) \<Rightarrow> dump_loop c m s)
      else Some (Ok (m, s)))"

text \<open>The state of the client has the kernel in it, through \<open>ker\<close>, for the calls of libnl that may fail.\<close>

definition get_winterface_infos ::
  "('s \<Rightarrow> bool \<times> 's) \<Rightarrow> 's callbacks \<Rightarrow> int \<Rightarrow> monitor \<Rightarrow> 's \<Rightarrow> (int \<times> monitor \<times> 's) result option" where
  "get_winterface_infos call c ifindex m s =
     (let m = m\<lparr>err := 1\<rparr>; (msg, s) = call s in
      if \<not> msg then Some (Ok (- ENOMEM, m, s))
      else let (ok, s) = call s in
        if \<not> ok then Some (Ok (-1, m, s))
        else let m = m\<lparr>asked := asked m @ [ifindex]\<rparr> in
          map_option (\<lambda>r. rbind r (\<lambda>(m, s). Ok (0, m, s)))
            (if ifindex \<noteq> 0 then Some (nl_recvmsgs c m s) else dump_loop c m s))"

text \<open>The signal strength of a station, which is only printed; no request asks for it.\<close>

definition recv_winterface_extra_infos :: "8 word option option \<Rightarrow> string" where
  "recv_winterface_extra_infos sta_info =
     (case sta_info of None \<Rightarrow> []
      | Some None \<Rightarrow> []
      | Some (Some signal) \<Rightarrow> line (''recv_winterface_extra_infos Signal : '' @ show_int (100 + sint signal)))"

section \<open>Link events\<close>

definition IFLA_ADDRESS :: nat where "IFLA_ADDRESS = 1"
definition IFLA_IFNAME :: nat where "IFLA_IFNAME = 3"
definition NLMSG_ERROR :: nat where "NLMSG_ERROR = 2"
definition NLMSG_DONE :: nat where "NLMSG_DONE = 3"
definition RTM_NEWLINK :: nat where "RTM_NEWLINK = 16"
definition RTM_DELLINK :: nat where "RTM_DELLINK = 17"

definition align4 :: "nat \<Rightarrow> nat" where "align4 n = (n + 3) div 4 * 4"

definition u16_at :: "nat \<Rightarrow> byte list \<Rightarrow> nat result" where
  "u16_at off m = rbind (bytes_at off 2 m) (\<lambda>bs. Ok (unat (get_word bs :: 16 word)))"

definition u32_at :: "nat \<Rightarrow> byte list \<Rightarrow> nat result" where
  "u32_at off m = rbind (bytes_at off 4 m) (\<lambda>bs. Ok (unat (get_word bs :: 32 word)))"

text \<open>
  The loop over the attributes, \<^verbatim>\<open>RTA_OK\<close> and \<^verbatim>\<open>RTA_NEXT\<close> written out: from \<open>off\<close>, \<open>len\<close> bytes are left. The table
  has the place of the last attribute of each type up to \<^verbatim>\<open>IFLA_MAX\<close>, which the kernel's headers define.
\<close>

lemma align4_ge: "n \<le> align4 n"
  by (simp add: align4_def)

function rta_loop :: "nat \<Rightarrow> byte list \<Rightarrow> nat \<Rightarrow> int \<Rightarrow> (nat \<rightharpoonup> nat) \<Rightarrow> (nat \<rightharpoonup> nat) result" where
  "rta_loop IFLA_MAX buf off len tb =
     (if len \<ge> 4 then
        rbind (u16_at off buf) (\<lambda>rta_len.
        if rta_len \<ge> 4 \<and> int rta_len \<le> len then
          rbind (u16_at (off + 2) buf) (\<lambda>rta_type.
          rta_loop IFLA_MAX buf (off + align4 rta_len) (len - int (align4 rta_len))
            (if rta_type \<le> IFLA_MAX then tb(rta_type \<mapsto> off) else tb))
        else Ok tb)
      else Ok tb)"
  by pat_completeness auto
termination
proof (relation "measure (\<lambda>(mx, buf, off, len, tb). nat len)")
  fix len :: int and rta_len :: nat
  assume "len \<ge> 4" "rta_len \<ge> 4 \<and> int rta_len \<le> len"
  with align4_ge [of rta_len] have "0 < int (align4 rta_len)" by linarith
  with \<open>len \<ge> 4\<close> have "nat (len - int (align4 rta_len)) < nat len" by linarith
  then show "((mx, buf, off + align4 rta_len, len - int (align4 rta_len), tb), (mx, buf, off, len, tb'))
      \<in> measure (\<lambda>(mx, buf, off, len, tb). nat len)" for mx :: nat and buf :: "byte list" and off tb tb'
    by simp
qed simp

declare rta_loop.simps [simp del]

text \<open>\<^verbatim>\<open>RTA_DATA\<close> of an attribute, as a string and as an address.\<close>

definition rta_string :: "nat \<Rightarrow> byte list \<Rightarrow> string result" where
  "rta_string rta buf = cstring (drop (rta + 4) buf)"

definition rta_mac :: "nat \<Rightarrow> byte list \<Rightarrow> ether_addr result" where
  "rta_mac rta buf = bytes_at (rta + 4) ETH_ALEN buf"

text \<open>What both handlers read at the header \<open>h\<close>: the type and the index of the interface and the attributes.\<close>

definition link_attrs :: "nat \<Rightarrow> byte list \<Rightarrow> nat \<Rightarrow> (int \<times> int \<times> (nat \<rightharpoonup> nat)) result" where
  "link_attrs IFLA_MAX buf h =
     rbind (u32_at h buf) (\<lambda>nlmsg_len.
     rbind (u16_at (h + 18) buf) (\<lambda>ifi_type.
     rbind (bytes_at (h + 20) 4 buf) (\<lambda>ifi_index.
     rbind (rta_loop IFLA_MAX buf (h + 32) (int nlmsg_len - 32) Map.empty) (\<lambda>tb.
     Ok (int ifi_type, sint (get_word ifi_index :: 32 word), tb)))))"

text \<open>The address of a new interface stays uninitialised when it is not given; it is not looked at.\<close>

definition new_net_interface ::
  "('s \<Rightarrow> bool \<times> 's) \<Rightarrow> 's callbacks \<Rightarrow> nat \<Rightarrow> byte list \<Rightarrow> nat \<Rightarrow> monitor \<Rightarrow> 's \<Rightarrow> (monitor \<times> 's) result option" where
  "new_net_interface call c IFLA_MAX buf h m s =
     (case rbind (link_attrs IFLA_MAX buf h) (\<lambda>(ifi_type, ifi_index, tb).
        case tb IFLA_IFNAME of None \<Rightarrow> Ok None
        | Some rta \<Rightarrow>
            rbind (case tb IFLA_ADDRESS of None \<Rightarrow> Ok ether_zero | Some rta \<Rightarrow> rta_mac rta buf) (\<lambda>macaddr.
            rbind (rta_string rta buf) (\<lambda>inet_name.
            Ok (Some (WirelessDevice_of inet_name ifi_index ifi_type macaddr 0)))))
      of Inl e \<Rightarrow> Some (Fault e)
       | Inr None \<Rightarrow> Some (Ok (m, s))
       | Inr (Some inetdevice) \<Rightarrow>
           if checkif_wireless_device inetdevice
           then map_option (\<lambda>r. rbind r (\<lambda>(_, m, s). Ok (m, s))) (get_winterface_infos call c (getIndex inetdevice) m s)
           else Some (Ok (m, s)))"

definition del_net_interface ::
  "'s callbacks \<Rightarrow> nat \<Rightarrow> byte list \<Rightarrow> nat \<Rightarrow> monitor \<Rightarrow> 's \<Rightarrow> (monitor \<times> 's) result" where
  "del_net_interface c IFLA_MAX buf h m s =
     rbind (link_attrs IFLA_MAX buf h) (\<lambda>(ifi_type, ifi_index, tb).
     case tb IFLA_IFNAME of None \<Rightarrow> Ok (m, s)
     | Some name \<Rightarrow>
         (case tb IFLA_ADDRESS of None \<Rightarrow> Ok (m, s)
          | Some rta \<Rightarrow>
              rbind (rta_mac rta buf) (\<lambda>macaddr.
              rbind (rta_string name buf) (\<lambda>inet_name.
              let inetdevice = WirelessDevice_of inet_name ifi_index ifi_type macaddr 0 in
              if checkif_wireless_device inetdevice
              then rbind (call_back (delinet_cb c) inetdevice s) (\<lambda>s. Ok (m, s))
              else Ok (m, s)))))"

section \<open>Receiving events\<close>

definition handle_event ::
  "('s \<Rightarrow> bool \<times> 's) \<Rightarrow> 's callbacks \<Rightarrow> nat \<Rightarrow> byte list \<Rightarrow> nat \<Rightarrow> nat \<Rightarrow> monitor \<Rightarrow> 's \<Rightarrow> (monitor \<times> 's) result option" where
  "handle_event call c IFLA_MAX buf h type m s =
     (if type = NLMSG_DONE then Some (Ok (m, s))
      else if type = NLMSG_ERROR then Some (Ok (m, s))
      else if type = RTM_NEWLINK then new_net_interface call c IFLA_MAX buf h m s
      else if type = RTM_DELLINK then Some (del_net_interface c IFLA_MAX buf h m s)
      else Some (Ok (m, s)))"

text \<open>
  The loop over the messages, \<^verbatim>\<open>NLMSG_OK\<close> and \<^verbatim>\<open>NLMSG_NEXT\<close> written out. The source casts the length that is
  left to \<^verbatim>\<open>unsigned int\<close> for the test, so after a last message without padding, or a failed \<^verbatim>\<open>recvmsg\<close>, the
  negative length is huge and the loop goes on outside the bytes that were received.
\<close>

function recv_loop ::
  "('s \<Rightarrow> bool \<times> 's) \<Rightarrow> 's callbacks \<Rightarrow> nat \<Rightarrow> byte list \<Rightarrow> nat \<Rightarrow> int \<Rightarrow> monitor \<Rightarrow> 's \<Rightarrow> (monitor \<times> 's) result option" where
  "recv_loop call c IFLA_MAX buf h len m s =
     (let ulen = unat (word_of_int len :: 32 word) in
      if ulen < 16 then Some (Ok (m, s))
      else case u32_at h buf of
          Inl e \<Rightarrow> Some (Fault e)
        | Inr nlmsg_len \<Rightarrow>
            if \<not> (16 \<le> nlmsg_len \<and> nlmsg_len \<le> ulen) then Some (Ok (m, s))
            else case u16_at (h + 4) buf of
                Inl e \<Rightarrow> Some (Fault e)
              | Inr nlmsg_type \<Rightarrow>
                  (case handle_event call c IFLA_MAX buf h nlmsg_type m s of
                     None \<Rightarrow> None
                   | Some (Inl e) \<Rightarrow> Some (Fault e)
                   | Some (Inr (m, s)) \<Rightarrow>
                       recv_loop call c IFLA_MAX buf (h + align4 nlmsg_len) (len - int (align4 nlmsg_len)) m s))"
  by pat_completeness auto
termination
proof (relation "measure (\<lambda>(call, c, mx, buf, h, len, m, s). length buf - h)")
  fix buf h nlmsg_len and ulen :: nat
  assume "u32_at h buf = Inr nlmsg_len" "\<not> \<not> (16 \<le> nlmsg_len \<and> nlmsg_len \<le> ulen)"
  then have "h + 4 \<le> length buf" "16 \<le> align4 nlmsg_len"
    using align4_ge [of nlmsg_len] by (auto simp: u32_at_def bytes_at_def split: if_splits)
  then show "((call, c, mx, buf, h + align4 nlmsg_len, len', m', s'), (call, c, mx, buf, h, len, m, s))
      \<in> measure (\<lambda>(call, c, mx, buf, h, len, m, s). length buf - h)"
    for call :: "'s \<Rightarrow> bool \<times> 's" and c mx len len' m m' s s'
    by simp
qed simp

declare recv_loop.simps [simp del]

text \<open>The bytes that \<^verbatim>\<open>recvmsg\<close> delivered, or \<^const>\<open>None\<close> when it returned -1; the buffer has 4096.\<close>

definition IFLIST_REPLY_BUFFER :: nat where "IFLIST_REPLY_BUFFER = 4096"

definition recv_inet_event ::
  "('s \<Rightarrow> bool \<times> 's) \<Rightarrow> 's callbacks \<Rightarrow> nat \<Rightarrow> byte list option \<Rightarrow> monitor \<Rightarrow> 's \<Rightarrow> (monitor \<times> 's) result option" where
  "recv_inet_event call c IFLA_MAX event m s =
     (case event of
        None \<Rightarrow> recv_loop call c IFLA_MAX [] 0 (-1) m s
      | Some buf \<Rightarrow> (let buf = take IFLIST_REPLY_BUFFER buf
                     in recv_loop call c IFLA_MAX buf 0 (int (length buf)) m s))"

text \<open>
  A turn of \<^verbatim>\<open>main_loop\<close>: \<^verbatim>\<open>select\<close> failed, timed out, or an event is there. The loop runs while the monitor is
  started, and marks whether the thread is outside of it.
\<close>

datatype select_outcome = Select_failed | Select_timeout | Select_event "byte list option"

fun main_loop ::
  "('s \<Rightarrow> bool \<times> 's) \<Rightarrow> 's callbacks \<Rightarrow> nat \<Rightarrow> select_outcome list \<Rightarrow> monitor \<Rightarrow> 's \<Rightarrow> (monitor \<times> 's) result option" where
  "main_loop call c IFLA_MAX results m s =
     (if \<not> monitor_started m then Some (Ok (m\<lparr>outsideloop := True\<rparr>, s))
      else case results of
          [] \<Rightarrow> Some (Ok (m\<lparr>outsideloop := False\<rparr>, s))
        | Select_failed # os \<Rightarrow> main_loop call c IFLA_MAX os (monitor_stop (m\<lparr>outsideloop := False\<rparr>)) s
        | Select_timeout # os \<Rightarrow> main_loop call c IFLA_MAX os (m\<lparr>outsideloop := False\<rparr>) s
        | Select_event e # os \<Rightarrow>
            (case recv_inet_event call c IFLA_MAX e (m\<lparr>outsideloop := False\<rparr>) s of
               None \<Rightarrow> None
             | Some (Inl f) \<Rightarrow> Some (Fault f)
             | Some (Inr (m, s)) \<Rightarrow> main_loop call c IFLA_MAX os m s))"

text \<open>The destructor stops the loop, waits until it is left, and closes what the object holds.\<close>

definition MonitorWirelessDevice_destroy :: "monitor \<Rightarrow> os \<Rightarrow> monitor \<times> os" where
  "MonitorWirelessDevice_destroy m s =
     (let m = (if monitor_started m then monitor_stop m else m) in (m, clean m s))"

text \<open>
  The program \<^verbatim>\<open>vwifi-inet-monitor\<close> (\<^verbatim>\<open>src/src/vwifi-inet-monitor.cc\<close>): its object is global, so an exception of
  the constructor ends it; no callback is set; the first signal stops the loop.
\<close>

definition inet_monitor_main ::
  "nl80211_reply list list \<Rightarrow> os \<Rightarrow> kernel \<Rightarrow> (monitor \<times> os \<times> kernel) result" where
  "inet_monitor_main answers s k =
     (case MonitorWirelessDevice_new answers s k of
        (None, s, k) \<Rightarrow> Fault Uncaught_exception
      | (Some monitor, s, k) \<Rightarrow> Ok (snd (monitor_start monitor), s, k))"

definition inet_monitor_signal :: "monitor \<Rightarrow> monitor" where
  "inet_monitor_signal monitor = monitor_stop monitor"

section \<open>Attributes\<close>

text \<open>An attribute as the kernel writes it, and what the table of the loop has to say about a list of them.\<close>

definition rta_bytes :: "nat \<times> byte list \<Rightarrow> byte list" where
  "rta_bytes a = put_word (word_of_nat (4 + length (snd a)) :: 16 word) @ put_word (word_of_nat (fst a) :: 16 word) @ snd a @
     replicate (align4 (length (snd a)) - length (snd a)) (CHR 0x00)"

definition rta_ok :: "nat \<times> byte list \<Rightarrow> bool" where
  "rta_ok a \<longleftrightarrow> fst a < 2 ^ 16 \<and> length (snd a) + 4 < 2 ^ 16"

definition stands_at :: "byte list \<Rightarrow> nat \<Rightarrow> byte list \<Rightarrow> bool" where
  "stands_at p off buf \<longleftrightarrow> (\<exists>r. drop off buf = p @ r)"

definition reads :: "nat \<Rightarrow> byte list \<Rightarrow> (nat \<times> byte list) list \<Rightarrow> (nat \<rightharpoonup> nat) \<Rightarrow> bool" where
  "reads mx buf as tb \<longleftrightarrow> (\<forall>t. case tb t of
      None \<Rightarrow> mx < t \<or> map_of (rev as) t = None
    | Some off \<Rightarrow> t \<le> mx \<and> (\<exists>p. map_of (rev as) t = Some p \<and> stands_at p (off + 4) buf))"

lemma align4_add4: "align4 (4 + n) = 4 + align4 n"
  by (simp add: align4_def) presburger

lemma length_rta_bytes [simp]: "length (rta_bytes a) = align4 (4 + length (snd a))"
  using align4_ge [of "length (snd a)"] by (simp add: rta_bytes_def align4_add4)

lemma u16_at_put: "w < 2 ^ 16 \<Longrightarrow> u16_at (length pre) (pre @ put_word (word_of_nat w :: 16 word) @ r) = Ok w"
  by (simp add: u16_at_def bytes_at_def unat_of_nat take_bit_nat_eq_self)

lemma reads_add:
  assumes "reads mx buf as tb" and "stands_at p (off + 4) buf"
  shows "reads mx buf (as @ [(t, p)]) (if t \<le> mx then tb(t \<mapsto> off) else tb)"
  unfolding reads_def
proof
  fix u
  have "case tb u of None \<Rightarrow> mx < u \<or> map_of (rev as) u = None
      | Some off \<Rightarrow> u \<le> mx \<and> (\<exists>p. map_of (rev as) u = Some p \<and> stands_at p (off + 4) buf)"
    using assms(1) by (simp add: reads_def)
  then show "case (if t \<le> mx then tb(t \<mapsto> off) else tb) u of
        None \<Rightarrow> mx < u \<or> map_of (rev (as @ [(t, p)])) u = None
      | Some off \<Rightarrow> u \<le> mx \<and> (\<exists>q. map_of (rev (as @ [(t, p)])) u = Some q \<and> stands_at q (off + 4) buf)"
    using assms(2) by (cases "tb u") auto
qed

lemma rta_loop_reads:
  assumes "buf = pre @ concat (map rta_bytes as) @ post" and "list_all rta_ok as" and "reads mx buf done tb"
  shows "\<exists>tb'. rta_loop mx buf (length pre) (int (length (concat (map rta_bytes as)))) tb = Ok tb' \<and>
    reads mx buf (done @ as) tb'"
  using assms
proof (induction as arbitrary: pre tb "done")
  case Nil
  then show ?case by (simp add: rta_loop.simps)
next
  case (Cons a as)
  obtain t p where a: "a = (t, p)" by (cases a)
  have ok: "t < 2 ^ 16" "4 + length p < 2 ^ 16" using Cons.prems(2) by (simp_all add: a rta_ok_def)
  let ?pad = "replicate (align4 (length p) - length p) (CHR 0x00)"
  let ?rest = "concat (map rta_bytes as)"
  define l where "l = align4 (4 + length p)"
  have l: "4 + length p \<le> l" by (simp add: l_def align4_ge)
  have buf: "buf = pre @ put_word (word_of_nat (4 + length p) :: 16 word) @ put_word (word_of_nat t :: 16 word) @ p @ ?pad @ ?rest @ post"
    using Cons.prems(1) by (simp only: a rta_bytes_def [of "(t, p)"] list.map concat.simps fst_conv snd_conv append_assoc)
  have len: "u16_at (length pre) buf = Ok (4 + length p)"
    unfolding buf by (rule u16_at_put [OF ok(2)])
  have ty: "u16_at (length pre + 2) buf = Ok t"
    using u16_at_put [OF ok(1), of "pre @ put_word (word_of_nat (4 + length p) :: 16 word)" "p @ ?pad @ ?rest @ post"]
    by (simp add: buf)
  have "stands_at p (length pre + 4) buf" by (simp add: stands_at_def buf)
  then have r: "reads mx buf (done @ [a]) (if t \<le> mx then tb(t \<mapsto> length pre) else tb)"
    unfolding a by (rule reads_add [OF Cons.prems(3)])
  have "rta_loop mx buf (length pre) (int (length (concat (map rta_bytes (a # as))))) tb =
      rta_loop mx buf (length pre + l) (int (length ?rest)) (if t \<le> mx then tb(t \<mapsto> length pre) else tb)"
    using l by (subst rta_loop.simps) (simp add: len ty [simplified] a flip: l_def)
  moreover have "buf = (pre @ rta_bytes a) @ ?rest @ post" using Cons.prems(1) by simp
  moreover have "length (pre @ rta_bytes a) = length pre + l" by (simp add: a l_def)
  ultimately show ?case
    using Cons.IH [of "pre @ rta_bytes a" "done @ [a]" "if t \<le> mx then tb(t \<mapsto> length pre) else tb"] Cons.prems(2) r
    by (simp only: append_assoc append_Cons append_Nil list.pred_inject)
qed


section \<open>A link message\<close>

definition link_message :: "nat \<Rightarrow> 16 word \<Rightarrow> 32 word \<Rightarrow> (nat \<times> byte list) list \<Rightarrow> byte list" where
  "link_message type iftype idx as =
     put_word (word_of_nat (32 + length (concat (map rta_bytes as))) :: 32 word) @
     put_word (word_of_nat type :: 16 word) @ replicate 12 (CHR 0x00) @ put_word iftype @ put_word idx @
     replicate 8 (CHR 0x00) @ concat (map rta_bytes as)"

text \<open>
  What the handlers are for, on the attributes themselves: the last name and the last address count.
\<close>

definition link_device :: "16 word \<Rightarrow> 32 word \<Rightarrow> byte list \<Rightarrow> ether_addr \<Rightarrow> WirelessDevice" where
  "link_device iftype idx name mac =
     WirelessDevice_of (takeWhile (\<lambda>c. c \<noteq> CHR 0x00) name) (sint idx) (uint iftype) mac 0"

definition link_deleted ::
  "'s callbacks \<Rightarrow> 16 word \<Rightarrow> 32 word \<Rightarrow> (nat \<times> byte list) list \<Rightarrow> monitor \<Rightarrow> 's \<Rightarrow> (monitor \<times> 's) result" where
  "link_deleted c iftype idx as m s =
     (case (map_of (rev as) IFLA_IFNAME, map_of (rev as) IFLA_ADDRESS) of
        (Some name, Some mac) \<Rightarrow>
          (let wd = link_device iftype idx name (take ETH_ALEN mac)
           in if checkif_wireless_device wd then rbind (call_back (delinet_cb c) wd s) (\<lambda>s. Ok (m, s)) else Ok (m, s))
      | _ \<Rightarrow> Ok (m, s))"

definition link_added ::
  "('s \<Rightarrow> bool \<times> 's) \<Rightarrow> 's callbacks \<Rightarrow> 16 word \<Rightarrow> 32 word \<Rightarrow> (nat \<times> byte list) list \<Rightarrow> monitor \<Rightarrow> 's \<Rightarrow>
   (monitor \<times> 's) result option" where
  "link_added call c iftype idx as m s =
     (case map_of (rev as) IFLA_IFNAME of
        Some name \<Rightarrow>
          if checkif_wireless_device (link_device iftype idx name ether_zero)
          then map_option (\<lambda>r. rbind r (\<lambda>(_, m, s). Ok (m, s))) (get_winterface_infos call c (sint idx) m s)
          else Some (Ok (m, s))
      | None \<Rightarrow> Some (Ok (m, s)))"

definition link_ok :: "(nat \<times> byte list) list \<Rightarrow> bool" where
  "link_ok as \<longleftrightarrow> list_all rta_ok as \<and> 32 + length (concat (map rta_bytes as)) \<le> IFLIST_REPLY_BUFFER \<and>
     (\<forall>name. map_of (rev as) IFLA_IFNAME = Some name \<longrightarrow> CHR 0x00 \<in> set name) \<and>
     (\<forall>mac. map_of (rev as) IFLA_ADDRESS = Some mac \<longrightarrow> ETH_ALEN \<le> length mac)"

lemma link_message_parts:
  fixes as :: "(nat \<times> byte list) list"
  defines "n \<equiv> 32 + length (concat (map rta_bytes as))"
  assumes "link_ok as" and "type < 2 ^ 16"
  shows "length (link_message type iftype idx as) = n" "u32_at 0 (link_message type iftype idx as) = Ok n"
    "u16_at 4 (link_message type iftype idx as) = Ok type" "u16_at 18 (link_message type iftype idx as) = Ok (unat iftype)"
    "bytes_at 20 4 (link_message type iftype idx as) = Ok (put_word idx)"
proof -
  show "length (link_message type iftype idx as) = n" by (simp add: link_message_def n_def)
  have n: "n < 2 ^ 32" using assms(2) by (simp add: n_def link_ok_def IFLIST_REPLY_BUFFER_def)
  let ?body = "concat (map rta_bytes as)"
  let ?zeros = "\<lambda>n. replicate n (CHR 0x00)"
  let ?len = "put_word (word_of_nat n :: 32 word)" and ?type = "put_word (word_of_nat type :: 16 word)"
  have m: "link_message type iftype idx as = ?len @ ?type @ ?zeros 12 @ put_word iftype @ put_word idx @ ?zeros 8 @ ?body"
    by (simp add: link_message_def n_def)
  show "u32_at 0 (link_message type iftype idx as) = Ok n"
    using n unfolding m by (simp add: u32_at_def bytes_at_def unat_of_nat take_bit_nat_eq_self)
  show "u16_at 4 (link_message type iftype idx as) = Ok type"
    using u16_at_put [OF assms(3), of ?len] unfolding m by simp
  show "u16_at 18 (link_message type iftype idx as) = Ok (unat iftype)"
    using u16_at_put [of "unat iftype" "?len @ ?type @ ?zeros 12"] unsigned_less [of iftype] unfolding m by simp
  show "bytes_at 20 4 (link_message type iftype idx as) = Ok (put_word idx)"
    unfolding m by (simp add: bytes_at_def)
qed

lemma link_attrs_message:
  assumes "link_ok as" and "type < 2 ^ 16"
  shows "\<exists>tb. link_attrs mx (link_message type iftype idx as) 0 = Ok (uint iftype, sint idx, tb) \<and>
    reads mx (link_message type iftype idx as) as tb"
proof -
  let ?m = "link_message type iftype idx as"
  define pre where "pre = take 32 ?m"
  have "drop 32 ?m = concat (map rta_bytes as)" by (simp add: link_message_def)
  then have buf: "?m = pre @ concat (map rta_bytes as) @ []" by (metis append_Nil2 append_take_drop_id pre_def)
  have pre: "length pre = 32" using link_message_parts(1) [OF assms, of iftype idx] by (simp add: pre_def)
  have "reads mx ?m [] Map.empty" by (simp add: reads_def)
  from rta_loop_reads [OF buf _ this] obtain tb where
    "rta_loop mx ?m 32 (int (length (concat (map rta_bytes as)))) Map.empty = Ok tb" "reads mx ?m as tb"
    using assms(1) pre by (auto simp: link_ok_def)
  then show ?thesis
    using link_message_parts(2-5) [OF assms, of iftype idx] by (auto simp: link_attrs_def)
qed

lemma stands_at_string: "stands_at p (off + 4) buf \<Longrightarrow> CHR 0x00 \<in> set p \<Longrightarrow>
    rta_string off buf = Ok (takeWhile (\<lambda>c. c \<noteq> CHR 0x00) p)"
  by (auto simp: stands_at_def rta_string_def cstring_def takeWhile_append)

lemma stands_at_mac: "stands_at p (off + 4) buf \<Longrightarrow> ETH_ALEN \<le> length p \<Longrightarrow> rta_mac off buf = Ok (take ETH_ALEN p)"
proof -
  assume s: "stands_at p (off + 4) buf" and l: "ETH_ALEN \<le> length p"
  then obtain r where r: "drop (off + 4) buf = p @ r" by (auto simp: stands_at_def)
  from arg_cong [OF r, of length] l have "off + 4 + ETH_ALEN \<le> length buf" by (simp add: ETH_ALEN_def)
  with r l show ?thesis by (simp add: rta_mac_def bytes_at_def)
qed

lemma reads_cases:
  assumes "reads mx buf as tb" and "t \<le> mx"
  obtains "tb t = None" "map_of (rev as) t = None"
  | off p where "tb t = Some off" "map_of (rev as) t = Some p" "stands_at p (off + 4) buf"
  using assms by (cases "tb t") (auto simp: reads_def split: option.splits dest: spec [of _ t])

lemma del_net_interface_message:
  assumes "link_ok as" and "type < 2 ^ 16" and "IFLA_IFNAME \<le> mx"
  shows "del_net_interface c mx (link_message type iftype idx as) 0 m s = link_deleted c iftype idx as m s"
proof -
  obtain tb where tb: "link_attrs mx (link_message type iftype idx as) 0 = Ok (uint iftype, sint idx, tb)"
      and r: "reads mx (link_message type iftype idx as) as tb"
    using link_attrs_message [OF assms(1,2)] by blast
  have mx: "IFLA_ADDRESS \<le> mx" using assms(3) by (simp add: IFLA_ADDRESS_def IFLA_IFNAME_def)
  show ?thesis
    by (rule reads_cases [OF r assms(3)]; rule reads_cases [OF r mx])
      (use assms(1) in \<open>simp_all add: del_net_interface_def tb link_deleted_def link_device_def link_ok_def
        stands_at_string stands_at_mac\<close>)
qed

lemma new_net_interface_message:
  assumes "link_ok as" and "type < 2 ^ 16" and "IFLA_IFNAME \<le> mx"
  shows "new_net_interface call c mx (link_message type iftype idx as) 0 m s = link_added call c iftype idx as m s"
proof -
  obtain tb where tb: "link_attrs mx (link_message type iftype idx as) 0 = Ok (uint iftype, sint idx, tb)"
      and r: "reads mx (link_message type iftype idx as) as tb"
    using link_attrs_message [OF assms(1,2)] by blast
  have mx: "IFLA_ADDRESS \<le> mx" using assms(3) by (simp add: IFLA_ADDRESS_def IFLA_IFNAME_def)
  show ?thesis
    by (rule reads_cases [OF r assms(3)]; rule reads_cases [OF r mx])
      (use assms(1) in \<open>simp_all add: new_net_interface_def tb link_added_def link_device_def link_ok_def
        stands_at_string stands_at_mac checkif_wireless_device_def WirelessDevice_of_def getIndex_def\<close>)
qed

lemma align4_mult: "4 dvd n \<Longrightarrow> align4 n = n"
  by (auto simp: align4_def elim!: dvdE)

lemma align4_body: "4 dvd length (concat (map rta_bytes as))"
  by (induction as) (simp_all add: align4_def)

lemma recv_message:
  assumes "link_ok as" and "type < 2 ^ 16"
  shows "recv_inet_event call c mx (Some (link_message type iftype idx as)) m s =
    handle_event call c mx (link_message type iftype idx as) 0 type m s"
proof -
  let ?m = "link_message type iftype idx as"
  define n where "n = 32 + length (concat (map rta_bytes as))"
  note p = link_message_parts [OF assms, of iftype idx, folded n_def]
  have n: "n \<le> 4096" using assms(1) by (simp add: link_ok_def IFLIST_REPLY_BUFFER_def n_def)
  have al: "align4 n = n" by (rule align4_mult) (use align4_body [of as] in \<open>simp add: dvd_add n_def\<close>)
  have u: "unat (word_of_int (int n) :: 32 word) = n"
    using n by (simp add: unat_of_nat take_bit_nat_eq_self)
  have n16: "16 \<le> n" by (simp add: n_def)
  have "take IFLIST_REPLY_BUFFER ?m = ?m" using n p(1) by (simp add: IFLIST_REPLY_BUFFER_def)
  then have "recv_inet_event call c mx (Some ?m) m s = recv_loop call c mx ?m 0 (int n) m s"
    using p(1) by (simp add: recv_inet_event_def)
  also have "\<dots> = (case handle_event call c mx ?m 0 type m s of
                     None \<Rightarrow> None
                   | Some (Inl e) \<Rightarrow> Some (Fault e)
                   | Some (Inr (m, s)) \<Rightarrow> recv_loop call c mx ?m n 0 m s)"
    using p(2,3) u al n16 by (subst recv_loop.simps) (simp add: Let_def split: option.splits sum.splits prod.splits)
  also have "\<dots> = handle_event call c mx ?m 0 type m s"
    by (auto simp: recv_loop.simps [of _ _ _ _ n 0] split: option.splits sum.splits)
  finally show ?thesis .
qed



text \<open>A failed \<^verbatim>\<open>recvmsg\<close> sends the loop into memory that was never received.\<close>

lemma failed_receive: "recv_inet_event call c mx None m s = Some (Fault Undefined_behaviour)"
  by (simp add: recv_inet_event_def recv_loop.simps u32_at_def bytes_at_def Let_def unsigned_minus_1_eq_mask mask_eq_exp_minus_1)

text \<open>Without callbacks, as in \<^verbatim>\<open>vwifi-inet-monitor\<close>, the first complete answer throws.\<close>

lemma no_callbacks_throw:
  "recv_winterface_infos no_callbacks \<lparr>nl_ifname = Some n, nl_ifindex = Some i, nl_mac = Some ether_zero,
     nl_iftype = Some t, nl_tx_power = p\<rparr> m s = Fault Uncaught_exception"
  by (simp add: recv_winterface_infos_def bytes_at_def ether_zero_def no_callbacks_def call_back_def Let_def)


section \<open>The interface: a client of the monitor\<close>

text \<open>
  A client whose callbacks, given a device with an address of six octets, keep an invariant of its state keeps it
  whatever the monitor receives.
\<close>

locale monitor_client =
  fixes Inv :: "'s \<Rightarrow> bool"
    and c :: "'s callbacks"
    and call :: "'s \<Rightarrow> bool \<times> 's"
  assumes call_keeps: "Inv s \<Longrightarrow> Inv (snd (call s))"
    and callback_keeps: "cb = newinet_cb c \<or> cb = delinet_cb c \<or> cb = initinet_cb c \<Longrightarrow> Inv s \<Longrightarrow>
      length (dev_macaddr wd) = ETH_ALEN \<Longrightarrow> call_back cb wd s = Inr s' \<Longrightarrow> Inv s'"
begin

lemma recv_winterface_infos_keeps:
  assumes "Inv s" and "recv_winterface_infos c tb m s = Inr (m', s')"
  shows "Inv s'"
proof -
  have "length macaddr = ETH_ALEN" if "bytes_at 0 ETH_ALEN mac = Inr macaddr" for mac macaddr
    using that by (auto simp: bytes_at_def split: if_splits)
  then have mac: "length (dev_macaddr (WirelessDevice_of n i t macaddr p)) = ETH_ALEN"
    if "bytes_at 0 ETH_ALEN mac = Inr macaddr" for n i t p mac macaddr
    using that by (simp add: WirelessDevice_of_def)
  note kn = callback_keeps [of "newinet_cb c", OF disjI1 [OF refl] assms(1) mac]
    and ki = callback_keeps [of "initinet_cb c", OF disjI2 [OF disjI2 [OF refl]] assms(1) mac]
  show ?thesis
    using assms
    by (cases "nl_ifname tb"; cases "nl_ifindex tb"; cases "nl_mac tb"; cases "nl_iftype tb")
      (auto simp: recv_winterface_infos_def Let_def rbind_Inr_iff split: if_splits intro: kn ki)
qed

lemma handle_replies_keeps: "Inv s \<Longrightarrow> handle_replies c rs m s = Inr (m', s') \<Longrightarrow> Inv s'"
proof (induction rs arbitrary: m s)
  case (Cons r rs)
  then show ?case by (cases r) (auto simp: rbind_Inr_iff dest: recv_winterface_infos_keeps)
qed simp

lemma nl_recvmsgs_keeps: "Inv s \<Longrightarrow> nl_recvmsgs c m s = Inr (m', s') \<Longrightarrow> Inv s'"
  by (auto simp: nl_recvmsgs_def split: list.splits dest: handle_replies_keeps)

lemma dump_loop_keeps: "dump_loop c m s = Some (Inr (m', s')) \<Longrightarrow> Inv s \<Longrightarrow> Inv s'"
proof -
  assume d: "dump_loop c m s = Some (Inr (m', s'))" and i: "Inv s"
  define P where "P = (\<lambda>c' (m :: monitor) s (r :: (monitor \<times> 's) result). c' = c \<longrightarrow> Inv s \<longrightarrow> (\<forall>m' s'. r = Inr (m', s') \<longrightarrow> Inv s'))"
  have "P c m s (Inr (m', s'))"
  proof (rule dump_loop.raw_induct [OF _ d])
    fix loop c' m s r
    assume ih: "\<And>c' m s r. loop c' m s = Some r \<Longrightarrow> P c' m s r"
      and body: "(if 0 < err m then case nl_recvmsgs c' m s of Inl e \<Rightarrow> Some (Fault e) | Inr (m, s) \<Rightarrow> loop c' m s
        else Some (Ok (m, s))) = Some r"
    show "P c' m s r"
    proof (cases "0 < err m")
      case True
      show ?thesis
      proof (cases "nl_recvmsgs c' m s")
        case (Inr mt)
        obtain m1 s1 where mt: "mt = (m1, s1)" by (cases mt)
        then have "P c' m1 s1 r" using ih body True Inr by simp
        moreover have "Inv s1" if "c' = c" "Inv s"
          using nl_recvmsgs_keeps [of s m m1 s1] Inr mt that by simp
        ultimately show ?thesis unfolding P_def by blast
      qed (use body True in \<open>auto simp: P_def\<close>)
    qed (use body in \<open>auto simp: P_def\<close>)
  qed
  with i show ?thesis by (simp add: P_def)
qed

lemma get_winterface_infos_keeps:
  assumes "Inv s" and "get_winterface_infos call c i m s = Some (Inr (r, m', s'))"
  shows "Inv s'"
proof -
  obtain ok t where t: "call s = (ok, t)" by (cases "call s")
  obtain ok' u where u: "call t = (ok', u)" by (cases "call t")
  have "Inv t" "Inv u" using call_keeps [OF assms(1)] call_keeps [of t] t u by auto
  then show ?thesis
    using assms(2) t u
    by (auto simp: get_winterface_infos_def Let_def rbind_Inr_iff split: if_splits dest: nl_recvmsgs_keeps dump_loop_keeps)
qed

lemma new_net_interface_keeps:
  "Inv s \<Longrightarrow> new_net_interface call c mx buf h m s = Some (Inr (m', s')) \<Longrightarrow> Inv s'"
  by (auto simp: new_net_interface_def rbind_Inr_iff split: sum.splits option.splits if_splits dest: get_winterface_infos_keeps)

lemma del_net_interface_keeps:
  assumes "Inv s" and "del_net_interface c mx buf h m s = Inr (m', s')"
  shows "Inv s'"
proof -
  have mac: "length (dev_macaddr (WirelessDevice_of n i t macaddr p)) = ETH_ALEN" if "rta_mac rta buf = Inr macaddr" for n i t p rta macaddr
    using that by (auto simp: WirelessDevice_of_def rta_mac_def bytes_at_def split: if_splits)
  obtain t i tb where "link_attrs mx buf h = Inr (t, i, tb)"
    using assms(2) by (auto simp: del_net_interface_def rbind_Inr_iff)
  note k = callback_keeps [of "delinet_cb c", OF disjI2 [OF disjI1 [OF refl]] assms(1) mac]
  from \<open>link_attrs mx buf h = Inr (t, i, tb)\<close> show ?thesis
    using assms
    by (cases "tb IFLA_IFNAME"; cases "tb IFLA_ADDRESS")
      (auto simp: del_net_interface_def Let_def rbind_Inr_iff split: if_splits intro: k)
qed

lemma handle_event_keeps: "Inv s \<Longrightarrow> handle_event call c mx buf h t m s = Some (Inr (m', s')) \<Longrightarrow> Inv s'"
  by (auto simp: handle_event_def split: if_splits dest: new_net_interface_keeps del_net_interface_keeps)

lemma recv_loop_keeps: "recv_loop call c mx buf h len m s = Some (Inr (m', s')) \<Longrightarrow> Inv s \<Longrightarrow> Inv s'"
proof (induction "length buf - h" arbitrary: h len m s rule: less_induct)
  case less
  let ?u = "unat (word_of_int len :: 32 word)"
  show ?case
  proof (cases "?u < 16")
    case True
    then show ?thesis using less.prems by (simp add: recv_loop.simps [of call c mx buf h len m s])
  next
    case False
    then obtain n where n: "u32_at h buf = Inr n"
      using less.prems(1) by (auto simp: recv_loop.simps [of call c mx buf h len m s] Let_def split: sum.splits)
    show ?thesis
    proof (cases "16 \<le> n \<and> n \<le> ?u")
      case True
      then obtain t m1 s1 where "handle_event call c mx buf h t m s = Some (Inr (m1, s1))"
        and r: "recv_loop call c mx buf (h + align4 n) (len - int (align4 n)) m1 s1 = Some (Inr (m', s'))"
        using less.prems(1) False n
        by (auto simp: recv_loop.simps [of call c mx buf h len m s] Let_def split: sum.splits option.splits)
      then have "Inv s1" using less.prems(2) by (blast dest: handle_event_keeps)
      moreover have "length buf - (h + align4 n) < length buf - h"
        using n True align4_ge [of n] by (auto simp: u32_at_def bytes_at_def split: if_splits)
      ultimately show ?thesis using less.hyps r by blast
    next
      case nok: False
      then show ?thesis
        using less.prems False n by (auto simp: recv_loop.simps [of call c mx buf h len m s] Let_def)
    qed
  qed
qed

lemma recv_inet_event_keeps: "recv_inet_event call c mx e m s = Some (Inr (m', s')) \<Longrightarrow> Inv s \<Longrightarrow> Inv s'"
  by (auto simp: recv_inet_event_def Let_def split: option.splits dest: recv_loop_keeps)

lemma main_loop_keeps: "main_loop call c mx rs m s = Some (Inr (m', s')) \<Longrightarrow> Inv s \<Longrightarrow> Inv s'"
proof (induction rs arbitrary: m s)
  case Nil
  then show ?case by (auto split: if_splits)
next
  case (Cons r rs)
  then show ?case
    by (cases r) (auto split: if_splits option.splits sum.splits dest: recv_inet_event_keeps)
qed

end


end
