(* ===== verification/Vwifi_Lifecycle.thy ===== *)
theory Vwifi_Lifecycle
  imports Vwifi_Guest Vwifi_Monitor
begin

text \<open>
  The life of the guest program (\<^verbatim>\<open>src/src/ckernelwifi.cc\<close>): it opens the driver, learns the interfaces, connects
  to the server, runs five threads, connects again when the connection is lost, and stops.

  A pause of the source is a point where a signal may stop the program. A loop that may never end is \<^const>\<open>None\<close>
  when it does not. The five threads are given by the turns of their loops; a run of the guest is any interleaving of
  the turns.

  The interface \<open>reconnecting\<close> extends \<open>dialer\<close> by what the guest needs of its socket class to come back; both classes
  provide it.
\<close>

section \<open>Connecting and closing\<close>

type_synonym 'a connecter = "'a CSocketClient_scheme \<Rightarrow> os \<Rightarrow> bool \<times> 'a CSocketClient_scheme \<times> os"
type_synonym 'a id_getter = "'a CSocketClient_scheme \<Rightarrow> os \<Rightarrow> (int \<times> os) result"

text \<open>\<^verbatim>\<open>CWifiClient::_Connect\<close>: the identifier when it succeeds.\<close>

definition CWifiClient_Connect :: "'a connecter \<Rightarrow> 'a id_getter \<Rightarrow> 'a guest \<Rightarrow> (int option \<times> 'a guest) result" where
  "CWifiClient_Connect vConnect vGetID g =
     (let (ok, sk, net) = vConnect (Client g) (Net g); g = g\<lparr>Client := sk, Net := net\<rparr> in
      if \<not> ok then Ok (None, g)
      else rbind (AddNode (GetDescriptor (Client g)) (Nodes g)) (\<lambda>nodes.
        let g = g\<lparr>Nodes := nodes\<rparr> in
        rbind (vGetID (Client g) (Net g)) (\<lambda>(id, net). Ok (Some id, g\<lparr>Net := net\<rparr>))))"

definition CWifiClient_Close :: "'a guest \<Rightarrow> 'a guest" where
  "CWifiClient_Close g = (let (sk, net) = CSocket_Close (Client g) (Net g) in g\<lparr>Client := sk, Net := net\<rparr>)"

definition reconnect_to_server :: "'a connecter \<Rightarrow> 'a id_getter \<Rightarrow> 'a guest \<Rightarrow> (bool \<times> 'a guest) result" where
  "reconnect_to_server vConnect vGetID g =
     rbind (CWifiClient_Connect vConnect vGetID (CWifiClient_Close g)) (\<lambda>(id, g).
     Ok (case id of None \<Rightarrow> False | Some _ \<Rightarrow> True, g))"

text \<open>The tasks of the object, in the order of its class.\<close>

definition hwsimloop_task :: nat where "hwsimloop_task = 0"
definition serverloop_task :: nat where "serverloop_task = 1"
definition monitorloop_task :: nat where "monitorloop_task = 2"
definition winterface_update_loop_task :: nat where "winterface_update_loop_task = 3"
definition connection_to_server_loop_task :: nat where "connection_to_server_loop_task = 4"

text \<open>A turn of a loop: at its interruption point the thread ends, or the rest of the turn runs.\<close>

definition loop_turn :: "nat \<Rightarrow> ('a guest \<Rightarrow> 'a guest result) \<Rightarrow> 'a guest \<Rightarrow> 'a guest result" where
  "loop_turn i body g =
     (if task_interrupted i (Tasks g) then Ok (g\<lparr>Tasks := dead_break i (Tasks g)\<rparr>) else body g)"

definition manage_server_crash_body :: "'a connecter \<Rightarrow> 'a id_getter \<Rightarrow> 'a guest \<Rightarrow> 'a guest result" where
  "manage_server_crash_body vConnect vGetID g =
     (if \<not> is_connected_to_server g then
        rbind (reconnect_to_server vConnect vGetID g) (\<lambda>(ok, g).
        Ok (if ok then connected_to_server True g else g))
      else Ok g)"

definition manage_server_crash_loop :: "'a connecter \<Rightarrow> 'a id_getter \<Rightarrow> 'a guest \<Rightarrow> 'a guest result" where
  "manage_server_crash_loop vConnect vGetID =
     loop_turn connection_to_server_loop_task (manage_server_crash_body vConnect vGetID)"

section \<open>Stopping\<close>

text \<open>
  \<^verbatim>\<open>stop\<close> up to its wait. The other result says whether it waits, until \<^const>\<open>all_thread_interrupted\<close>.
\<close>

definition stop :: "'a guest \<Rightarrow> bool \<times> 'a guest" where
  "stop g =
     (if being_initialized g then (False, g\<lparr>being_initialized := False\<rparr>)
      else if is_being_started g then (False, being_started False g)
      else let g = (if is_connected_to_server g then CWifiClient_Close g else g);
               p = interrupt connection_to_server_loop_task (Tasks g);
               p = interrupt serverloop_task p; p = interrupt hwsimloop_task p;
               p = interrupt monitorloop_task p; p = interrupt winterface_update_loop_task p
           in (True, g\<lparr>Tasks := p\<rparr>))"

definition pause :: "'a guest \<Rightarrow> 'a guest" where
  "pause g = (case alarms g of [] \<Rightarrow> g | b # bs \<Rightarrow> if b then snd (stop (g\<lparr>alarms := bs\<rparr>)) else g\<lparr>alarms := bs\<rparr>)"

section \<open>Opening the driver\<close>

definition resolve_family :: "'a guest \<Rightarrow> 'a guest" where
  "resolve_family g =
     (let (f, k) = genl_ctrl_resolve KERNEL_HWSIM_FAMILY_NAME (Kern g) in g\<lparr>family_id := f, Kern := k\<rparr>)"

definition guest_call :: "'a guest \<Rightarrow> bool \<times> 'a guest" where
  "guest_call g = (let (ok, k) = nl_call (Kern g) in (ok, g\<lparr>Kern := k\<rparr>))"

text \<open>What both functions begin with, up to the first \<^verbatim>\<open>genl_ctrl_resolve\<close>, and end with.\<close>

definition netlink_open :: "'a guest \<Rightarrow> bool \<times> 'a guest" where
  "netlink_open g =
     (let (cb, g) = guest_call g in
      if \<not> cb then (False, g)
      else let (sock, g) = guest_call g in
        if \<not> sock then (False, g\<lparr>nl_alive := False\<rparr>)
        else let (ok, g) = guest_call g in
          if \<not> ok then (False, g\<lparr>nl_alive := False\<rparr>) else (True, resolve_family (g\<lparr>nl_alive := True\<rparr>)))"

text \<open>When \<^verbatim>\<open>setsockopt\<close> fails the socket is freed, and the function returns 1 all the same.\<close>

definition netlink_timeout :: "'a guest \<Rightarrow> int \<times> 'a guest" where
  "netlink_timeout g = (let (ok, g) = guest_call g in (1, if \<not> ok then g\<lparr>nl_alive := False\<rparr> else g))"

partial_function (option) wait_family_first :: "'a guest \<Rightarrow> (bool \<times> 'a guest) option" where
  "wait_family_first g =
     (if family_id g < 0 then
        if \<not> being_initialized g then Some (False, g) else wait_family_first (resolve_family (pause g))
      else Some (True, g))"

definition init_netlink_first :: "'a guest \<Rightarrow> (int \<times> 'a guest) option" where
  "init_netlink_first g =
     (case netlink_open g of
        (False, g) \<Rightarrow> Some (0, g)
      | (True, g) \<Rightarrow> map_option (\<lambda>(ok, g). if ok then netlink_timeout g else (0, g)) (wait_family_first g))"

partial_function (option) wait_family :: "'a guest \<Rightarrow> 'a guest option" where
  "wait_family g =
     (if family_id g < 0 then
        if \<not> being_initialized g then Some g
        else if task_interrupted monitorloop_task (Tasks g) then Some (g\<lparr>Tasks := dead (Tasks g)\<rparr>)
        else wait_family (resolve_family (pause g))
      else Some g)"

definition init_netlink :: "'a guest \<Rightarrow> (int \<times> 'a guest) option" where
  "init_netlink g =
     (case netlink_open g of
        (False, g) \<Rightarrow> Some (0, g)
      | (True, g) \<Rightarrow> map_option netlink_timeout (wait_family g))"

text \<open>\<^verbatim>\<open>init\<close> and \<^verbatim>\<open>init_first\<close> differ in the function above that they call.\<close>

definition register :: "int \<times> 'a guest \<Rightarrow> (int \<times> 'a guest) result" where
  "register = (\<lambda>(r, g).
     if r = 0 then Ok (0, g)
     else rbind (send_register_msg g) (\<lambda>(r, g).
       if r = 0 then Ok (0, g\<lparr>nl_alive := False\<rparr>) else Ok (1, g\<lparr>initialized_flag := True\<rparr>)))"

definition init :: "'a guest \<Rightarrow> (int \<times> 'a guest) result option" where
  "init g = map_option register (init_netlink g)"

definition init_first :: "'a guest \<Rightarrow> (int \<times> 'a guest) result option" where
  "init_first g = map_option register (init_netlink_first g)"

definition clean_all :: "'a guest \<Rightarrow> 'a guest" where
  "clean_all g = g\<lparr>nl_alive := False\<rparr>"

text \<open>The destructor, which the program never reaches: it ends with \<^verbatim>\<open>_exit\<close>.\<close>

definition CKernelWifi_destroy :: "'a guest \<Rightarrow> 'a guest" where
  "CKernelWifi_destroy g = clean_all g"

text \<open>A turn of \<^verbatim>\<open>monitor_hwsim_loop\<close>: the driver is looked for, and opened again when it is gone.\<close>

definition monitor_hwsim_loop :: "'a guest \<Rightarrow> 'a guest result option" where
  "monitor_hwsim_loop g =
     (if task_interrupted monitorloop_task (Tasks g)
      then Some (Ok (g\<lparr>Tasks := dead_break monitorloop_task (Tasks g)\<rparr>))
      else let g = pause g; (f, k) = genl_ctrl_resolve KERNEL_HWSIM_FAMILY_NAME (Kern g); g = g\<lparr>Kern := k\<rparr> in
        if f < 0 then
          map_option (\<lambda>r. rbind r (\<lambda>(ok, g).
              Ok (if ok = 0 then g\<lparr>Tasks := end_task Left monitorloop_task (Tasks g)\<rparr> else g)))
            (init (g\<lparr>initialized_flag := False\<rparr>))
        else Some (Ok g))"

section \<open>The interfaces\<close>

text \<open>
  The permanent address of an interface. The socket is closed on success only. The source copies 16 bytes of the name
  whatever its length; the name is the part before the zero byte.
\<close>

definition get_pmaddr :: "string \<Rightarrow> 'a guest \<Rightarrow> ether_addr option \<times> 'a guest" where
  "get_pmaddr ifname g =
     (let (mem, net) = os_call (Net g); g = g\<lparr>Net := net\<rparr> in
      if \<not> mem then (None, g)
      else let (sock, net) = os_socket (Net g); g = g\<lparr>Net := net\<rparr> in
        if sock < 0 then (None, g)
        else case perm_addr g ifname of
            None \<Rightarrow> (None, g)
          | Some data \<Rightarrow>
              if length data \<noteq> ETH_ALEN then (None, g) else (Some data, g\<lparr>Net := os_close sock (Net g)\<rparr>))"

definition handle_new_winet_notification :: "WirelessDevice \<Rightarrow> 'a guest \<Rightarrow> 'a guest" where
  "handle_new_winet_notification wd g =
     (case get_pmaddr (getName wd) g of
        (Some paddr, g) \<Rightarrow> g\<lparr>wdevices := add_device (setMachwsim paddr wd) (wdevices g)\<rparr>
      | (None, g) \<Rightarrow> g)"

definition handle_init_winet_notification :: "WirelessDevice \<Rightarrow> 'a guest \<Rightarrow> 'a guest" where
  "handle_init_winet_notification wd g =
     (case get_pmaddr (getName wd) g of
        (Some paddr, g) \<Rightarrow> g\<lparr>wdevices := add_device (setMachwsim paddr wd) (wdevices g)\<rparr>
      | (None, g) \<Rightarrow> g)"

definition handle_del_winet_notification :: "WirelessDevice \<Rightarrow> 'a guest \<Rightarrow> 'a guest" where
  "handle_del_winet_notification wd g = g\<lparr>wdevices := delete_device wd (wdevices g)\<rparr>"

definition guest_callbacks :: "'a guest callbacks" where
  "guest_callbacks =
     setInitInetCallback (\<lambda>wd g. Ok (handle_init_winet_notification wd g))
    (setDelInetCallback (\<lambda>wd g. Ok (handle_del_winet_notification wd g))
    (setNewInetCallback (\<lambda>wd g. Ok (handle_new_winet_notification wd g)) no_callbacks))"

section \<open>The loops of the threads\<close>

text \<open>The messages that \<^verbatim>\<open>nl_recvmsgs_default\<close> finds, each handed to \<^verbatim>\<open>process_messages_cb\<close>.\<close>

definition process_messages_cb ::
  "(byte list \<Rightarrow> attr_table option) \<Rightarrow> byte list \<Rightarrow> 'a guest \<Rightarrow> 'a guest result" where
  "process_messages_cb genlmsg_parse msg g = rbind (process_messages genlmsg_parse msg g) (\<lambda>(_, g). Ok g)"

definition recv_msg_from_hwsim_loop ::
  "(byte list \<Rightarrow> attr_table option) \<Rightarrow> byte list list \<Rightarrow> 'a guest \<Rightarrow> 'a guest result" where
  "recv_msg_from_hwsim_loop genlmsg_parse msgs = loop_turn hwsimloop_task (\<lambda>g.
     if \<not> initialized g then Ok (pause g)
     else rbind (defined (nl_alive g)) (\<lambda>_. run_events (process_messages_cb genlmsg_parse) msgs g))"

definition recv_msg_from_server_loop ::
  "(byte list \<Rightarrow> attr_table option) \<Rightarrow> pselect_outcome \<Rightarrow> 'a guest \<Rightarrow> 'a guest result" where
  "recv_msg_from_server_loop genlmsg_parse ev = loop_turn serverloop_task (\<lambda>g.
     if \<not> initialized g then Ok (pause g) else recv_from_server genlmsg_parse ev g)"

definition winet_update_loop :: "monitor \<Rightarrow> 'a guest \<Rightarrow> (monitor \<times> 'a guest) result option" where
  "winet_update_loop m g =
     (if task_interrupted winterface_update_loop_task (Tasks g)
      then Some (Ok (m, g\<lparr>Tasks := dead_break winterface_update_loop_task (Tasks g)\<rparr>))
      else if \<not> initialized g then Some (Ok (m, pause g))
      else map_option (\<lambda>r. rbind r (\<lambda>(_, m, g). Ok (m, pause g)))
             (get_winterface_infos guest_call guest_callbacks 0 m g))"

section \<open>Starting\<close>

partial_function (option) start_connect ::
  "'a connecter \<Rightarrow> 'a id_getter \<Rightarrow> 'a guest \<Rightarrow> (bool \<times> 'a guest) result option" where
  "start_connect vConnect vGetID g =
     (case CWifiClient_Connect vConnect vGetID g of
        Inl e \<Rightarrow> Some (Fault e)
      | Inr (ident, g) \<Rightarrow>
          if ident \<noteq> None then Some (Ok (True, g))
          else if \<not> is_being_started g then Some (Ok (False, g))
          else start_connect vConnect vGetID (pause g))"

definition start_tasks :: "threads \<Rightarrow> threads" where
  "start_tasks p =
     thread_start connection_to_server_loop_task (thread_start winterface_update_loop_task
       (thread_start monitorloop_task (thread_start serverloop_task (thread_start hwsimloop_task p))))"

text \<open>
  \<^verbatim>\<open>start\<close> up to the point where the threads run, with the monitor: \<^const>\<open>None\<close> in the pair when it returns 0. The
  first argument is what nl80211 is going to answer.
\<close>

definition start_monitor ::
  "nl80211_reply list list \<Rightarrow> 'a guest \<Rightarrow> (monitor option \<times> 'a guest) result option" where
  "start_monitor answers g =
     (let (m, net, k) = MonitorWirelessDevice_new answers (Net g) (Kern g); g = g\<lparr>Net := net, Kern := k\<rparr> in
      case m of
        None \<Rightarrow> Some (Ok (None, g))
      | Some m \<Rightarrow> map_option (\<lambda>r. rbind r (\<lambda>(_, m, g). Ok (Some m, g)))
          (get_winterface_infos guest_call guest_callbacks 0 (snd (monitor_start m)) g))"

definition start_running ::
  "'a connecter \<Rightarrow> 'a id_getter \<Rightarrow> monitor \<Rightarrow> 'a guest \<Rightarrow> (monitor option \<times> 'a guest) result option" where
  "start_running vConnect vGetID m g =
     map_option (\<lambda>r. rbind r (\<lambda>(ok, g).
       Ok (if ok
           then (Some m, being_started False ((connected_to_server True g)\<lparr>Tasks := start_tasks (Tasks g)\<rparr>))
           else (None, g))))
       (start_connect vConnect vGetID (being_started True g))"

definition start ::
  "nl80211_reply list list \<Rightarrow> 'a connecter \<Rightarrow> 'a id_getter \<Rightarrow> 'a guest \<Rightarrow> (monitor option \<times> 'a guest) result option" where
  "start answers vConnect vGetID g =
     (let g = g\<lparr>being_initialized := True\<rparr> in
      case (if \<not> initialized g then init_first g else Some (Ok (1, g))) of
        None \<Rightarrow> None
      | Some (Inl e) \<Rightarrow> Some (Fault e)
      | Some (Inr (r, g)) \<Rightarrow>
          if r = 0 then Some (Ok (None, g))
          else (case start_monitor answers (g\<lparr>being_initialized := False\<rparr>) of
              None \<Rightarrow> None
            | Some (Inl e) \<Rightarrow> Some (Fault e)
            | Some (Inr (None, g)) \<Rightarrow> Some (Ok (None, g))
            | Some (Inr (Some m, g)) \<Rightarrow> start_running vConnect vGetID m g))"

text \<open>The object when it is made, in the environment of the last four arguments.\<close>

definition CWifiClient_new ::
  "'a CSocketClient_scheme \<Rightarrow> (string \<Rightarrow> byte list option) \<Rightarrow> bool list \<Rightarrow> os \<Rightarrow> kernel \<Rightarrow> 'a guest result" where
  "CWifiClient_new sk pmaddr signals net k =
     rbind CDynBuffer_new (\<lambda>b.
     Ok \<lparr>Client = sk, Nodes = CSelect_new, connected = False, being_initialized = False, started_flag = False,
         wdevices = WirelessDeviceList_new, family_id = 1, initialized_flag = False, In_buffer = b, nl_alive = False,
         Tasks = new_threads 5, alarms = signals, perm_addr = pmaddr, Net = net, Kern = k\<rparr>)"

section \<open>Coming back\<close>

locale reconnecting = dialer vConnect target
  for vConnect :: "'a connecter" and target :: "'a CSocketClient_scheme \<Rightarrow> endpoint" +
  fixes vGetID :: "'a id_getter"
  assumes target_closed: "target (sk\<lparr>Master := m\<rparr>) = target sk"
    and quiet: "vConnect sk s = (b, sk', s') \<Longrightarrow> call_fails s = [] \<Longrightarrow> call_fails s' = []"
    and refused_fds: "vConnect sk s = (False, sk', s') \<Longrightarrow> length (open_fds s') \<le> length (open_fds s)"
    and made_small: "vConnect sk s = (True, sk', s') \<Longrightarrow> Master sk' \<le> int (length (open_fds s))"
    and identified: "call_fails s = [] \<Longrightarrow> \<exists>i s'. vGetID sk s = Ok (i, s')"
begin

lemma closed: "target (Client (CWifiClient_Close g)) = target (Client g)"
  "dials (Net (CWifiClient_Close g)) = dials (Net g)" "call_fails (Net (CWifiClient_Close g)) = call_fails (Net g)"
  "length (open_fds (Net (CWifiClient_Close g))) \<le> length (open_fds (Net g))"
  "Tasks (CWifiClient_Close g) = Tasks g" "connected (CWifiClient_Close g) = connected g"
  by (auto simp: CWifiClient_Close_def CSocket_Close_def os_close_def target_closed split: if_splits)

text \<open>One turn of the loop: the next attempt is refused, and one less is to come, or the guest is connected.\<close>

lemma crash_turn:
  assumes "\<not> is_connected_to_server g" and "\<not> task_interrupted connection_to_server_loop_task (Tasks g)"
    and "call_fails (Net g) = []" and "length (open_fds (Net g)) < 1024" and "coming (target (Client g)) (Net g) \<noteq> []"
  shows "(\<exists>g'. manage_server_crash_loop vConnect vGetID g = Ok g' \<and> is_connected_to_server g' \<and> IsConnected (Client g') \<and>
        Master (Client g') \<in> FdMaster (Nodes g')) \<or>
    (\<exists>g'. manage_server_crash_loop vConnect vGetID g = Ok g' \<and> \<not> is_connected_to_server g' \<and> Tasks g' = Tasks g \<and>
        call_fails (Net g') = [] \<and> length (open_fds (Net g')) < 1024 \<and>
        coming (target (Client g')) (Net g') = coming (target (Client g)) (Net g) \<and>
        length (dials (Net g') (target (Client g'))) < length (dials (Net g) (target (Client g))))"
proof -
  let ?h = "CWifiClient_Close g"
  obtain ok sk s where v: "vConnect (Client ?h) (Net ?h) = (ok, sk, s)" by (cases "vConnect (Client ?h) (Net ?h)")
  have q: "call_fails s = []" using quiet [OF v] closed(3) assms(3) by simp
  have loop: "manage_server_crash_loop vConnect vGetID g = manage_server_crash_body vConnect vGetID g"
    using assms(2) by (simp add: manage_server_crash_loop_def loop_turn_def)
  show ?thesis
  proof (cases ok)
    case True
    then have v': "vConnect (Client ?h) (Net ?h) = (True, sk, s)" using v by simp
    have "0 \<le> Master sk" "Master sk < FD_SETSIZE" "IsConnected sk"
      using attempt_made [OF v'] made_small [OF v'] closed(4) [of g] assms(4) by (auto simp: opened_def FD_SETSIZE_def)
    moreover obtain i s' where "vGetID sk s = Ok (i, s')" using identified [OF q] by blast
    ultimately show ?thesis
      using v' assms(1) closed(6) [of g]
      by (simp add: loop manage_server_crash_body_def reconnect_to_server_def CWifiClient_Connect_def AddNode_def FD_SET_def
          GetDescriptor_def is_connected_to_server_def connected_to_server_def UpdateMaxDescriptor_def)
  next
    case False
    then have v': "vConnect (Client ?h) (Net ?h) = (False, sk, s)" using v by simp
    note r = attempt_refused [OF v']
    have "dials (Net g) (target (Client g)) \<noteq> []" using assms(5) by (auto simp: coming_def)
    then have "length (dials s (target sk)) < length (dials (Net g) (target (Client g)))"
      using r closed(1-3) [of g] q assms(3) by simp
    moreover have "coming (target sk) s = coming (target (Client g)) (Net g)"
      using r closed(1,2) [of g] by (simp add: coming_def)
    ultimately show ?thesis
      using v' assms(1,4) closed [of g] refused_fds [OF v'] q
      by (simp add: loop manage_server_crash_body_def reconnect_to_server_def CWifiClient_Connect_def is_connected_to_server_def)
  qed
qed

lemma comes_back:
  assumes "\<not> is_connected_to_server g" and "\<not> task_interrupted connection_to_server_loop_task (Tasks g)"
    and "call_fails (Net g) = []" and "length (open_fds (Net g)) < 1024" and "coming (target (Client g)) (Net g) \<noteq> []"
  shows "\<exists>n g'. run_events (\<lambda>_ :: unit. manage_server_crash_loop vConnect vGetID) (replicate n ()) g = Ok g' \<and>
    is_connected_to_server g' \<and> IsConnected (Client g') \<and> Master (Client g') \<in> FdMaster (Nodes g')"
  using assms
proof (induction "length (dials (Net g) (target (Client g)))" arbitrary: g rule: less_induct)
  case less
  from crash_turn [OF less.prems] show ?case
  proof (elim disjE exE conjE)
    fix g' assume "manage_server_crash_loop vConnect vGetID g = Ok g'" "is_connected_to_server g'" "IsConnected (Client g')"
      "Master (Client g') \<in> FdMaster (Nodes g')"
    then show ?thesis by (intro exI [of _ 1] exI [of _ g']) simp
  next
    fix g' assume t: "manage_server_crash_loop vConnect vGetID g = Ok g'" and c: "\<not> is_connected_to_server g'" "Tasks g' = Tasks g"
      "call_fails (Net g') = []" "length (open_fds (Net g')) < 1024"
      "coming (target (Client g')) (Net g') = coming (target (Client g)) (Net g)"
      "length (dials (Net g') (target (Client g'))) < length (dials (Net g) (target (Client g)))"
    from less.hyps [OF c(6,1) _ c(3,4)] c(2,5) less.prems(2,5) obtain n g'' where
      "run_events (\<lambda>_ :: unit. manage_server_crash_loop vConnect vGetID) (replicate n ()) g' = Ok g''"
      "is_connected_to_server g''" "IsConnected (Client g'')" "Master (Client g'') \<in> FdMaster (Nodes g'')"
      by auto
    with t show ?thesis by (intro exI [of _ "Suc n"] exI [of _ g'']) simp
  qed
qed

end

lemma Configure_client_laws:
  assumes "Connect Configure_client ep sk s = (b, sk', s')"
  shows "call_fails s = [] \<Longrightarrow> call_fails s' = []" "\<not> b \<Longrightarrow> length (open_fds s') \<le> length (open_fds s)"
    "b \<Longrightarrow> Master sk' \<le> int (length (open_fds s))"
proof -
  have "(call_fails s = [] \<longrightarrow> call_fails s' = []) \<and> (\<not> b \<longrightarrow> length (open_fds s') \<le> length (open_fds s)) \<and>
      (b \<longrightarrow> Master sk' \<le> int (length (open_fds s)))"
    using assms lowest_free_bound [of "open_fds s"] lowest_free_nonneg [of "open_fds s"]
    by (auto simp: Connect_def Configure_client_def os_socket_def os_call_def os_connect_def CSocket_Close_def os_close_def
        SOCKET_ERROR_def Let_def length_filter_le removeAll_filter_not_eq
        split: list.splits option.splits prod.splits if_splits intro: le_SucI)
  then show "call_fails s = [] \<Longrightarrow> call_fails s' = []" "\<not> b \<Longrightarrow> length (open_fds s') \<le> length (open_fds s)"
    "b \<Longrightarrow> Master sk' \<le> int (length (open_fds s))" by blast+
qed

definition GetID_VTCP_r :: "CSocketClientVTCP \<Rightarrow> os \<Rightarrow> (int \<times> os) result" where
  "GetID_VTCP_r sk s = Ok (GetID_VTCP sk s)"

interpretation itcp_back: reconnecting Connect_ITCP Server_in "GetID_ITCP hash" for hash
proof unfold_locales
  fix sk :: CSocketClientITCP and s sk' s'
  note laws = Configure_client_laws [of "Server_in sk" sk s]
  show "Server_in (sk\<lparr>Master := m\<rparr>) = Server_in sk" for m by simp
  show "Connect_ITCP sk s = (b, sk', s') \<Longrightarrow> call_fails s = [] \<Longrightarrow> call_fails s' = []" for b
    using laws(1) by (simp add: Connect_ITCP_def)
  show "Connect_ITCP sk s = (False, sk', s') \<Longrightarrow> length (open_fds s') \<le> length (open_fds s)"
    using laws(2) [of False] by (simp add: Connect_ITCP_def)
  show "Connect_ITCP sk s = (True, sk', s') \<Longrightarrow> Master sk' \<le> int (length (open_fds s))"
    using laws(3) by (simp add: Connect_ITCP_def)
  show "call_fails s = [] \<Longrightarrow> \<exists>i s'. GetID_ITCP hash sk s = Ok (i, s')"
    by (simp add: GetID_ITCP_def os_call_def)
qed

interpretation vtcp_back: reconnecting Connect_VTCP Server_vm GetID_VTCP_r
proof unfold_locales
  fix sk :: CSocketClientVTCP and s sk' s'
  note laws = Configure_client_laws [of "Server_vm sk" sk s]
  show "Server_vm (sk\<lparr>Master := m\<rparr>) = Server_vm sk" for m by simp
  show "Connect_VTCP sk s = (b, sk', s') \<Longrightarrow> call_fails s = [] \<Longrightarrow> call_fails s' = []" for b
    using laws(1) by (simp add: Connect_VTCP_def)
  show "Connect_VTCP sk s = (False, sk', s') \<Longrightarrow> length (open_fds s') \<le> length (open_fds s)"
    using laws(2) [of False] by (simp add: Connect_VTCP_def)
  show "Connect_VTCP sk s = (True, sk', s') \<Longrightarrow> Master sk' \<le> int (length (open_fds s))"
    using laws(3) by (simp add: Connect_VTCP_def)
  show "\<exists>i s'. GetID_VTCP_r sk s = Ok (i, s')"
    by (metis GetID_VTCP_r_def surj_pair)
qed

text \<open>
  C12: a guest that lost its server and is not stopped is connected again after finitely many turns of its loop, with its new
  socket watched, as soon as some attempt is going to be accepted, whatever number of refusals comes before.
\<close>

theorem reconnects:
  assumes "\<not> is_connected_to_server g" and "\<not> task_interrupted connection_to_server_loop_task (Tasks g)"
    and "call_fails (Net g) = []" and "length (open_fds (Net g)) < 1024"
    and "Some c \<in> set (dials (Net g) (Server_in (Client g)))"
  shows "\<exists>n g'. run_events (\<lambda>_ :: unit. manage_server_crash_loop Connect_ITCP (GetID_ITCP hash)) (replicate n ()) g = Ok g' \<and>
    is_connected_to_server g' \<and> IsConnected (Client g') \<and> Master (Client g') \<in> FdMaster (Nodes g')"
proof -
  have "coming (Server_in (Client g)) (Net g) \<noteq> []"
    using assms(5) unfolding coming_def dropWhile_eq_Nil_conv by blast
  from itcp_back.comes_back [OF assms(1-4) this] show ?thesis .
qed


lemma new_threads_tasks: "tasks (new_threads n) = replicate n \<lparr>interrupt_flag = None, thread_started = False, thread_end = Alive\<rparr>"
  by (induction n) (simp_all add: new_threads_def InterruptibleThread_new_def count_thread_def replicate_append_same)

theorem reconnects_witness:
  "\<exists>g n g'. CWifiClient_new CSocketClientITCP_new (\<lambda>_. None) [] (os_start\<lparr>dials := (\<lambda>_. [None, None, Some ([], [])])\<rparr>)
       \<lparr>nl_fails = [], nl_families = [], nl_sent = []\<rparr> = Ok g \<and>
     run_events (\<lambda>_ :: unit. manage_server_crash_loop Connect_ITCP (GetID_ITCP False)) (replicate n ()) g = Ok g' \<and>
     is_connected_to_server g'"
proof -
  obtain b where b: "CDynBuffer_new = Ok b" using CDynBuffer_new_ok by blast
  define g :: "unit CSocketClientITCP_ext guest" where
    "g = \<lparr>Client = CSocketClientITCP_new, Nodes = CSelect_new, connected = False, being_initialized = False, started_flag = False,
         wdevices = WirelessDeviceList_new, family_id = 1, initialized_flag = False, In_buffer = b, nl_alive = False,
         Tasks = new_threads 5, alarms = [], perm_addr = (\<lambda>_. None),
         Net = os_start\<lparr>dials := (\<lambda>_. [None, None, Some ([], [])])\<rparr>, Kern = \<lparr>nl_fails = [], nl_families = [], nl_sent = []\<rparr>\<rparr>"
  have "CWifiClient_new CSocketClientITCP_new (\<lambda>_. None) [] (os_start\<lparr>dials := (\<lambda>_. [None, None, Some ([], [])])\<rparr>)
       \<lparr>nl_fails = [], nl_families = [], nl_sent = []\<rparr> = Ok g"
    by (simp add: CWifiClient_new_def b g_def)
  moreover have "\<not> is_connected_to_server g" "\<not> task_interrupted connection_to_server_loop_task (Tasks g)"
      "call_fails (Net g) = []" "length (open_fds (Net g)) < 1024" "Some ([], []) \<in> set (dials (Net g) (Server_in (Client g)))"
    by (simp_all add: g_def is_connected_to_server_def os_start_def task_interrupted_def new_threads_tasks
        connection_to_server_loop_task_def)
  from reconnects [OF this, of False] obtain n g' where
    "run_events (\<lambda>_ :: unit. manage_server_crash_loop Connect_ITCP (GetID_ITCP False)) (replicate n ()) g = Ok g'"
    "is_connected_to_server g'" by blast
  ultimately show ?thesis by blast
qed

section \<open>What goes wrong\<close>

text \<open>
  The old descriptor stays the first node of the scheduler after a reconnection. When the new one is different, what arrives
  on it is never read.
\<close>

lemma new_descriptor_not_read:
  assumes "is_connected_to_server g" and "ListNodes (Nodes g) \<noteq> []" and "hd (ListNodes (Nodes g)) \<notin> ready ev"
    and "0 \<le> activity ev"
  shows "recv_from_server genlmsg_parse ev g = Ok (g\<lparr>Nodes := snd (Wait ev (Nodes g))\<rparr>)"
  using assms by (simp add: recv_from_server_def Wait_def NodeHasAction_def SCHEDULER_ERROR_def Let_def hd_conv_nth)

text \<open>
  Opening the driver again does not wait for it: after the start \<^verbatim>\<open>_being_initialized\<close> is false, and the guest registers
  with the family that was not found.
\<close>

lemma init_does_not_wait:
  assumes "nl_healthy (Kern g)" and "nl_families (Kern g) = -1 # fs" and "\<not> being_initialized g"
  shows "init g = Some (Ok (1, g\<lparr>nl_alive := True, family_id := -1, initialized_flag := True,
    Kern := (Kern g)\<lparr>nl_families := fs, nl_sent := nl_sent (Kern g) @
      [\<lparr>msg_family = -1, msg_cmd = HWSIM_CMD_REGISTER, msg_attrs = []\<rparr>]\<rparr>\<rparr>))"
  using assms
  by (simp add: init_def init_netlink_def netlink_open_def guest_call_def resolve_family_def genl_ctrl_resolve_def wait_family.simps
      netlink_timeout_def register_def send_register_msg_def with_message_def send_message_def new_message_def)

text \<open>A socket that was freed because its timeout could not be set is used to register.\<close>

lemma freed_socket_used:
  assumes "nl_fails (Kern g) = [False, False, False, True]" and "nl_families (Kern g) = 28 # fs"
  shows "init g = Some (Fault Undefined_behaviour)"
  using assms
  by (simp add: init_def init_netlink_def netlink_open_def guest_call_def nl_call_def resolve_family_def genl_ctrl_resolve_def
      wait_family.simps netlink_timeout_def register_def send_register_msg_def with_message_def send_message_def)

text \<open>The socket that asks for the permanent address stays open when there is no answer.\<close>

lemma pmaddr_leaks:
  assumes "call_fails (Net g) = []" and "perm_addr g name = None"
  shows "open_fds (Net (snd (get_pmaddr name g))) = lowest_free (open_fds (Net g)) # open_fds (Net g)"
  using assms lowest_free_nonneg [of "open_fds (Net g)"]
  by (simp add: get_pmaddr_def os_call_def os_socket_def Let_def)


end
