(* ===== verification/Vwifi_GuestInv.thy ===== *)
theory Vwifi_GuestInv
  imports Vwifi_Lifecycle
begin

text \<open>
  What every state of a running guest satisfies, in any interleaving of its threads, of the signals that stop it and
  of the network and the kernel: its interfaces have addresses of six octets, stand under their own indexes and in
  order; its buffer is one; and its threads are in a state that \<open>Vwifi_Threads\<close> speaks of, so that what is shown
  there of the wait in \<^verbatim>\<open>stop\<close> holds of the guest.
\<close>

section \<open>What the steps leave alone\<close>

definition core :: "'a guest \<Rightarrow> WirelessDeviceList \<times> CDynBuffer \<times> threads \<times> bool \<times> bool" where
  "core g = (wdevices g, In_buffer g, Tasks g, being_initialized g, started_flag g)"

lemma core_updates [simp]:
  "core (g\<lparr>Kern := k\<rparr>) = core g" "core (g\<lparr>Net := n\<rparr>) = core g" "core (g\<lparr>connected := b\<rparr>) = core g"
  "core (g\<lparr>Client := sk\<rparr>) = core g" "core (g\<lparr>Nodes := nd\<rparr>) = core g" "core (g\<lparr>family_id := f\<rparr>) = core g"
  "core (g\<lparr>nl_alive := b\<rparr>) = core g" "core (g\<lparr>initialized_flag := b\<rparr>) = core g" "core (g\<lparr>alarms := al\<rparr>) = core g"
  "core (g\<lparr>perm_addr := pa\<rparr>) = core g"
  "core (connected_to_server b g) = core g" "core (manage_server_crash g) = core g"
  by (simp_all add: core_def connected_to_server_def manage_server_crash_def)

lemma send_message_core: "send_message msg g = Inr (r, g') \<Longrightarrow> core g' = core g"
  by (auto simp: send_message_def rbind_Inr_iff Let_def split: prod.splits)

lemma put_attrs_core:
  assumes "put_attrs as msg g continue = Inr (r, g')"
    and "\<And>msg h r g'. continue msg h = Inr (r, g') \<Longrightarrow> core g' = core h"
  shows "core g' = core g"
  using assms by (auto simp: put_attrs_def Let_def split: prod.splits if_splits)

lemma with_message_core:
  assumes "with_message cmd g continue = Inr (r, g')"
    and "\<And>msg h r g'. continue msg h = Inr (r, g') \<Longrightarrow> core g' = core h"
  shows "core g' = core g"
  using assms by (auto simp: with_message_def Let_def split: prod.splits if_splits)

lemma send_tx_info_core: "send_tx_info_frame_nl src flags sig rates cookie g = Inr (r, g') \<Longrightarrow> core g' = core g"
  unfolding send_tx_info_frame_nl_def
  by (erule with_message_core)
    (auto split: if_splits simp: rbind_Inr_iff elim!: put_attrs_core intro: send_message_core)

lemma send_cloned_core: "send_cloned_frame_msg dst data rate sig freq g = Inr (r, g') \<Longrightarrow> core g' = core g"
  unfolding send_cloned_frame_msg_def
  by (erule with_message_core)
    (auto split: if_splits simp: rbind_Inr_iff elim!: put_attrs_core, (erule send_message_core)+)

lemma send_register_core: "send_register_msg g = Inr (r, g') \<Longrightarrow> core g' = core g"
  unfolding send_register_msg_def by (erule with_message_core) (rule send_message_core)

lemma send_clones_core: "send_clones to data rate sig freq inets g = Inr g' \<Longrightarrow> core g' = core g"
proof (induction inets arbitrary: g)
  case (Cons i inets)
  from Cons.prems obtain h where h: "send_clones to data rate sig freq inets h = Inr g'"
    and step: "(if to i then rbind (send_cloned_frame_msg (getMachwsim i) data rate sig freq g) (\<lambda>(_, g). Ok g) else Ok g) = Inr h"
    by (auto simp: rbind_Inr_iff)
  have "core h = core g" using step by (auto simp: rbind_Inr_iff split: if_splits dest: send_cloned_core)
  then show ?case using Cons.IH [OF h] by simp
qed simp

lemma send_to_server_core: "send_to_server pw n m g = Inr g' \<Longrightarrow> core g' = core g"
  by (cases "SendSignalWithSocket (GetDescriptor (Client g)) pw (take (nat n) m) (Net g)")
    (auto simp: send_to_server_def rbind_Inr_iff Let_def bytes_at_def split: if_splits)

lemma acknowledge_core: "acknowledge tb m src g = Inr g' \<Longrightarrow> core g' = core g"
  by (auto simp: acknowledge_def rbind_Inr_iff Let_def dest: send_tx_info_core)

lemma process_frame_core: "process_frame tb n m g = Inr (r, g') \<Longrightarrow> core g' = core g"
  by (auto simp: process_frame_def rbind_Inr_iff Let_def dest!: acknowledge_core send_to_server_core send_clones_core)

lemma process_messages_core: "process_messages parse m g = Inr (r, g') \<Longrightarrow> core g' = core g"
  by (auto simp: process_messages_def rbind_Inr_iff Let_def split: if_splits dest: process_frame_core)

lemma inject_core: "inject parse sig cs g = Inr g' \<Longrightarrow> core g' = core g"
  by (auto simp: inject_def rbind_Inr_iff split: if_splits dest: send_clones_core)

lemma CWifiClient_Connect_core: "CWifiClient_Connect vC vI g = Inr (i, g') \<Longrightarrow> core g' = core g"
  by (auto simp: CWifiClient_Connect_def rbind_Inr_iff Let_def split: prod.splits if_splits)

lemma CWifiClient_Close_core [simp]: "core (CWifiClient_Close g) = core g"
  by (simp add: CWifiClient_Close_def split: prod.splits)

lemma manage_server_crash_core: "manage_server_crash_body vC vI g = Inr g' \<Longrightarrow> core g' = core g"
  by (auto simp: manage_server_crash_body_def reconnect_to_server_def rbind_Inr_iff split: if_splits
      dest!: CWifiClient_Connect_core)

lemma guest_call_core: "guest_call g = (b, g') \<Longrightarrow> core g' = core g"
  by (auto simp: guest_call_def split: prod.splits)

lemma resolve_family_core [simp]: "core (resolve_family g) = core g"
  by (simp add: resolve_family_def split: prod.splits)

lemma guest_call_core_snd [simp]: "core (snd (guest_call g)) = core g"
  by (rule guest_call_core [of g "fst (guest_call g)"]) simp

lemma netlink_open_core: "core (snd (netlink_open g)) = core g"
  by (simp add: netlink_open_def Let_def case_prod_beta)

lemma netlink_timeout_core: "core (snd (netlink_timeout g)) = core g"
  by (simp add: netlink_timeout_def case_prod_beta)

lemma register_core: "register (r, g) = Inr (r', g') \<Longrightarrow> core g' = core g"
proof -
  assume a: "register (r, g) = Inr (r', g')"
  show "core g' = core g"
  proof (cases "r = 0")
    case True
    then show ?thesis using a by (simp add: register_def)
  next
    case False
    obtain e where e: "send_register_msg g = e" by blast
    with a False obtain r1 h where h: "e = Inr (r1, h)" by (cases e) (auto simp: register_def)
    then have "g' = (if r1 = 0 then h\<lparr>nl_alive := False\<rparr> else h\<lparr>initialized_flag := True\<rparr>)"
      using a e False by (simp add: register_def split: if_splits)
    then show ?thesis using send_register_core [of g r1 h] e h by simp
  qed
qed

lemma get_pmaddr_core: "get_pmaddr n g = (r, g') \<Longrightarrow> core g' = core g"
  by (auto simp: get_pmaddr_def Let_def split: prod.splits if_splits option.splits)

lemma get_pmaddr_length: "get_pmaddr n g = (Some mac, g') \<Longrightarrow> length mac = ETH_ALEN"
  by (auto simp: get_pmaddr_def Let_def split: prod.splits if_splits option.splits)

section \<open>The interfaces\<close>

definition devices_typed :: "WirelessDeviceList \<Rightarrow> bool" where
  "devices_typed wds \<longleftrightarrow> devices_ok wds \<and>
     (\<forall>wd \<in> set (list_devices wds). length (getMacaddr wd) = ETH_ALEN \<and> length (getMachwsim wd) = ETH_ALEN)"

lemma devices_typed_add:
  assumes "devices_typed wds" and "length (dev_macaddr wd) = ETH_ALEN" and "length (dev_machwsim wd) = ETH_ALEN"
  shows "devices_typed (add_device wd wds)"
  using assms wdevs.add_ok [of wds wd] wdevs.devices_add [of wds wd]
  by (auto simp: devices_typed_def getMacaddr_def getMachwsim_def)

lemma devices_typed_delete: "devices_typed wds \<Longrightarrow> devices_typed (delete_device wd wds)"
  using wdevs.del_ok [of wds] wdevs.devices_del [of wds]
  by (auto simp: devices_typed_def delete_device_eq)

text \<open>An invariant on the rest of what the notifications leave alone goes with it.\<close>

definition sound :: "(CDynBuffer \<Rightarrow> threads \<Rightarrow> bool \<Rightarrow> bool \<Rightarrow> bool) \<Rightarrow> 'a guest \<Rightarrow> bool" where
  "sound Q g \<longleftrightarrow> devices_typed (wdevices g) \<and> Q (In_buffer g) (Tasks g) (being_initialized g) (started_flag g)"

lemma sound_core: "core g' = core g \<Longrightarrow> sound Q g' = sound Q g"
  by (simp add: core_def sound_def)

lemma add_notified:
  assumes "sound Q g" and "length (dev_macaddr wd) = ETH_ALEN" and "get_pmaddr n g = (Some mac, h)"
  shows "sound Q (h\<lparr>wdevices := add_device (setMachwsim mac wd) (wdevices h)\<rparr>)"
  using assms get_pmaddr_core [OF assms(3)] get_pmaddr_length [OF assms(3)]
  by (auto simp: sound_def core_def setMachwsim_def intro!: devices_typed_add)

lemma notified_sound:
  assumes "sound Q g" and "length (dev_macaddr wd) = ETH_ALEN"
  shows "sound Q (handle_new_winet_notification wd g)" "sound Q (handle_init_winet_notification wd g)"
    "sound Q (handle_del_winet_notification wd g)"
proof -
  obtain r h where p: "get_pmaddr (getName wd) g = (r, h)" by (cases "get_pmaddr (getName wd) g")
  then have "r = None \<Longrightarrow> sound Q h" using sound_core [OF get_pmaddr_core] assms(1) by blast
  then show "sound Q (handle_new_winet_notification wd g)" "sound Q (handle_init_winet_notification wd g)"
    using p add_notified [OF assms, of "getName wd" _ h]
    by (auto simp: handle_new_winet_notification_def handle_init_winet_notification_def split: option.splits)
  show "sound Q (handle_del_winet_notification wd g)"
    using assms(1) by (simp add: handle_del_winet_notification_def sound_def devices_typed_delete)
qed

interpretation guest_monitor: monitor_client "sound Q" guest_callbacks guest_call for Q
proof
  show "sound Q g \<Longrightarrow> sound Q (snd (guest_call g))" for g
    using sound_core [OF guest_call_core, of g "fst (guest_call g)" "snd (guest_call g)"] by simp
  show "cb = newinet_cb guest_callbacks \<or> cb = delinet_cb guest_callbacks \<or> cb = initinet_cb guest_callbacks \<Longrightarrow>
      sound Q g \<Longrightarrow> length (dev_macaddr wd) = ETH_ALEN \<Longrightarrow> call_back cb wd g = Inr g' \<Longrightarrow> sound Q g'" for cb g wd g'
    using notified_sound [of Q g wd]
    by (auto simp: guest_callbacks_def setNewInetCallback_def setDelInetCallback_def setInitInetCallback_def call_back_def)
qed

section \<open>Signals\<close>

text \<open>What a signal does to the rest of the state, at any time.\<close>

definition calm :: "(CDynBuffer \<Rightarrow> threads \<Rightarrow> bool \<Rightarrow> bool \<Rightarrow> bool) \<Rightarrow> bool" where
  "calm Q \<longleftrightarrow> (\<forall>b p bi st. (\<forall>i < 5. Q b p bi st \<longrightarrow> Q b (interrupt i p) bi st) \<and>
     (Q b p True st \<longrightarrow> Q b p False st) \<and> (Q b p False True \<longrightarrow> Q b p False False))"

definition starting :: "bool \<Rightarrow> CDynBuffer \<Rightarrow> threads \<Rightarrow> bool \<Rightarrow> bool \<Rightarrow> bool" where
  "starting bi0 b p bi st \<longleftrightarrow> buf_ok b \<and> pool 5 p \<and> (\<forall>t \<in> set (tasks p). interrupt_flag t = None) \<and> (bi \<longrightarrow> bi0)"

definition running :: "CDynBuffer \<Rightarrow> threads \<Rightarrow> bool \<Rightarrow> bool \<Rightarrow> bool" where
  "running b p bi st \<longleftrightarrow> buf_ok b \<and> pool 5 p \<and> \<not> bi \<and> \<not> st"

lemmas task_numbers = hwsimloop_task_def serverloop_task_def monitorloop_task_def winterface_update_loop_task_def
  connection_to_server_loop_task_def

lemma pool_length: "pool n p \<Longrightarrow> length (tasks p) = n"
  using pool_counted by (auto simp: counted_def)

lemma calm_starting: "calm (starting bi0)"
proof -
  have "pool 5 (interrupt i p)" "\<forall>t \<in> set (tasks (interrupt i p)). interrupt_flag t = None"
    if "pool 5 p" "\<forall>t \<in> set (tasks p). interrupt_flag t = None" "i < 5" for i p
  proof -
    show "pool 5 (interrupt i p)" using that by (intro pool.interrupted)
    have "tasks p ! i \<in> set (tasks p)" using that pool_length by simp
    then show "\<forall>t \<in> set (tasks (interrupt i p)). interrupt_flag t = None"
      using that(2) set_update_subset_insert by (fastforce simp: interrupt_def)
  qed
  then show ?thesis unfolding calm_def starting_def by blast
qed

lemma calm_running: "calm running"
  by (auto simp: calm_def running_def intro: pool.interrupted)

lemma stop_sound:
  assumes "calm Q" and "sound Q g"
  shows "sound Q (snd (stop g))"
proof -
  have q: "devices_typed (wdevices g)" "Q (In_buffer g) (Tasks g) (being_initialized g) (started_flag g)"
    using assms(2) by (simp_all add: sound_def)
  have i: "Q b (interrupt i p) bi st" if "i < 5" "Q b p bi st" for i b p bi st
    using that assms(1) by (auto simp: calm_def)
  have c: "wdevices (CWifiClient_Close g) = wdevices g" "In_buffer (CWifiClient_Close g) = In_buffer g"
    "Tasks (CWifiClient_Close g) = Tasks g" "being_initialized (CWifiClient_Close g) = being_initialized g"
    "started_flag (CWifiClient_Close g) = started_flag g"
    using CWifiClient_Close_core [of g] by (simp_all add: core_def)
  consider "being_initialized g" | "\<not> being_initialized g" "started_flag g" | "\<not> being_initialized g" "\<not> started_flag g"
    by blast
  then show ?thesis
  proof cases
    case 1
    then show ?thesis using q assms(1) by (auto simp: stop_def sound_def calm_def)
  next
    case 2
    then show ?thesis using q assms(1)
      by (auto simp: stop_def sound_def calm_def being_started_def is_being_started_def)
  next
    case 3
    then show ?thesis using q
      by (auto simp: stop_def sound_def is_being_started_def Let_def c task_numbers intro!: i)
  qed
qed

lemma pause_sound: "calm Q \<Longrightarrow> sound Q g \<Longrightarrow> sound Q (pause g)"
  using stop_sound [of Q "g\<lparr>alarms := tl (alarms g)\<rparr>"] sound_core [of "g\<lparr>alarms := tl (alarms g)\<rparr>" g Q]
  by (auto simp: pause_def split: list.splits)

lemma interrupt_ends: "map thread_end (tasks (interrupt i p)) = map thread_end (tasks p)"
  by (cases "i < length (tasks p)") (simp_all add: interrupt_def map_update list_update_same_conv list_update_beyond)

lemma stop_ends: "map thread_end (tasks (Tasks (snd (stop g)))) = map thread_end (tasks (Tasks g))"
  using CWifiClient_Close_core [of g] by (simp add: stop_def being_started_def Let_def interrupt_ends core_def)

lemma pause_ends: "map thread_end (tasks (Tasks (pause g))) = map thread_end (tasks (Tasks g))"
  by (auto simp: pause_def stop_ends split: list.splits)

section \<open>The turns of the threads\<close>

definition alive :: "nat \<Rightarrow> 'a guest \<Rightarrow> bool" where
  "alive i g \<longleftrightarrow> thread_end (tasks (Tasks g) ! i) = Alive"

lemma dead_break_sound:
  "sound running g \<Longrightarrow> i < 5 \<Longrightarrow> alive i g \<Longrightarrow> task_interrupted i (Tasks g) \<Longrightarrow>
   sound running (g\<lparr>Tasks := dead_break i (Tasks g)\<rparr>)"
  by (simp add: sound_def running_def alive_def pool.ended)

lemma left_sound:
  "sound running g \<Longrightarrow> i < 5 \<Longrightarrow> alive i g \<Longrightarrow> sound running (g\<lparr>Tasks := end_task Left i (Tasks g)\<rparr>)"
  by (simp add: sound_def running_def alive_def pool.left)

lemma loop_turn_sound:
  assumes "loop_turn i body g = Inr g'" and "sound running g" and "alive i g" and "i < 5"
    and "body g = Inr g' \<Longrightarrow> sound running g'"
  shows "sound running g'"
  using assms dead_break_sound by (auto simp: loop_turn_def split: if_splits)

lemma process_run_core: "run_events (process_messages_cb parse) msgs g = Inr g' \<Longrightarrow> core g' = core g"
proof (induction msgs arbitrary: g)
  case (Cons m msgs)
  then obtain h where "process_messages_cb parse m g = Inr h" and run: "run_events (process_messages_cb parse) msgs h = Inr g'"
    by (auto simp: rbind_Inr_iff)
  then obtain r where "process_messages parse m g = Inr (r, h)"
    by (auto simp: process_messages_cb_def rbind_Inr_iff)
  with run Cons.IH [of h] process_messages_core [of parse m g r h] show ?case by simp
qed simp

lemma hwsim_loop_sound:
  assumes "recv_msg_from_hwsim_loop parse msgs g = Inr g'" and "sound running g" and "alive hwsimloop_task g"
  shows "sound running g'"
proof (rule loop_turn_sound [OF assms(1) [unfolded recv_msg_from_hwsim_loop_def] assms(2,3)])
  assume "(if \<not> initialized g then Ok (pause g)
     else rbind (defined (nl_alive g)) (\<lambda>_. run_events (process_messages_cb parse) msgs g)) = Inr g'"
  then show "sound running g'"
    using pause_sound [OF calm_running assms(2)] sound_core [of g' g running] process_run_core [of parse msgs g g'] assms(2)
    by (auto simp: rbind_Inr_iff split: if_splits)
qed (simp add: task_numbers)

lemma recv_from_server_sound:
  assumes "recv_from_server parse ev g = Inr g'" and "sound running g"
  shows "sound running g'"
proof (cases "is_connected_to_server g \<and> fst (Wait ev (Nodes g)) \<noteq> SCHEDULER_ERROR \<and> NodeHasAction 0 (snd (Wait ev (Nodes g))) = Inr True")
  case True
  obtain nodes r0 where w: "Wait ev (Nodes g) = (r0, nodes)" by (metis surj_pair)
  have "buf_ok (In_buffer g)" using assms(2) by (simp add: sound_def running_def)
  from RecvSignal_spec [OF this] obtain r pw b net where
    rs: "RecvSignalWithSocket (GetDescriptor (Client g)) (In_buffer g) (Net g) = Ok (r, pw, b, net)" "buf_ok b" by blast
  define h where "h = (if r = SOCKET_ERROR then manage_server_crash (g\<lparr>Nodes := nodes, In_buffer := b, Net := net\<rparr>)
      else g\<lparr>Nodes := nodes, In_buffer := b, Net := net\<rparr>)"
  have "\<exists>sig cs. inject parse sig cs h = Inr g'"
  proof (cases pw)
    case None
    then show ?thesis using assms(1) True w rs(1) by (simp add: recv_from_server_def Let_def split: if_splits)
  next
    case (Some p)
    then have "rbind (GetBuffer (In_buffer h)) (\<lambda>cs. inject parse (sint p) cs h) = Inr g'"
      using assms(1) True w rs(1)
      by (simp add: recv_from_server_def Let_def h_def manage_server_crash_def connected_to_server_def split: if_splits)
    then show ?thesis unfolding rbind_Inr_iff by blast
  qed
  then have "core g' = core h" using inject_core by blast
  moreover have "sound running h"
    using assms(2) rs(2)
    by (auto simp: h_def sound_def running_def manage_server_crash_def connected_to_server_def)
  ultimately show ?thesis using sound_core by blast
next
  case False
  obtain nodes r0 where w: "Wait ev (Nodes g) = (r0, nodes)" by (metis surj_pair)
  have "g' = g \<or> g' = g\<lparr>Nodes := nodes\<rparr>"
    using assms(1) False w by (auto simp: recv_from_server_def Let_def rbind_Inr_iff split: if_splits)
  then have "core g' = core g" by auto
  then show ?thesis using sound_core assms(2) by blast
qed

lemma server_loop_sound:
  assumes "recv_msg_from_server_loop parse ev g = Inr g'" and "sound running g" and "alive serverloop_task g"
  shows "sound running g'"
proof (rule loop_turn_sound [OF assms(1) [unfolded recv_msg_from_server_loop_def] assms(2,3)])
  assume "(if \<not> initialized g then Ok (pause g) else recv_from_server parse ev g) = Inr g'"
  then show "sound running g'"
    using pause_sound [OF calm_running assms(2)] recv_from_server_sound assms(2) by (auto split: if_splits)
qed (simp add: task_numbers)

lemma crash_loop_sound:
  assumes "manage_server_crash_loop vC vI g = Inr g'" and "sound running g" and "alive connection_to_server_loop_task g"
  shows "sound running g'"
proof (rule loop_turn_sound [OF assms(1) [unfolded manage_server_crash_loop_def] assms(2,3)])
  assume "manage_server_crash_body vC vI g = Inr g'"
  then show "sound running g'" using sound_core [OF manage_server_crash_core] assms(2) by blast
qed (simp add: task_numbers)

lemma winet_loop_sound:
  assumes "winet_update_loop m g = Some (Inr (m', g'))" and "sound running g" and "alive winterface_update_loop_task g"
  shows "sound running g'"
proof (cases "task_interrupted winterface_update_loop_task (Tasks g) \<or> \<not> initialized g")
  case True
  then show ?thesis
    using assms pause_sound [OF calm_running assms(2)] dead_break_sound [of g winterface_update_loop_task]
    by (auto simp: winet_update_loop_def task_numbers split: if_splits)
next
  case False
  then obtain r h where "get_winterface_infos guest_call guest_callbacks 0 m g = Some (Inr (r, m', h))" "g' = pause h"
    using assms(1) by (auto simp: winet_update_loop_def rbind_Inr_iff)
  then show ?thesis
    using pause_sound [OF calm_running] guest_monitor.get_winterface_infos_keeps assms(2) by blast
qed

lemma wait_family_running: "\<not> being_initialized g \<Longrightarrow> wait_family g = Some g"
  by (simp add: wait_family.simps)

lemma init_core:
  assumes "init g = Some (Inr (r, g'))" and "\<not> being_initialized g"
  shows "core g' = core g"
proof -
  obtain ok h where o: "netlink_open g = (ok, h)" by (cases "netlink_open g")
  then have h: "core h = core g" using netlink_open_core [of g] by simp
  then have "wait_family h = Some h" using assms(2) by (intro wait_family_running) (simp add: core_def)
  moreover obtain r2 h2 where "netlink_timeout h = (r2, h2)" by (cases "netlink_timeout h")
  ultimately obtain r1 h1 where n: "init_netlink g = Some (r1, h1)" "core h1 = core g"
    using o h netlink_timeout_core [of h] by (cases ok) (auto simp: init_netlink_def)
  then have "register (r1, h1) = Inr (r, g')" using assms(1) by (simp add: init_def)
  from register_core [OF this] n show ?thesis by simp
qed

lemma monitor_loop_sound:
  assumes "monitor_hwsim_loop g = Some (Inr g')" and "sound running g" and "alive monitorloop_task g"
  shows "sound running g'"
proof (cases "task_interrupted monitorloop_task (Tasks g)")
  case True
  then show ?thesis
    using assms dead_break_sound [of g monitorloop_task] by (simp add: monitor_hwsim_loop_def task_numbers)
next
  case False
  obtain f k where k: "genl_ctrl_resolve KERNEL_HWSIM_FAMILY_NAME (Kern (pause g)) = (f, k)"
    by (cases "genl_ctrl_resolve KERNEL_HWSIM_FAMILY_NAME (Kern (pause g))")
  define h where "h = pause g\<lparr>Kern := k\<rparr>"
  have p: "sound running (pause g)" by (rule pause_sound [OF calm_running assms(2)])
  then have h: "sound running h" using sound_core [of h "pause g"] by (simp add: h_def)
  have "length (tasks (Tasks g)) = 5" "length (tasks (Tasks h)) = 5"
    using assms(2) h pool_length by (auto simp: sound_def running_def)
  moreover have "map thread_end (tasks (Tasks h)) ! monitorloop_task = map thread_end (tasks (Tasks g)) ! monitorloop_task"
    using pause_ends [of g] by (simp add: h_def)
  ultimately have a: "alive monitorloop_task h"
    using assms(3) by (simp add: alive_def task_numbers)
  show ?thesis
  proof (cases "f < 0")
    case True
    then obtain r h1 where i: "init (h\<lparr>initialized_flag := False\<rparr>) = Some (Inr (r, h1))"
      and g': "g' = (if r = 0 then h1\<lparr>Tasks := end_task Left monitorloop_task (Tasks h1)\<rparr> else h1)"
      using assms(1) False k by (auto simp: monitor_hwsim_loop_def Let_def rbind_Inr_iff h_def)
    have "\<not> being_initialized (h\<lparr>initialized_flag := False\<rparr>)" using h by (simp add: sound_def running_def)
    from init_core [OF i this] have c: "core h1 = core h" by simp
    then have "sound running h1" "alive monitorloop_task h1"
      using h a sound_core by (auto simp: core_def alive_def)
    then show ?thesis using g' left_sound [of h1 monitorloop_task] by (auto simp: task_numbers)
  next
    case nneg: False
    then show ?thesis using assms(1) False k h by (simp add: monitor_hwsim_loop_def Let_def h_def)
  qed
qed


section \<open>Until the threads run\<close>

lemma being_initialized_False:
  "sound (starting b) g \<Longrightarrow> sound (starting c) (g\<lparr>being_initialized := False\<rparr>)"
  by (simp add: sound_def starting_def)

lemma resolve_family_sound: "sound Q (resolve_family g) = sound Q g"
  by (rule sound_core) simp

lemma wait_family_first_sound:
  assumes "wait_family_first g = Some (r, g')" and "sound (starting True) g"
  shows "sound (starting True) g'"
proof -
  define P where "P = (\<lambda>(g :: 'a guest) (r :: bool \<times> 'a guest). sound (starting True) g \<longrightarrow> sound (starting True) (snd r))"
  have "P g (r, g')"
  proof (rule wait_family_first.raw_induct [OF _ assms(1)])
    fix loop g y
    assume ih: "\<And>g r. loop g = Some r \<Longrightarrow> P g r"
      and r: "(if family_id g < 0 then if \<not> being_initialized g then Some (False, g) else loop (resolve_family (pause g))
        else Some (True, g)) = Some y"
    show "P g y"
      using r ih [of "resolve_family (pause g)" y] pause_sound [OF calm_starting, of True g]
      by (auto simp: P_def resolve_family_sound split: if_splits)
  qed
  then show ?thesis using assms(2) by (simp add: P_def)
qed

lemma init_first_sound:
  assumes "init_first g = Some (Inr (r, g'))" and "sound (starting True) g"
  shows "sound (starting True) g'"
proof -
  obtain ok h where o: "netlink_open g = (ok, h)" by (cases "netlink_open g")
  then have h: "sound (starting True) h" using netlink_open_core [of g] assms(2) sound_core by fastforce
  obtain r1 h1 where n: "init_netlink_first g = Some (r1, h1)" "register (r1, h1) = Inr (r, g')"
    using assms(1) by (auto simp: init_first_def)
  have "sound (starting True) h1"
  proof (cases ok)
    case True
    then obtain ok2 h2 where w: "wait_family_first h = Some (ok2, h2)" and
      e: "(r1, h1) = (if ok2 then netlink_timeout h2 else (0, h2))"
      using n(1) o by (auto simp: init_netlink_first_def split: if_splits)
    have "core h1 = core h2" using e netlink_timeout_core [of h2] by (cases ok2) (auto dest: sym)
    with wait_family_first_sound [OF w h] sound_core show ?thesis by blast
  next
    case False
    then show ?thesis using n(1) o h by (auto simp: init_netlink_first_def)
  qed
  with register_core [OF n(2)] sound_core show ?thesis by blast
qed

lemma start_connect_sound:
  assumes "start_connect vC vI g = Some (Inr (r, g'))" and "sound (starting False) g"
  shows "sound (starting False) g'"
proof -
  define P where "P = (\<lambda>(vC :: 'a connecter) (vI :: 'a id_getter) (g :: 'a guest) (r :: (bool \<times> 'a guest) result).
    sound (starting False) g \<longrightarrow> (\<forall>ok g'. r = Inr (ok, g') \<longrightarrow> sound (starting False) g'))"
  have "P vC vI g (Inr (r, g'))"
  proof (rule start_connect.raw_induct [OF _ assms(1)])
    fix loop vC vI g y
    assume ih: "\<And>vC vI g r. loop vC vI g = Some r \<Longrightarrow> P vC vI g r"
      and r: "(case CWifiClient_Connect vC vI g of Inl e \<Rightarrow> Some (Inl e) | Inr (ident, g) \<Rightarrow>
          if ident \<noteq> None then Some (Inr (True, g))
          else if \<not> is_being_started g then Some (Inr (False, g)) else loop vC vI (pause g)) = Some y"
    show "P vC vI g y"
    proof (cases "CWifiClient_Connect vC vI g")
      case (Inl e)
      then show ?thesis using r by (auto simp: P_def)
    next
      case (Inr p)
      then obtain ident h where h: "CWifiClient_Connect vC vI g = Inr (ident, h)" by (cases p) auto
      have keep: "sound (starting False) h" "sound (starting False) (pause h)" if "sound (starting False) g"
        using sound_core [OF CWifiClient_Connect_core [OF h]] pause_sound [OF calm_starting] that by blast+
      consider "y = Inr (True, h)" | "y = Inr (False, h)" | "loop vC vI (pause h) = Some y"
        using r unfolding h by (cases ident; cases "is_being_started h") auto
      then show ?thesis
      proof cases
        case 3
        then show ?thesis using ih [OF 3] keep(2) unfolding P_def by blast
      qed (use keep(1) in \<open>auto simp: P_def\<close>)
    qed
  qed
  then show ?thesis using assms(2) by (simp add: P_def)
qed

text \<open>No thread had its flag before, so each start makes one.\<close>

lemma started_flags:
  "i < n \<Longrightarrow> length (tasks p) = n \<Longrightarrow> interrupt_flag (tasks (thread_start j p) ! i) =
     (if i = j then Some InterruptFlag_new else interrupt_flag (tasks p ! i))"
  by (auto simp: thread_start_def nth_list_update)

lemma start_tasks_pool:
  assumes "pool 5 p" and "\<forall>t \<in> set (tasks p). interrupt_flag t = None"
  shows "pool 5 (start_tasks p)"
proof -
  have l: "length (tasks (thread_start j q)) = length (tasks q)" for j q by (simp add: thread_start_def)
  have n: "interrupt_flag (tasks p ! i) = None" if "i < 5" for i
    using that assms pool_length [OF assms(1)] by simp
  show ?thesis
    unfolding start_tasks_def task_numbers
    by (intro pool.started assms(1)) (simp_all add: started_flags [where n = 5] l pool_length [OF assms(1)] n)
qed

lemma start_running_sound:
  assumes "start_running vC vI m g = Some (Inr (Some m', g'))" and "sound (starting False) g"
  shows "sound running g'"
proof -
  have "sound (starting False) (being_started True g)"
    using assms(2) by (simp add: sound_def starting_def being_started_def)
  moreover obtain h where "start_connect vC vI (being_started True g) = Some (Inr (True, h))"
    "g' = being_started False ((connected_to_server True h)\<lparr>Tasks := start_tasks (Tasks h)\<rparr>)"
    using assms(1) by (auto simp: start_running_def rbind_Inr_iff split: if_splits)
  ultimately show ?thesis
    using start_connect_sound [of vC vI "being_started True g" True h]
    by (auto simp: sound_def running_def starting_def being_started_def connected_to_server_def intro: start_tasks_pool)
qed

lemma start_monitor_sound:
  assumes "start_monitor answers g = Some (Inr (Some m, g'))" and "sound (starting False) g"
  shows "sound (starting False) g'"
proof -
  obtain mm net k where mk: "MonitorWirelessDevice_new answers (Net g) (Kern g) = (mm, net, k)"
    by (cases "MonitorWirelessDevice_new answers (Net g) (Kern g)")
  have s: "sound (starting False) (g\<lparr>Net := net, Kern := k\<rparr>)"
    using sound_core [of "g\<lparr>Net := net, Kern := k\<rparr>" g] assms(2) by simp
  obtain m0 where "mm = Some m0" using mk assms(1) by (cases mm) (auto simp: start_monitor_def)
  then obtain r m1 where "get_winterface_infos guest_call guest_callbacks 0 (snd (monitor_start m0)) (g\<lparr>Net := net, Kern := k\<rparr>) =
      Some (Inr (r, m1, g'))"
    using mk assms(1) by (auto simp: start_monitor_def rbind_Inr_iff)
  from guest_monitor.get_winterface_infos_keeps [OF s this] show ?thesis .
qed

lemma start_sound:
  assumes "start answers vC vI g = Some (Inr (Some m, g'))" and "sound (starting True) g"
  shows "sound running g'"
proof -
  let ?i = "g\<lparr>being_initialized := True\<rparr>"
  have i: "sound (starting True) ?i" using assms(2) by (simp add: sound_def starting_def)
  obtain r h where h: "(if \<not> initialized ?i then init_first ?i else Some (Inr (1, ?i))) = Some (Inr (r, h))" "r \<noteq> 0"
    using assms(1) by (auto simp: start_def Let_def split: option.splits sum.splits if_splits prod.splits)
  then have "sound (starting True) h" using init_first_sound [of ?i r h] i by (auto split: if_splits)
  then have s: "sound (starting False) (h\<lparr>being_initialized := False\<rparr>)" by (rule being_initialized_False)
  have start: "start answers vC vI g = (case start_monitor answers (h\<lparr>being_initialized := False\<rparr>) of
              None \<Rightarrow> None
            | Some (Inl e) \<Rightarrow> Some (Inl e)
            | Some (Inr (None, g)) \<Rightarrow> Some (Inr (None, g))
            | Some (Inr (Some m, g)) \<Rightarrow> start_running vC vI m g)"
    using h by (simp add: start_def Let_def)
  obtain m1 h1 where "start_monitor answers (h\<lparr>being_initialized := False\<rparr>) = Some (Inr (Some m1, h1))"
    "start_running vC vI m1 h1 = Some (Inr (Some m, g'))"
    using assms(1) unfolding start by (auto split: option.splits sum.splits)
  then show ?thesis using start_running_sound start_monitor_sound [OF _ s] by blast
qed

lemma new_guest_sound: "CWifiClient_new sk pm al net k = Inr g \<Longrightarrow> sound (starting True) g"
proof -
  assume a: "CWifiClient_new sk pm al net k = Inr g"
  obtain b where b: "CDynBuffer_new = Inr b" "buf_ok b" using CDynBuffer_new_ok by blast
  have "pool 5 (new_threads 5)" by (rule pool.created)
  moreover have "devices_typed WirelessDeviceList_new"
    by (simp add: devices_typed_def) (simp add: WirelessDeviceList_new_def list_devices_def)
  ultimately show ?thesis
    using a unfolding CWifiClient_new_def b(1) by (auto simp: sound_def starting_def new_threads_tasks b(2))
qed

section \<open>Every run\<close>

text \<open>
  A run of a guest that has started: its threads take turns in any order, a link event is handled, a signal stops it, and
  meanwhile the network, the kernel, what the kernel answers and the signals to come change in any way.
\<close>

inductive guest_run ::
  "(byte list \<Rightarrow> attr_table option) \<Rightarrow> 'a connecter \<Rightarrow> 'a id_getter \<Rightarrow> nat \<Rightarrow> monitor \<Rightarrow> 'a guest \<Rightarrow> bool"
  for parse vC vI mx where
  begun: "CWifiClient_new sk pm al net k = Inr g \<Longrightarrow> start answers vC vI g = Some (Inr (Some m, g')) \<Longrightarrow>
    guest_run parse vC vI mx m g'"
| hwsim: "guest_run parse vC vI mx m g \<Longrightarrow> alive hwsimloop_task g \<Longrightarrow>
    recv_msg_from_hwsim_loop parse msgs g = Inr g' \<Longrightarrow> guest_run parse vC vI mx m g'"
| server: "guest_run parse vC vI mx m g \<Longrightarrow> alive serverloop_task g \<Longrightarrow>
    recv_msg_from_server_loop parse ev g = Inr g' \<Longrightarrow> guest_run parse vC vI mx m g'"
| driver: "guest_run parse vC vI mx m g \<Longrightarrow> alive monitorloop_task g \<Longrightarrow>
    monitor_hwsim_loop g = Some (Inr g') \<Longrightarrow> guest_run parse vC vI mx m g'"
| winet: "guest_run parse vC vI mx m g \<Longrightarrow> alive winterface_update_loop_task g \<Longrightarrow>
    winet_update_loop m g = Some (Inr (m', g')) \<Longrightarrow> guest_run parse vC vI mx m' g'"
| crash: "guest_run parse vC vI mx m g \<Longrightarrow> alive connection_to_server_loop_task g \<Longrightarrow>
    manage_server_crash_loop vC vI g = Inr g' \<Longrightarrow> guest_run parse vC vI mx m g'"
| link: "guest_run parse vC vI mx m g \<Longrightarrow>
    recv_inet_event guest_call guest_callbacks mx e m g = Some (Inr (m', g')) \<Longrightarrow> guest_run parse vC vI mx m' g'"
| signal: "guest_run parse vC vI mx m g \<Longrightarrow> guest_run parse vC vI mx m (snd (stop g))"
| world: "guest_run parse vC vI mx m g \<Longrightarrow>
    guest_run parse vC vI mx m (g\<lparr>Net := net, Kern := k, perm_addr := pm, alarms := al\<rparr>)"

lemma guest_run_sound: "guest_run parse vC vI mx m g \<Longrightarrow> sound running g"
proof (induction rule: guest_run.induct)
  case (begun sk pm al net k g answers m g')
  then show ?case using start_sound new_guest_sound by blast
next
  case (hwsim m g msgs g')
  then show ?case using hwsim_loop_sound by blast
next
  case (server m g ev g')
  then show ?case using server_loop_sound by blast
next
  case (driver m g g')
  then show ?case using monitor_loop_sound by blast
next
  case (winet m g m' g')
  then show ?case using winet_loop_sound by blast
next
  case (crash m g g')
  then show ?case using crash_loop_sound by blast
next
  case (link m g e m' g')
  then show ?case using guest_monitor.recv_inet_event_keeps by blast
next
  case (signal m g)
  then show ?case by (simp add: stop_sound [OF calm_running])
next
  case (world m g al pm k net)
  then show ?case using sound_core [of "g\<lparr>Net := net, Kern := k, perm_addr := pm, alarms := al\<rparr>" g] by simp
qed

text \<open>
  C9: in every state that a guest reaches once it has started, in whatever order its threads, the link events, the
  signals and the failures of its environment come, each of its interfaces stands once, under its own index, with
  addresses of six octets, its buffer is one it can receive into, and its counter of threads is the number of those
  that have not ended at an interruption point.
\<close>

theorem guest_well_formed:
  assumes "guest_run parse vC vI mx m g"
  shows "(\<forall>wd \<in> set (list_devices (wdevices g)). length (getMacaddr wd) = ETH_ALEN \<and> length (getMachwsim wd) = ETH_ALEN) \<and>
    devices_ok (wdevices g) \<and> buf_ok (In_buffer g) \<and> length (tasks (Tasks g)) = 5 \<and>
    number_thread (Tasks g) = int (length (filter not_interrupted (tasks (Tasks g))))"
proof -
  have s: "devices_typed (wdevices g)" "running (In_buffer g) (Tasks g) (being_initialized g) (started_flag g)"
    using guest_run_sound [OF assms] by (simp_all add: sound_def)
  then have "pool 5 (Tasks g)" by (simp add: running_def)
  from pool_counted [OF this] s show ?thesis by (simp add: counted_def devices_typed_def running_def)
qed


text \<open>A guest with one interface that starts at once.\<close>

definition first_guest :: "unit CSocketClientITCP_ext guest" where
  "first_guest =
     \<lparr>Client = CSocketClientITCP_new, Nodes = CSelect_new, connected = False, being_initialized = False, started_flag = False,
      wdevices = WirelessDeviceList_new, family_id = 1, initialized_flag = False,
      In_buffer = (case CDynBuffer_new of Inr b \<Rightarrow> b), nl_alive = False, Tasks = new_threads 5, alarms = [],
      perm_addr = (\<lambda>_. Some ether_zero), Net = os_start\<lparr>dials := (\<lambda>_. [Some ([], [])])\<rparr>,
      Kern = \<lparr>nl_fails = [], nl_families = [28, 20], nl_sent = []\<rparr>\<rparr>"

definition first_answers :: "nl80211_reply list list" where
  "first_answers = [[Valid \<lparr>nl_ifname = Some ''wlan0'', nl_ifindex = Some 7, nl_mac = Some ether_zero, nl_iftype = Some 2,
     nl_tx_power = Some 2000\<rparr>, Finish]]"

lemma first_guest_new:
  "CWifiClient_new CSocketClientITCP_new (\<lambda>_. Some ether_zero) [] (os_start\<lparr>dials := (\<lambda>_. [Some ([], [])])\<rparr>)
     \<lparr>nl_fails = [], nl_families = [28, 20], nl_sent = []\<rparr> = Inr first_guest"
proof -
  obtain b where b: "CDynBuffer_new = Inr b" using CDynBuffer_new_ok by blast
  show ?thesis by (simp add: CWifiClient_new_def first_guest_def b)
qed

lemma first_guest_initialized:
  "init_first (first_guest\<lparr>being_initialized := True\<rparr>) = Some (Inr (1, first_guest\<lparr>being_initialized := True, nl_alive := True,
     family_id := 28, initialized_flag := True, Kern := \<lparr>nl_fails = [], nl_families = [20],
     nl_sent = [\<lparr>msg_family = 28, msg_cmd = HWSIM_CMD_REGISTER, msg_attrs = []\<rparr>]\<rparr>\<rparr>))"
  by (simp add: init_first_def init_netlink_first_def netlink_open_def guest_call_def nl_call_def resolve_family_def
      genl_ctrl_resolve_def wait_family_first.simps netlink_timeout_def register_def send_register_msg_def with_message_def
      send_message_def new_message_def nl_send_auto_def first_guest_def)

definition listed_guest :: "kernel \<Rightarrow> unit CSocketClientITCP_ext guest" where
  "listed_guest k = first_guest\<lparr>nl_alive := True, family_id := 28, initialized_flag := True, Kern := k,
     wdevices := [(7, WirelessDevice_hwsim ''wlan0'' 7 2 ether_zero ether_zero 2000)],
     Net := os_start\<lparr>dials := (\<lambda>_. [Some ([], [])]), open_fds := [3, 0, 1, 2]\<rparr>\<rparr>"

lemma first_interface:
  "\<exists>m. start_monitor first_answers (first_guest\<lparr>nl_alive := True, family_id := 28, initialized_flag := True,
     Kern := \<lparr>nl_fails = [], nl_families = [20], nl_sent = ms\<rparr>\<rparr>) =
   Some (Inr (Some m, listed_guest \<lparr>nl_fails = [], nl_families = [], nl_sent = ms\<rparr>))"
  by (simp add: start_monitor_def MonitorWirelessDevice_new_def os_socket_def os_call_def nl80211_init_def nl_call_def
     genl_ctrl_resolve_def first_guest_def os_start_def lowest_free_def monitor_start_def monitor_started_def outside_loop_def
     get_winterface_infos_def guest_call_def dump_loop.simps nl_recvmsgs_def first_answers_def
     recv_winterface_infos_def handle_iee80211_com_finish_def guest_callbacks_def setInitInetCallback_def setDelInetCallback_def
     setNewInetCallback_def call_back_def no_callbacks_def handle_init_winet_notification_def get_pmaddr_def bytes_at_def
     ether_zero_def ETH_ALEN_def os_close_def WirelessDevice_of_def setMachwsim_def getName_def add_device_def getIndex_def
     WirelessDeviceList_new_def WirelessDevice_hwsim_def listed_guest_def Let_def)

lemma first_connection:
  "\<exists>m' g. start_running Connect_ITCP (GetID_ITCP False) m (listed_guest k) = Some (Inr (Some m', g)) \<and>
     wdevices g = wdevices (listed_guest k)"
  by (simp add: start_running_def start_connect.simps CWifiClient_Connect_def Connect_ITCP_def Connect_def
     Configure_client_def os_socket_def os_call_def os_connect_def listed_guest_def first_guest_def os_start_def lowest_free_def
     CSocketClientITCP_new_def CSocketClient_new_def being_started_def connected_to_server_def GetID_ITCP_def AddNode_def
     FD_SET_def CSelect_new_def GetDescriptor_def FD_SETSIZE_def UpdateMaxDescriptor_def SOCKET_ERROR_def Let_def)

lemma first_run:
  "\<exists>m g. guest_run parse Connect_ITCP (GetID_ITCP False) mx m g \<and>
     list_devices (wdevices g) = [WirelessDevice_hwsim ''wlan0'' 7 2 ether_zero ether_zero 2000]"
proof -
  let ?ms = "[\<lparr>msg_family = 28, msg_cmd = HWSIM_CMD_REGISTER, msg_attrs = []\<rparr>]"
  let ?k = "\<lparr>nl_fails = [], nl_families = [], nl_sent = ?ms\<rparr>"
  obtain m where m: "start_monitor first_answers (first_guest\<lparr>nl_alive := True, family_id := 28, initialized_flag := True,
      Kern := \<lparr>nl_fails = [], nl_families = [20], nl_sent = ?ms\<rparr>\<rparr>) = Some (Inr (Some m, listed_guest ?k))"
    using first_interface by blast
  obtain m' g where g: "start_running Connect_ITCP (GetID_ITCP False) m (listed_guest ?k) = Some (Inr (Some m', g))"
    "wdevices g = wdevices (listed_guest ?k)" using first_connection by blast
  have off: "\<not> initialized (first_guest\<lparr>being_initialized := True\<rparr>)" by (simp add: initialized_def first_guest_def)
  have again: "first_guest\<lparr>being_initialized := True, nl_alive := True, family_id := 28, initialized_flag := True, Kern := k\<rparr>
      \<lparr>being_initialized := False\<rparr> =
    first_guest\<lparr>nl_alive := True, family_id := 28, initialized_flag := True, Kern := k\<rparr>" for k
    by (simp add: first_guest_def)
  have "start first_answers Connect_ITCP (GetID_ITCP False) first_guest = Some (Inr (Some m', g))"
    unfolding start_def Let_def if_P [OF off] first_guest_initialized by (simp only: option.case sum.case prod.case again m g) simp
  from guest_run.begun [OF first_guest_new this] g(2) show ?thesis
    by (intro exI [of _ m'] exI [of _ g]) (simp add: listed_guest_def list_devices_def)
qed

theorem guest_well_formed_witness:
  "\<exists>m g. guest_run (\<lambda>_. None) Connect_ITCP (GetID_ITCP False) 0 m g \<and> list_devices (wdevices g) \<noteq> [] \<and>
     (\<forall>wd \<in> set (list_devices (wdevices g)). length (getMachwsim wd) = 6) \<and> buf_ok (In_buffer g) \<and>
     number_thread (Tasks g) = int (length (filter not_interrupted (tasks (Tasks g))))"
proof -
  obtain m g where r: "guest_run (\<lambda>_. None) Connect_ITCP (GetID_ITCP False) 0 m g"
    "list_devices (wdevices g) = [WirelessDevice_hwsim ''wlan0'' 7 2 ether_zero ether_zero 2000]"
    using first_run by blast
  with guest_well_formed [OF r(1)] show ?thesis by (intro exI [of _ m] exI [of _ g]) (simp add: ETH_ALEN_def)
qed


end
