(* ===== verification/Vwifi_ClientMain.thy ===== *)
theory Vwifi_ClientMain
  imports Vwifi_Main Vwifi_GuestInv
begin

text \<open>
  The program \<^verbatim>\<open>vwifi-client\<close> (\<^verbatim>\<open>src/src/vwifi-client.cc\<close>): its command line, the radios it makes, the kind of
  socket it chooses, and its signals. Whether it is built for VHOST and whether it runs as root are arguments. It ends
  with the exit code of an error, or makes a guest and runs it. What it prints is left out.
\<close>

section \<open>The command line\<close>

definition DEFAULT_NUMBER_WLAN_INTERFACE :: int where "DEFAULT_NUMBER_WLAN_INTERFACE = 0"

record client_options =
  ip_addr :: string
  port_number :: TPort
  number_interface :: int
  mac_prefix :: ether_addr
  spy_mode :: bool
  hash_port :: bool

definition client_defaults :: "ether_addr \<Rightarrow> client_options" where
  "client_defaults mac = \<lparr>ip_addr = [], port_number = 0, number_interface = DEFAULT_NUMBER_WLAN_INTERFACE,
     mac_prefix = mac, spy_mode = False, hash_port = False\<rparr>"

text \<open>\<^const>\<open>Inl\<close> is the exit code of a run that ends at this argument.\<close>

function client_args :: "string list \<Rightarrow> client_options \<Rightarrow> (int + client_options) result" where
  "client_args [] p = Ok (Inr p)"
| "client_args (arg # rest) p =
     (if is_option ''-v'' ''--version'' arg then Ok (Inl 0)
      else if is_option ''-h'' ''--help'' arg then Ok (Inl 0)
      else if port_option ''-p'' ''--port'' arg rest then
        rbind (port_of (hd rest)) (\<lambda>n. client_args (tl rest) (p\<lparr>port_number := n\<rparr>))
      else if is_option ''-u'' ''--use-port-in-hash'' arg then client_args rest (p\<lparr>hash_port := True\<rparr>)
      else if is_option ''-s'' ''--spy'' arg then client_args rest (p\<lparr>spy_mode := True\<rparr>)
      else if port_option ''-n'' ''--number'' arg rest then
        rbind (stoi (hd rest)) (\<lambda>n.
        if n > 100 then Ok (Inl 4) else client_args (tl rest) (p\<lparr>number_interface := n\<rparr>))
      else if is_option ''-m'' ''--mac'' arg \<and> rest \<noteq> [] then
        (if length (hd rest) > 17 then Ok (Inl 5)
         else rbind (ParseAddress (hd rest) (mac_prefix p)) (\<lambda>(r, mac).
           if r = 0 then Ok (Inl 6) else client_args (tl rest) (p\<lparr>mac_prefix := mac\<rparr>)))
      else if ip_addr p = [] then client_args rest (p\<lparr>ip_addr := arg\<rparr>)
      else Ok (Inl 1))"
  by pat_completeness auto
termination
  by (relation "measure (\<lambda>(l, p). length l)") auto

declare client_args.simps(2) [simp del]

section \<open>The kind of client\<close>

datatype client_kind = Kind_ITCP CSocketClientITCP | Kind_VTCP CSocketClientVTCP

definition choose_kind :: "bool \<Rightarrow> client_options \<Rightarrow> int + client_kind" where
  "choose_kind ENABLE_VHOST p =
     (if spy_mode p then
        let ip = (if ip_addr p = [] then DEFAULT_ADDRESS_IP else ip_addr p);
            port = (if port_number p = 0 then DEFAULT_WIFI_SPY_PORT else port_number p)
        in Inr (Kind_ITCP (Init_ITCP ip port CSocketClientITCP_new))
      else if ip_addr p = [] then
        (if ENABLE_VHOST
         then let port = (if port_number p = 0 then DEFAULT_WIFI_CLIENT_PORT_VHOST else port_number p)
           in Inr (Kind_VTCP (Init_VTCP port CSocketClientVTCP_new))
         else Inl 8)
      else let port = (if port_number p = 0 then DEFAULT_WIFI_CLIENT_PORT_INET else port_number p)
        in Inr (Kind_ITCP (Init_ITCP (ip_addr p) port CSocketClientITCP_new)))"

text \<open>\<^verbatim>\<open>main\<close> up to \<^verbatim>\<open>start\<close>: an exit code, or the socket of the guest and whether its identifier uses the port.\<close>

definition client_main ::
  "bool \<Rightarrow> string list \<Rightarrow> bool \<Rightarrow> nat \<Rightarrow> kernel \<Rightarrow> ((int + client_kind \<times> bool) \<times> kernel) result" where
  "client_main ENABLE_VHOST args as_root r k =
     rbind (default_prefix r) (\<lambda>(_, mac).
     rbind (client_args args (client_defaults mac)) (\<lambda>c.
     case c of
       Inl n \<Rightarrow> Ok (Inl n, k)
     | Inr p \<Rightarrow>
         if \<not> as_root then Ok (Inl 2, k)
         else let (ret, _, k) = (if number_interface p \<noteq> 0 then ManageRadios (number_interface p) (mac_prefix p) k
                                 else (0, mac_prefix p, k))
           in if ret \<noteq> 0 then Ok (Inl 7, k)
              else Ok (case choose_kind ENABLE_VHOST p of Inl n \<Rightarrow> Inl n | Inr kind \<Rightarrow> Inr (kind, hash_port p), k)))"

text \<open>
  The guest that is made runs as \<open>Vwifi_Lifecycle\<close> says; afterwards the exit code is 0. \<^const>\<open>Inr\<close>: what \<^verbatim>\<open>start\<close>
  gives, in the environment of the first arguments.
\<close>

definition launch ::
  "nl80211_reply list list \<Rightarrow> (string \<Rightarrow> byte list option) \<Rightarrow> bool list \<Rightarrow> os \<Rightarrow>
   'a connecter \<Rightarrow> 'a id_getter \<Rightarrow> 'a CSocketClient_scheme \<Rightarrow> kernel \<Rightarrow> (monitor option \<times> 'a guest) result option" where
  "launch answers pmaddr signals net vConnect vGetID sk k =
     (case CWifiClient_new sk pmaddr signals net k of
        Inl e \<Rightarrow> Some (Fault e)
      | Inr g \<Rightarrow> start answers vConnect vGetID g)"

section \<open>Signals\<close>

datatype STATE = STARTED | STOPPED | SUSPENDED

definition SIGINT :: int where "SIGINT = 2"
definition SIGQUIT :: int where "SIGQUIT = 3"
definition SIGTERM :: int where "SIGTERM = 15"
definition SIGTSTP :: int where "SIGTSTP = 20"

text \<open>
  The handler is set before the object is made, so \<^verbatim>\<open>wifiClient\<close> may be the null pointer. The result says whether
  the handler waits for the threads.
\<close>

definition signal_handler :: "int \<Rightarrow> STATE \<Rightarrow> 'a guest option \<Rightarrow> (bool \<times> STATE \<times> 'a guest option) result" where
  "signal_handler signal_num st wifiClient =
     (if signal_num = SIGINT \<or> signal_num = SIGTERM \<or> signal_num = SIGQUIT then
        (case wifiClient of
           None \<Rightarrow> Fault Undefined_behaviour
         | Some g \<Rightarrow> (let (waits, g) = stop g in Ok (waits, STOPPED, Some g)))
      else Ok (False, st, wifiClient))"

section \<open>What the command line means\<close>

text \<open>The arguments that give every option its value.\<close>

definition args_of :: "client_options \<Rightarrow> string list" where
  "args_of p =
     (if spy_mode p then [''--spy''] else []) @ (if hash_port p then [''-u''] else []) @
     [''-p'', show_int (uint (port_number p)), ''-n'', show_int (number_interface p),
      ''--mac'', mac_address_to_string (mac_prefix p)] @ (if ip_addr p = [] then [] else [ip_addr p])"

definition options_ok :: "client_options \<Rightarrow> bool" where
  "options_ok p \<longleftrightarrow> 0 \<le> number_interface p \<and> number_interface p \<le> 100 \<and> length (mac_prefix p) = ETH_ALEN \<and>
     (ip_addr p = [] \<or> hd (ip_addr p) \<noteq> CHR ''-'')"

lemma show_int_positive: "0 \<le> i \<Longrightarrow> isPositiveInt (show_int i)"
  using isInt_show_int [of i] show_nat_digits [of "nat i"]
  by (cases "show_nat (nat i)") (auto simp: isPositiveInt_def show_int_def is_digit_def)

lemma stoi_show_int: "in_s32 i \<Longrightarrow> stoi (show_int i) = Ok i"
proof -
  assume i: "in_s32 i"
  obtain c cs where "show_nat (nat \<bar>i\<bar>) = c # cs" "is_digit c" by (rule show_nat_first)
  with i show "stoi (show_int i) = Ok i" by (simp add: stoi_def signed_val_show_int skip_sign_show_int)
qed

lemma mac_string_length: "mac \<noteq> [] \<Longrightarrow> length (mac_address_to_string mac) = 3 * length mac - 1"
proof (induction mac)
  case (Cons b mac)
  then show ?case by (cases mac) (simp_all add: hex2_def)
qed simp

lemma client_args_port:
  "client_args (''-p'' # show_int (uint n) # rest) p = client_args rest (p\<lparr>port_number := n\<rparr>)"
proof -
  have "in_s32 (uint n)" using uint_lt2p [of n] order_trans [OF _ uint_ge_0 [of n], of "- (2 ^ 31)"] by (simp add: in_s32_def)
  from stoi_show_int [OF this] show ?thesis
    by (simp add: client_args.simps(2) is_option_def port_option_def show_int_positive port_of_def)
qed

lemma client_args_number:
  "0 \<le> n \<Longrightarrow> n \<le> 100 \<Longrightarrow> client_args (''-n'' # show_int n # rest) p = client_args rest (p\<lparr>number_interface := n\<rparr>)"
  by (simp add: client_args.simps(2) is_option_def port_option_def show_int_positive stoi_show_int in_s32_def)

lemma client_args_mac:
  assumes "length mac = ETH_ALEN" and "length (mac_prefix p) = ETH_ALEN"
  shows "client_args (''--mac'' # mac_address_to_string mac # rest) p = client_args rest (p\<lparr>mac_prefix := mac\<rparr>)"
proof -
  have "mac \<noteq> []" using assms(1) by (auto simp: ETH_ALEN_def)
  then show ?thesis
    using mac_string_length [of mac] assms
    by (simp add: client_args.simps(2) is_option_def port_option_def ParseAddress_mac ETH_ALEN_def)
qed

lemma client_args_flags:
  "client_args (''--spy'' # rest) p = client_args rest (p\<lparr>spy_mode := True\<rparr>)"
  "client_args (''-u'' # rest) p = client_args rest (p\<lparr>hash_port := True\<rparr>)"
  by (simp_all add: client_args.simps(2) is_option_def port_option_def)

lemma client_args_ip:
  assumes "ip \<noteq> []" and "hd ip \<noteq> CHR ''-''" and "ip_addr p = []"
  shows "client_args [ip] p = Ok (Inr (p\<lparr>ip_addr := ip\<rparr>))"
proof -
  obtain c cs where Cons: "ip = c # cs" using assms(1) by (cases ip) auto
  then have "\<not> is_option (CHR ''-'' # s) (CHR ''-'' # l) ip" for s l
    using assms(2) by (auto simp: is_option_def)
  with Cons show ?thesis using assms(3) by (simp add: client_args.simps(2) port_option_def)
qed

text \<open>
  C26: \<^verbatim>\<open>vwifi-client\<close> understands every setting that can be asked for: whatever the address of the server, the port,
  the number of interfaces up to 100, the six octets of the prefix, the mode and the hash, the command line that
  names them, with the numbers in decimal and the prefix in the form the programs print, is read back as exactly
  these options.
\<close>

theorem command_line_roundtrip:
  assumes "options_ok p" and "length mac = ETH_ALEN"
  shows "client_args (args_of p) (client_defaults mac) = Ok (Inr p)"
proof -
  obtain ip port n pre s h where p: "p = \<lparr>ip_addr = ip, port_number = port, number_interface = n, mac_prefix = pre,
      spy_mode = s, hash_port = h\<rparr>" by (cases p)
  have "0 \<le> n" "n \<le> 100" "length pre = ETH_ALEN" "ip = [] \<or> hd ip \<noteq> CHR ''-''"
    using assms(1) by (simp_all add: options_ok_def p)
  then show ?thesis
    using assms(2)
    by (cases "ip = []"; cases s; cases h) (simp_all add: args_of_def p client_args_flags client_args_port client_args_number
        client_args_mac client_args_ip client_defaults_def)
qed

theorem command_line_roundtrip_witness:
  "client_args [''--spy'', ''-p'', ''8300'', ''-n'', ''2'', ''--mac'', ''74:F8:F6:00:00:0A'', ''10.0.0.1'']
     (client_defaults ether_zero) =
   Ok (Inr \<lparr>ip_addr = ''10.0.0.1'', port_number = 8300, number_interface = 2,
     mac_prefix = map char_of [116, 248, 246, 0, 0, 10 :: nat], spy_mode = True, hash_port = False\<rparr>)"
proof -
  let ?p = "\<lparr>ip_addr = ''10.0.0.1'', port_number = 8300, number_interface = 2,
     mac_prefix = map char_of [116, 248, 246, 0, 0, 10 :: nat], spy_mode = True, hash_port = False\<rparr>"
  have "options_ok ?p" by (simp add: options_ok_def ETH_ALEN_def)
  moreover have "show_int 8300 = ''8300''" "show_int 2 = ''2''"
    by (simp_all add: show_int_def show_nat.simps) code_simp+
  moreover have "mac_address_to_string (map char_of [116, 248, 246, 0, 0, 10 :: nat]) = ''74:F8:F6:00:00:0A''"
    by code_simp
  ultimately show ?thesis
    using command_line_roundtrip [of ?p ether_zero] by (simp add: ether_zero_def args_of_def del: list.map)
qed

section \<open>What goes wrong\<close>

text \<open>
  An option that is not known, or has no usable value, is taken for the address of the server. A signal that comes before the
  object is made dereferences the null pointer. The empty prefix is no error.
\<close>

lemma option_as_address:
  "client_args [''-p''] p = (if ip_addr p = [] then Ok (Inr (p\<lparr>ip_addr := ''-p''\<rparr>)) else Ok (Inl 1))"
  "client_args [''-x''] p = (if ip_addr p = [] then Ok (Inr (p\<lparr>ip_addr := ''-x''\<rparr>)) else Ok (Inl 1))"
  by (simp_all add: client_args.simps(2) is_option_def port_option_def)

lemma early_signal: "signal_handler SIGINT st None = Fault Undefined_behaviour"
  by (simp add: signal_handler_def)

lemma empty_prefix: "client_args [''-m'', []] p = Ok (Inr p)"
  by (simp add: client_args.simps(2) is_option_def port_option_def empty_prefix_accepted)

end
