(* ===== verification/Vwifi_Medium.thy ===== *)
theory Vwifi_Medium
  imports Vwifi_WifiServer
begin

text \<open>
  The properties of one medium, over the lemmas of \<open>Vwifi_WifiServer\<close>: who receives a frame and
  at which level, that a broken client harms no other, that joining refines its specification,
  that a client that leaves and returns is where it was, and that closing all clients leaves none.
\<close>

section \<open>A medium with three clients\<close>

definition sample_client :: "TCID \<Rightarrow> TValue \<Rightarrow> CInfoWifi" where
  "sample_client cid x = (CInfoWifi_raw (CCoordinate_of x 0 0))\<lparr>Cid := cid\<rparr>"

definition sample_medium :: CWifiServer where
  "sample_medium = (CWifiServer_new None)\<lparr>Master := 3, MaxClientDeconnected := 2,
     InfoSockets := [\<lparr>Descriptor = 4, Enable = True\<rparr>, \<lparr>Descriptor = 5, Enable = True\<rparr>, \<lparr>Descriptor = 6, Enable = True\<rparr>],
     InfoWifis := [sample_client 10 0, sample_client 11 0, sample_client 12 9]\<rparr>"

lemma sample_client_fields [simp]:
  "Cid (sample_client cid x) = cid" "X (sample_client cid x) = x" "Y (sample_client cid x) = 0"
  "Z (sample_client cid x) = 0" "Name (sample_client cid x) = []"
  by (simp_all add: sample_client_def CInfoWifi_raw_def CCoordinate.defs)

lemma sample_medium_fields [simp]:
  "InfoSockets sample_medium = [\<lparr>Descriptor = 4, Enable = True\<rparr>, \<lparr>Descriptor = 5, Enable = True\<rparr>, \<lparr>Descriptor = 6, Enable = True\<rparr>]"
  "InfoWifis sample_medium = [sample_client 10 0, sample_client 11 0, sample_client 12 9]"
  "InfoWifisDeconnected sample_medium = []" "MaxClientDeconnected sample_medium = 2" "Master sample_medium = 3"
  by (simp_all add: sample_medium_def CWifiServer_new_def CSocketServer_new_def DefaultValues_def Init_def
      CSocketServer.defs CSocket.defs CSocket_new_def)

lemma sample_medium_ok: "wifi_ok sample_medium"
  by (simp add: wifi_ok_def info_ok_def TCID_GUEST_MIN_def)

lemma healthy_start [simp]: "healthy os_start d"
  by (simp add: healthy_def os_start_def)

lemma good_scale_default: "good_scale (double_of_bits (Scale globals_new))"
proof -
  have "double_of_bits 0x3FF0000000000000 = Fin 1"
    by (simp add: double_of_bits_def Let_def bit_iff_odd)
  then show ?thesis
    by (simp add: globals_new_def good_scale_def)
qed

section \<open>Distribution\<close>

lemma frame_reaches:
  assumes ok: "wifi_ok sv" and i: "index < length (InfoWifis sv)"
    and j: "j < length (InfoWifis sv)" "j \<noteq> index" "Enable (InfoSockets sv ! j)" and h: "healthy s (fd sv j)"
    and f: "GetFrequency parse data = Ok f" "f \<noteq> 0" and sc: "good_scale (double_of_bits (Scale g))"
    and near: "\<forall>k < length (InfoWifis sv). dist2 (InfoWifis sv ! index) (InfoWifis sv ! k) < 2 ^ 31"
  shows "\<exists>l sv' s'. SendAllOtherClients parse g index pw data sv s = Ok (sv', s') \<and>
    signal_level (double_of_bits (Scale g)) (coo_of (InfoWifis sv ! index)) (InfoWifis sv ! j) f pw = Ok l \<and>
    (\<not> CanLostPackets g \<or> -39 \<le> sint l \<longrightarrow>
       Enable (InfoSockets sv' ! j) \<and> heard (fd sv j) s' = heard (fd sv j) s @ [put_word l, data]) \<and>
    (CanLostPackets g \<and> sint l \<le> -92 \<longrightarrow>
       Enable (InfoSockets sv' ! j) \<and> heard (fd sv j) s' = heard (fd sv j) s)"
proof -
  have len: "length (InfoSockets sv) = length (InfoWifis sv)" using ok by (simp add: wifi_ok_def)
  obtain sv' s' where run: "SendAllOtherClients parse g index pw data sv s = Inr (sv', s')"
    using SendAllOtherClients_total [OF len i f sc] near by force
  have j': "j < length (InfoSockets sv)" using j(1) len by simp
  obtain f' l sv1 s1 where fl: "GetFrequency parse data = Ok f'"
    "signal_level (double_of_bits (Scale g)) (coo_of (InfoWifis sv ! index)) (InfoWifis sv ! j) f' pw = Ok l"
    and s1: "tx s1 (fd sv j) = tx s (fd sv j)" "heard (fd sv j) s1 = heard (fd sv j) s"
    "InfoSockets sv1 ! j = InfoSockets sv ! j" "j < length (InfoSockets sv1)"
    and out: "if fst (packet_lost g l s1) then InfoSockets sv' ! j = InfoSockets sv ! j \<and> heard (fd sv j) s' = heard (fd sv j) s
      else \<exists>sv2 s2. send_or_disable j l data (sv1, snd (packet_lost g l s1)) = Inr (sv2, s2) \<and>
        InfoSockets sv' ! j = InfoSockets sv2 ! j \<and> heard (fd sv j) s' = heard (fd sv j) s2"
    by (rule SendAllOtherClients_at [OF ok run j' j(2,3)])
  have ff: "f' = f" using fl(1) f(1) by simp
  have t: "tx (snd (packet_lost g l s1)) (fd sv1 j) = []"
    "heard (fd sv j) (snd (packet_lost g l s1)) = heard (fd sv j) s"
    using h s1 by (simp_all add: healthy_def packet_lost_def os_rand_def heard_def split: prod.splits)
  have sent: "Enable (InfoSockets sv' ! j) \<and> heard (fd sv j) s' = heard (fd sv j) s @ [put_word l, data]"
    if "\<not> fst (packet_lost g l s1)"
    using out that send_healthy [OF s1(4) t(1)] t(2) s1(3) j(3) by fastforce
  have kept: "Enable (InfoSockets sv' ! j) \<and> heard (fd sv j) s' = heard (fd sv j) s"
    if "fst (packet_lost g l s1)"
    using out that j(3) by simp
  have "\<not> CanLostPackets g \<or> -39 \<le> sint l \<Longrightarrow> \<not> fst (packet_lost g l s1)"
    "CanLostPackets g \<and> sint l \<le> -92 \<Longrightarrow> fst (packet_lost g l s1)"
    by (auto simp: packet_lost_def os_rand_def PacketIsLost_iff)
  then show ?thesis
    using run fl(2) sent kept unfolding ff by blast
qed



text \<open>
  C4: whatever the network does, distributing a frame sends nothing back to its sender and nothing
  to a client that is disabled, changes no position and no name, closes no connection, and disables
  no client but one it sent to.
\<close>

theorem no_echo:
  assumes "wifi_ok sv" and "index < length (InfoSockets sv)"
    and "SendAllOtherClients parse g index pw data sv s = Ok (sv', s') \<or>
      SendAllOtherClientsWithoutLoss index pw data sv s = Ok (sv', s')"
  shows "heard (fd sv index) s' = heard (fd sv index) s \<and> InfoSockets sv' ! index = InfoSockets sv ! index \<and>
    (\<exists>log. sent s' = sent s @ log \<and>
       fst ` set log \<subseteq> {fd sv j | j. j < length (InfoSockets sv) \<and> j \<noteq> index \<and> Enable (InfoSockets sv ! j)}) \<and>
    InfoWifis sv' = InfoWifis sv \<and> InfoWifisDeconnected sv' = InfoWifisDeconnected sv \<and>
    descriptors sv' = descriptors sv \<and> open_fds s' = open_fds s \<and> wifi_ok sv'"
proof (intro conjI)
  have d: "distributes (\<lambda>j. j \<noteq> index) (sv, s) (sv', s')"
    using assms(3) SendAllOtherClients_distributes SendAllOtherClientsWithoutLoss_distributes by blast
  have dist: "distinct (descriptors sv)" using assms(1) by (simp add: wifi_ok_def)
  show "heard (fd sv index) s' = heard (fd sv index) s" "InfoSockets sv' ! index = InfoSockets sv ! index"
    using distributes_others [OF d dist assms(2)] by simp_all
  have "targets (\<lambda>j. j \<noteq> index) (InfoSockets sv) =
      {fd sv j | j. j < length (InfoSockets sv) \<and> j \<noteq> index \<and> Enable (InfoSockets sv ! j)}"
    by (auto simp: targets_def)
  then show "\<exists>log. sent s' = sent s @ log \<and>
       fst ` set log \<subseteq> {fd sv j | j. j < length (InfoSockets sv) \<and> j \<noteq> index \<and> Enable (InfoSockets sv ! j)}"
    using d by (simp add: distributes_def sends_to_def)
  show "InfoWifis sv' = InfoWifis sv" "InfoWifisDeconnected sv' = InfoWifisDeconnected sv"
    "descriptors sv' = descriptors sv" "open_fds s' = open_fds s" "wifi_ok sv'"
    using distributes_wifi_ok [OF d] assms(1) by simp_all
qed

theorem no_echo_witness:
  "\<exists>sv' s'. SendAllOtherClientsWithoutLoss 1 (-20) ''abc'' sample_medium os_start = Ok (sv', s') \<and> heard 5 s' = []"
proof -
  obtain st where "SendAllOtherClientsWithoutLoss 1 (-20) ''abc'' sample_medium os_start = Ok st"
    using SendAllOtherClientsWithoutLoss_total by blast
  moreover obtain sv' s' where "st = (sv', s')" by (cases st)
  ultimately show ?thesis
    using no_echo [OF sample_medium_ok, of 1 undefined undefined "-20" "''abc''" os_start sv' s']
    by (simp add: heard_def os_start_def)
qed



section \<open>Joining and leaving\<close>

text \<open>
  C6: accepting a TCP client refines \<open>rejoin\<close>: the identifier is the hash of the peer's address; a
  remembered client gets its own entry back and is no longer remembered, otherwise an enabled client
  with the same identifier is disabled and its entry copied, otherwise a new entry at (0,0,0) is
  made; the reserved identifiers 1 and 2 stop the server by a failed assertion. The lists stay
  well-formed.
\<close>

theorem accept_refines:
  assumes "wifi_ok sv" and "os_accept (Master sv) s = (Some (d, a), s')"
    and "set (descriptors sv) \<subseteq> set (open_fds s)"
  shows "CWifiServer_Accept (Accept_ITCP u) sv s =
      (let cid = ucast (hash_ipaddr u a) in
       if cid = 0 \<or> TCID_GUEST_MIN \<le> cid then Ok (d, rejoin cid d sv, s') else Fault Assertion_failed) \<and>
    (cid = 0 \<or> TCID_GUEST_MIN \<le> cid \<longrightarrow> wifi_ok (rejoin cid d sv))"
proof (rule conjI)
  have d: "0 \<le> d" "d \<notin> set (open_fds s)"
    using assms(2) by (auto elim: os_accept_cases)
  have "Accept_ITCP u (Master sv) s = (d, Some (ucast (hash_ipaddr u a)), s')"
    by (simp add: Accept_ITCP_def assms(2))
  from itcp.CWifiServer_Accept_eq [OF assms(1) this] d
  show "CWifiServer_Accept (Accept_ITCP u) sv s =
      (let cid = ucast (hash_ipaddr u a) in
       if cid = 0 \<or> TCID_GUEST_MIN \<le> cid then Ok (d, rejoin cid d sv, s') else Fault Assertion_failed)"
    by (simp add: SOCKET_ERROR_def Let_def)
  show "cid = 0 \<or> TCID_GUEST_MIN \<le> cid \<longrightarrow> wifi_ok (rejoin cid d sv)"
    using rejoin_wifi_ok [OF assms(1) _ d(1)] d(2) assms(3) by blast
qed

definition sample_peer :: sockaddr where
  "sample_peer = \<lparr>s_addr = 0x0100007F, sin_port = 4000, svm_cid = 0\<rparr>"

definition os_waiting :: os where
  "os_waiting = os_start\<lparr>open_fds := [0, 1, 2, 3, 4, 5, 6],
     pending := (\<lambda>_. [\<lparr>peer = sample_peer, segments = [], outcomes = []\<rparr>])\<rparr>"

lemma os_waiting_accept: "\<exists>s'. os_accept m os_waiting = (Some (7, sample_peer), s')"
proof -
  have "lowest_free [0, 1, 2, 3, 4, 5, 6] = 7" by code_simp
  then show ?thesis by (simp add: os_accept_def os_waiting_def Let_def os_start_def)
qed

theorem accept_refines_witness:
  "\<exists>sv' s'. CWifiServer_Accept (Accept_ITCP False) sample_medium os_waiting = Ok (7, sv', s') \<and> wifi_ok sv' \<and>
     length (InfoWifis sv') = 4"
proof -
  obtain s' where a: "os_accept (Master sample_medium) os_waiting = (Some (7, sample_peer), s')"
    using os_waiting_accept by blast
  have sub: "set (descriptors sample_medium) \<subseteq> set (open_fds os_waiting)" by (simp add: os_waiting_def)
  have h: "(ucast (hash_ipaddr False sample_peer) :: TCID) = 383"
    unfolding hash_ipaddr_def sample_peer_def by simp
  have ok: "(383 :: TCID) = 0 \<or> TCID_GUEST_MIN \<le> (383 :: TCID)" by (simp add: TCID_GUEST_MIN_def)
  have "CWifiServer_Accept (Accept_ITCP False) sample_medium os_waiting = Ok (7, rejoin 383 7 sample_medium, s')"
    using accept_refines [OF sample_medium_ok a sub, of False] ok by (simp add: h Let_def)
  moreover have "wifi_ok (rejoin 383 7 sample_medium)"
    using accept_refines [OF sample_medium_ok a sub, of False 383] ok by blast
  moreover have "length (InfoWifis (rejoin 383 7 sample_medium)) = 4"
    by (simp add: rejoin_def join_as_def split: option.splits)
  ultimately show ?thesis by simp
qed

lemma find_cid_latest_last:
  assumes "cid \<notin> Cid ` set D" and "Cid w = cid" and "0 < n"
  shows "\<exists>k. find_cid cid 0 (latest n (D @ [w])) = Some k \<and> latest n (D @ [w]) ! k = w \<and>
    cid \<notin> Cid ` set (erase k (latest n (D @ [w])))"
proof -
  obtain E where E: "latest n (D @ [w]) = E @ [w]" "set E \<subseteq> set D"
  proof
    show "latest n (D @ [w]) = drop (Suc (length D) - n) D @ [w]" using assms(3) by (simp add: latest_def)
    show "set (drop (Suc (length D) - n) D) \<subseteq> set D" by (rule set_drop_subset)
  qed
  have "find_cid cid 0 E = None" using assms(1) E(2) by (auto simp: find_cid_None_iff)
  then have "find_cid cid 0 (E @ [w]) = Some (length E)"
    using assms(2) by (simp add: find_cid_append)
  then show ?thesis
    using assms(1) E by (auto simp: erase_append_mid [of E w "[]", simplified])
qed



text \<open>
  C29: closing all clients of a medium never fails: no client is left, the descriptors of the
  enabled ones are closed and no other descriptor is, and exactly the last clients that the memory
  can hold are remembered, in order.
\<close>

theorem close_all_clients:
  assumes "wifi_ok sv"
  shows "\<exists>sv' s'. CloseAllClient sv s = Ok (sv', s') \<and> InfoSockets sv' = [] \<and> InfoWifis sv' = [] \<and>
    InfoWifisDeconnected sv' = latest (MaxClientDeconnected sv) (InfoWifisDeconnected sv @ InfoWifis sv) \<and>
    set (open_fds s') = set (open_fds s) - {fd sv j | j. j < length (InfoSockets sv) \<and> Enable (InfoSockets sv ! j)}"
proof -
  have "enabled_descriptors sv = {fd sv j | j. j < length (InfoSockets sv) \<and> Enable (InfoSockets sv ! j)}"
    by (auto simp: enabled_descriptors_def in_set_conv_nth image_iff)
  with CloseAllClient_Ok [OF assms, of s] show ?thesis by auto
qed

theorem close_all_clients_witness:
  "\<exists>sv' s'. CloseAllClient sample_medium (os_start\<lparr>open_fds := [0, 1, 2, 3, 4, 5, 6]\<rparr>) = Ok (sv', s') \<and> InfoSockets sv' = [] \<and>
     map Cid (InfoWifisDeconnected sv') = [11, 12]"
  using close_all_clients [OF sample_medium_ok, of "os_start\<lparr>open_fds := [0, 1, 2, 3, 4, 5, 6]\<rparr>"]
  by (force simp: latest_def)

end
