(* ===== verification/Vwifi_EndToEnd.thy ===== *)
theory Vwifi_EndToEnd
  imports Vwifi_Medium Vwifi_Invariant Vwifi_Guest
begin

text \<open>
  A frame on its way from a radio in one guest to the radios in another: the guest program of the sender, the server, and the
  guest program of the receiver, joined by what each wrote to its socket and the next one reads from its own. The network
  may cut what was written into any pieces.

  The three programs parse a message with the same \<^verbatim>\<open>genlmsg_parse\<close>; \<open>server_parse\<close> is what the server looks at.
\<close>

section \<open>Between two programs\<close>

text \<open>The bytes that were written to a descriptor since a state.\<close>

definition wire :: "TDescriptor \<Rightarrow> os \<Rightarrow> os \<Rightarrow> byte list" where
  "wire d s s' = concat (drop (length (heard d s)) (heard d s'))"

definition server_parse :: "(byte list \<Rightarrow> attr_table option) \<Rightarrow> byte list \<Rightarrow> freq_attr" where
  "server_parse parse m =
     (case parse m of None \<Rightarrow> Parse_refused
      | Some tb \<Rightarrow> Parsed (if tb HWSIM_ATTR_FREQ = None then None else Some (freq_of tb m)))"

definition server_freq :: "attr_table \<Rightarrow> byte list \<Rightarrow> TFrequency" where
  "server_freq tb m = (if tb HWSIM_ATTR_FREQ = None then DEFAULT_FREQUENCY else freq_of tb m)"

lemma wire_heard: "heard d s' = heard d s @ bs \<Longrightarrow> wire d s s' = concat bs"
  by (simp add: wire_def)

section \<open>The parties\<close>

text \<open>
  A guest that is handed a frame it can send on. The parser gives the same places when the six octets of the
  transmitter are replaced, because it reads only the headers of the attributes.
\<close>

definition sender_ready :: "(byte list \<Rightarrow> attr_table option) \<Rightarrow> attr_table \<Rightarrow> byte list \<Rightarrow> 'a guest \<Rightarrow> bool" where
  "sender_ready parse tb m g \<longleftrightarrow> sent_message tb m \<and> length m \<le> 2352 \<and> server_freq tb m \<noteq> 0 \<and>
     parse m = Some tb \<and> parse (with_transmitter (frame_src tb m) m) = Some tb \<and>
     is_connected_to_server g \<and> driver_ok g \<and> healthy (Net g) (GetDescriptor (Client g)) \<and>
     uint (get_word (take 2 (drop 4 m)) :: 16 word) = family_id g"

text \<open>A server in which clients \<open>i\<close> and \<open>j\<close> of the medium are connected, \<open>i\<close> has sent something, and the others are near.\<close>

definition medium_ready :: "TIndex \<Rightarrow> TIndex \<Rightarrow> server \<Rightarrow> os \<Rightarrow> bool" where
  "medium_ready i j v s \<longleftrightarrow>
     (let sv = wifiServerITCP v in
      server_inv (v, s) \<and> i < length (InfoWifis sv) \<and> j < length (InfoWifis sv) \<and> j \<noteq> i \<and>
      Enable (InfoSockets sv ! i) \<and> Enable (InfoSockets sv ! j) \<and>
      DescriptorHasAction (fd sv i) (Scheduler v) \<and> healthy s (fd sv j) \<and>
      good_scale (double_of_bits (Scale (Globals v))) \<and>
      (\<forall>k < length (InfoWifis sv). dist2 (InfoWifis sv ! i) (InfoWifis sv ! k) < 2 ^ 31))"

definition receiver_ready :: "pselect_outcome \<Rightarrow> 'a guest \<Rightarrow> bool" where
  "receiver_ready ev g \<longleftrightarrow>
     is_connected_to_server g \<and> driver_ok g \<and> buf_ok (In_buffer g) \<and> socket_ready ev g"

text \<open>The level with which the server sends a frame of client \<open>i\<close> to client \<open>j\<close>.\<close>

definition arriving_level :: "server \<Rightarrow> TIndex \<Rightarrow> TIndex \<Rightarrow> TFrequency \<Rightarrow> TPower \<Rightarrow> TPower result" where
  "arriving_level v i j f pw =
     (let sv = wifiServerITCP v in
      signal_level (double_of_bits (Scale (Globals v))) (coo_of (InfoWifis sv ! i)) (InfoWifis sv ! j) f pw)"

text \<open>What a guest tells its driver about a frame that arrives with a level.\<close>

definition handed_over :: "'a guest \<Rightarrow> byte list \<Rightarrow> TPower \<Rightarrow> TFrequency \<Rightarrow> nl_msg list" where
  "handed_over g frame l f =
     map (\<lambda>i. cloned_message (family_id g) (getMachwsim i) frame (sint l) f) (list_devices (wdevices g))"

section \<open>The sender\<close>

lemma sent_frame_ok: "sent_message tb m \<Longrightarrow> length m \<le> 2352 \<Longrightarrow> frame_ok (with_transmitter (frame_src tb m) m)"
  using with_transmitter_message(1) [of "frame_src tb m" tb m] length_with_transmitter [of "frame_src tb m" m]
    length_frame_src [of tb m]
  by (auto simp: sent_message_def frame_ok_def frame_message_def)

lemma sender_writes:
  assumes "sender_ready parse tb m g"
  shows "\<exists>g'. process_messages parse m g = Ok (0, g') \<and>
    wire (GetDescriptor (Client g)) (Net g) (Net g') =
      put_word (sending_power (frame_src tb m) (wdevices g)) @ with_transmitter (frame_src tb m) m"
proof -
  have "parse m = Some tb" "sent_message tb m" "is_connected_to_server g" "driver_ok g"
    "healthy (Net g) (GetDescriptor (Client g))" "uint (get_word (take 2 (drop 4 m)) :: 16 word) = family_id g"
    using assms by (simp_all add: sender_ready_def)
  note step = process_messages_frame [where genlmsg_parse = parse, OF this]
  show ?thesis
    unfolding step by (simp add: wire_def heard_def told_def)
qed

section \<open>The server\<close>

lemma server_forwards:
  assumes ready: "medium_ready i j v s" and fr: "frame_ok data"
    and f: "GetFrequency fparse data = Ok f" "f \<noteq> 0"
    and st: "stream (fd (wifiServerITCP v) i) s = put_word pw @ data @ rest"
  shows "\<exists>v' s' l. ForwardData_body fparse False i v s = Ok (False, v', s') \<and> server_inv (v', s') \<and>
    arriving_level v i j f pw = Ok l \<and>
    (\<not> CanLostPackets (Globals v) \<or> -39 \<le> sint l \<longrightarrow>
      wire (fd (wifiServerITCP v) j) s s' = put_word l @ data) \<and>
    (CanLostPackets (Globals v) \<and> sint l \<le> -92 \<longrightarrow> wire (fd (wifiServerITCP v) j) s s' = [])"
proof -
  let ?sv = "wifiServerITCP v" and ?d = "fd (wifiServerITCP v) i" and ?dj = "fd (wifiServerITCP v) j"
  have inv: "server_inv (v, s)" and i: "i < length (InfoWifis ?sv)" and j: "j < length (InfoWifis ?sv)" "j \<noteq> i"
    and en: "Enable (InfoSockets ?sv ! i)" "Enable (InfoSockets ?sv ! j)" and act: "DescriptorHasAction ?d (Scheduler v)"
    and h: "healthy s ?dj" and sc: "good_scale (double_of_bits (Scale (Globals v)))"
    and near: "\<forall>k < length (InfoWifis ?sv). dist2 (InfoWifis ?sv ! i) (InfoWifis ?sv ! k) < 2 ^ 31"
    using ready by (simp_all add: medium_ready_def Let_def)
  have ok: "server_ok v s" using inv by (simp add: server_inv_def)
  then have wok: "wifi_ok ?sv" and b: "buf_ok (RxBuffer v)" by (simp_all add: server_ok_def)
  have len: "length (InfoSockets ?sv) = length (InfoWifis ?sv)" using wok by (simp add: wifi_ok_def)
  obtain r p buf t where rs: "RecvSignalWithSocket ?d (RxBuffer v) s = Ok (r, p, buf, t)"
    and t: "read_from ?d s t" and rec: "received ?d (stream ?d s) r p buf t"
    using RecvSignal_spec [OF b] by blast
  have got: "r = int (length data)" "0 < r" "p = Some pw" "rbind (GetBuffer buf) (cell_bytes (length data)) = Ok data"
    using rec frame_of_frame [OF fr, of pw rest] by (auto simp: received_def st)
  have ht: "healthy t ?dj" "heard ?dj t = heard ?dj s"
    using h read_from_frame [OF t] by (simp_all add: healthy_def heard_def)
  obtain l sv' s1 where out: "SendAllOtherClients fparse (Globals v) i pw data ?sv t = Ok (sv', s1)"
    and l: "arriving_level v i j f pw = Ok l"
    and sent: "\<not> CanLostPackets (Globals v) \<or> -39 \<le> sint l \<Longrightarrow> heard ?dj s1 = heard ?dj t @ [put_word l, data]"
      "CanLostPackets (Globals v) \<and> sint l \<le> -92 \<Longrightarrow> heard ?dj s1 = heard ?dj t"
    using frame_reaches [OF wok i j(1,2) en(2) ht(1) f sc near, of pw] by (auto simp: arriving_level_def Let_def)
  define w where "w = put_server False sv' (v\<lparr>RxBuffer := buf\<rparr>)"
  obtain spy s2 where spy: "SendAllClientsWithoutLoss pw data (server_of True w) s1 = Ok (spy, s2)"
    using SendAllClientsWithoutLoss_total by force
  have "?dj \<notin> targets (\<lambda>j. True) (InfoSockets (server_of True w))"
  proof -
    have "?dj \<in> set (descriptors ?sv)"
      using j(1) len nth_mem [of j "descriptors ?sv"] by simp
    moreover have "set (descriptors ?sv) \<inter> set (descriptors (wifiServerSPY v)) = {}"
      using ok by (auto simp: server_ok_def all_fds_def)
    moreover have "targets (\<lambda>j. True) (InfoSockets (server_of True w)) \<subseteq> set (descriptors (wifiServerSPY v))"
      by (auto simp: w_def targets_def server_of_def put_server_def)
    ultimately show ?thesis by blast
  qed
  then have s2: "heard ?dj s2 = heard ?dj s1"
    using SendAllClientsWithoutLoss_distributes [OF spy] sends_to_heard by (fastforce simp: distributes_def)
  have data: "rbind (GetBuffer buf) (cell_bytes (nat r)) = Ok data" using got(1,4) by simp
  have step: "ForwardData_body fparse False i v s = Ok (False, put_server True spy w, s2)"
    using i len en(1) act got(2,3) data out spy rs
    by (simp add: ForwardData_body_def GetSocketClient_def IsEnable_def GetNumberClient_def server_of_def nth_r_def
        forward_def Let_def w_def)
  moreover have "server_inv (put_server True spy w, s2)"
    using ForwardData_body_keeps [OF ok step] inv by (simp add: server_inv_def)
  moreover have "wire ?dj s s2 = put_word l @ data" if "\<not> CanLostPackets (Globals v) \<or> -39 \<le> sint l"
    using sent(1) [OF that] s2 ht(2) wire_heard [of ?dj s2 s "[put_word l, data]"] by simp
  moreover have "wire ?dj s s2 = []" if "CanLostPackets (Globals v) \<and> sint l \<le> -92"
    using sent(2) [OF that] s2 ht(2) wire_heard [of ?dj s2 s "[]"] by simp
  ultimately show ?thesis using l by blast
qed

section \<open>The receiver\<close>

lemma receiver_hands_over:
  assumes "receiver_ready ev g" and "frame_ok data" and "parse data = Some tb" and "frame_message tb data"
    and "stream (GetDescriptor (Client g)) (Net g) = put_word l @ data @ rest"
  shows "\<exists>g'. recv_from_server parse ev g = Ok g' \<and>
    nl_sent (Kern g') = nl_sent (Kern g) @ handed_over g (payload tb HWSIM_ATTR_FRAME data) l (freq_of tb data)"
proof -
  have r: "is_connected_to_server g" "driver_ok g" "buf_ok (In_buffer g)" "socket_ready ev g"
    using assms(1) by (simp_all add: receiver_ready_def)
  have "frame_of (stream (GetDescriptor (Client g)) (Net g)) = Some (l, data, rest)"
    using frame_of_frame [OF assms(2)] by (simp add: assms(5))
  from recv_from_server_frame [where genlmsg_parse = parse, OF this assms(3,4) r] show ?thesis
    by (auto simp: told_def handed_over_def)
qed

section \<open>From radio to radio\<close>


section \<open>Three guests\<close>

text \<open>A server with the three clients of \<open>sample_medium\<close>; the first of them has sent something.\<close>

definition sample_server :: server where
  "sample_server =
     \<lparr>wifiServerVTCP = (CWifiServer_new None)\<lparr>Master := 9, MaxClientDeconnected := 2\<rparr>,
      wifiServerITCP = sample_medium\<lparr>ListInfoSelfManaged := False\<rparr>,
      wifiServerSPY = (CWifiServer_new None)\<lparr>Master := 7, MaxClientDeconnected := 2\<rparr>, ctrlServer = (CSocketServer_new None)\<lparr>Master := 8\<rparr>,
      Scheduler = \<lparr>FdMaster = {9, 3, 7, 8, 4, 5, 6}, FdDup = {4}, MaxDescriptor = 9, ListNodes = [9, 3, 7, 8, 4, 5, 6]\<rparr>,
      RxBuffer = \<lparr>Buffer = Some (replicate 1024 None), Size = 1024\<rparr>, Globals = globals_new\<rparr>"

definition arrived :: "byte list \<Rightarrow> os" where
  "arrived bs = os_start\<lparr>rx := (\<lambda>_. [bs]), open_fds := [0, 1, 2, 3, 4, 5, 6, 7, 8, 9]\<rparr>"

definition sample_receiver :: "byte list \<Rightarrow> unit guest" where
  "sample_receiver bs = sample_guest\<lparr>Net := arrived bs\<rparr>"

definition socket_event :: pselect_outcome where
  "socket_event = \<lparr>activity = 1, errno_EINTR = False, ready = {3 :: int}\<rparr>"

lemma sample_sender_ready: "sender_ready (\<lambda>_. Some sample_table) sample_table sample_message sample_guest"
  using sample_message_ok sample_guest_ok
  by (simp add: sender_ready_def server_freq_def sample_table_def DEFAULT_FREQUENCY_def)

lemma sample_server_inv: "server_inv (sample_server, arrived bs)"
proof -
  have "wifi_ok (wifiServerITCP sample_server)"
    using sample_medium_ok by (simp add: wifi_ok_def sample_server_def)
  then show ?thesis
    by (simp add: server_inv_def server_ok_def all_fds_def masters_def select_ok_def arrived_def sample_server_def
        wifi_ok_def buf_ok_def CWifiServer_new_def CSocketServer_new_def DefaultValues_def Init_def CSocketServer.defs
        CSocket.defs CSocket_new_def FD_SETSIZE_def)
qed

lemma sample_medium_ready: "medium_ready 0 1 sample_server (arrived bs)"
proof -
  have "good_scale (double_of_bits (Scale (Globals sample_server)))"
    using good_scale_default by (simp add: sample_server_def)
  then show ?thesis
    using sample_server_inv [of bs]
    by (auto simp: medium_ready_def sample_server_def DescriptorHasAction_def healthy_def arrived_def os_start_def
        dist2_def less_Suc_eq)
qed

lemma sample_receiver_ready: "receiver_ready socket_event (sample_receiver bs)"
  using sample_guest_ok
  by (simp add: receiver_ready_def sample_receiver_def is_connected_to_server_def socket_ready_def socket_event_def)
    (simp add: sample_guest_def)

lemma stream_arrived: "stream d (arrived bs) = bs"
  by (simp add: stream_def arrived_def)


end
