(* ===== verification/Vwifi_Copies.thy ===== *)
theory Vwifi_Copies
  imports Vwifi_Medium
begin

text \<open>
  The ownership of the lists of \<^verbatim>\<open>CSocketServer\<close> and \<^verbatim>\<open>CWifiServer\<close> (\<^verbatim>\<open>csocketserver.cc\<close>, \<^verbatim>\<open>cwifiserver.cc\<close>): an
  object holds pointers to its lists, which it owns or shares with another object. Here the pointers are
  addresses in a memory of lists, for the operations that make, copy, assign and destroy an object.

  The other theories keep the lists inside the object. \<open>contents\<close> gives that view of an object: making an object and
  destroying it implement \<open>CWifiServer_new\<close> and \<open>CWifiServer_destroy\<close>. The copy of an object that owns its lists is
  independent of it in memory, but destroying the copy closes the original's connections; an assignment leaves the
  sockets of its target as they were; and of two objects that share their lists the second cannot be destroyed.
\<close>

section \<open>Memory\<close>

type_synonym address = nat

record memory =
  socket_lists :: "address \<Rightarrow> CInfoSocket list option"
  wifi_lists :: "address \<Rightarrow> CInfoWifi list option"
  next_address :: address

definition new_sockets :: "CInfoSocket list \<Rightarrow> memory \<Rightarrow> address option \<times> memory" where
  "new_sockets l m = (Some (next_address m),
     m\<lparr>socket_lists := (socket_lists m)(next_address m := Some l), next_address := Suc (next_address m)\<rparr>)"

definition new_wifis :: "CInfoWifi list \<Rightarrow> memory \<Rightarrow> address option \<times> memory" where
  "new_wifis l m = (Some (next_address m),
     m\<lparr>wifi_lists := (wifi_lists m)(next_address m := Some l), next_address := Suc (next_address m)\<rparr>)"

text \<open>What a pointer points to; a null or dangling pointer points to nothing.\<close>

definition sockets_at :: "address option \<Rightarrow> memory \<Rightarrow> CInfoSocket list option" where
  "sockets_at p m = (case p of None \<Rightarrow> None | Some a \<Rightarrow> socket_lists m a)"

definition wifis_at :: "address option \<Rightarrow> memory \<Rightarrow> CInfoWifi list option" where
  "wifis_at p m = (case p of None \<Rightarrow> None | Some a \<Rightarrow> wifi_lists m a)"

definition deref :: "'a option \<Rightarrow> 'a result" where
  "deref x = (case x of None \<Rightarrow> Fault Undefined_behaviour | Some v \<Rightarrow> Ok v)"

text \<open>\<^verbatim>\<open>delete\<close> does nothing on the null pointer and is undefined on one that was deleted.\<close>

definition delete_sockets :: "address option \<Rightarrow> memory \<Rightarrow> memory result" where
  "delete_sockets p m =
     (case p of None \<Rightarrow> Ok m
      | Some a \<Rightarrow> rbind (deref (socket_lists m a)) (\<lambda>_. Ok (m\<lparr>socket_lists := (socket_lists m)(a := None)\<rparr>)))"

definition delete_wifis :: "address option \<Rightarrow> memory \<Rightarrow> memory result" where
  "delete_wifis p m =
     (case p of None \<Rightarrow> Ok m
      | Some a \<Rightarrow> rbind (deref (wifi_lists m a)) (\<lambda>_. Ok (m\<lparr>wifi_lists := (wifi_lists m)(a := None)\<rparr>)))"

section \<open>Class CSocketServer\<close>

record SocketServer_object = CSocket +
  Port_field :: TPort
  SelfManaged :: bool
  Sockets_ptr :: "address option"

text \<open>The object before its constructor runs is an argument: its fields hold anything.\<close>

definition SocketServer_construct ::
  "address option \<Rightarrow> 'a SocketServer_object_scheme \<Rightarrow> memory \<Rightarrow> 'a SocketServer_object_scheme \<times> memory" where
  "SocketServer_construct infoSockets raw m =
     (let this = raw\<lparr>Master := Master CSocket_new, Port_field := 0\<rparr>
      in if infoSockets = None then
           (let (p, m) = new_sockets [] m in (this\<lparr>Sockets_ptr := p, SelfManaged := True\<rparr>, m))
         else (this\<lparr>Sockets_ptr := infoSockets, SelfManaged := False\<rparr>, m))"

text \<open>\<open>same\<close> says whether both are the same object.\<close>

definition SocketServer_assign ::
  "bool \<Rightarrow> 'a SocketServer_object_scheme \<Rightarrow> 'b SocketServer_object_scheme \<Rightarrow> memory \<Rightarrow>
   ('a SocketServer_object_scheme \<times> memory) result" where
  "SocketServer_assign same this that m =
     (if same then Ok (this, m)
      else
        let this = this\<lparr>Port_field := Port_field that, SelfManaged := SelfManaged that\<rparr>
        in if SelfManaged this then
             rbind (delete_sockets (Sockets_ptr this) m) (\<lambda>m.
             rbind (deref (sockets_at (Sockets_ptr that) m)) (\<lambda>l.
             let (p, m) = new_sockets l m in Ok (this\<lparr>Sockets_ptr := p\<rparr>, m)))
           else Ok (this\<lparr>Sockets_ptr := Sockets_ptr that\<rparr>, m))"

definition SocketServer_copy ::
  "'b SocketServer_object_scheme \<Rightarrow> 'a SocketServer_object_scheme \<Rightarrow> memory \<Rightarrow>
   ('a SocketServer_object_scheme \<times> memory) result" where
  "SocketServer_copy that raw m =
     SocketServer_assign False (raw\<lparr>Master := Master that, SelfManaged := False, Sockets_ptr := None\<rparr>) that m"

definition SocketServer_destroy ::
  "'a SocketServer_object_scheme \<Rightarrow> memory \<Rightarrow> os \<Rightarrow> (memory \<times> os) result" where
  "SocketServer_destroy this m s =
     rbind (deref (sockets_at (Sockets_ptr this) m)) (\<lambda>l.
     let (l, s) = close_infos l s
     in rbind (delete_sockets (Sockets_ptr this) m) (\<lambda>m. Ok (m, snd (CSocket_Close this s))))"

section \<open>Class CWifiServer\<close>

record WifiServer_object = SocketServer_object +
  MaxDeconnected :: TIndex
  Wifis_ptr :: "address option"
  WifisDeconnected_ptr :: "address option"

definition WifiServer_construct :: "WifiServer_object \<Rightarrow> memory \<Rightarrow> WifiServer_object \<times> memory" where
  "WifiServer_construct raw m =
     (let (this, m) = SocketServer_construct None raw m; this = this\<lparr>MaxDeconnected := 0\<rparr>;
          (p, m) = new_wifis [] m; (q, m) = new_wifis [] m
      in (this\<lparr>Wifis_ptr := p, WifisDeconnected_ptr := q\<rparr>, m))"

definition WifiServer_construct_shared ::
  "address option \<Rightarrow> address option \<Rightarrow> address option \<Rightarrow> WifiServer_object \<Rightarrow> memory \<Rightarrow> WifiServer_object \<times> memory" where
  "WifiServer_construct_shared infoSockets infoWifis infoWifisDeconnected raw m =
     (let (this, m) = SocketServer_construct infoSockets raw m
      in (this\<lparr>MaxDeconnected := 0, Wifis_ptr := infoWifis, WifisDeconnected_ptr := infoWifisDeconnected\<rparr>, m))"

text \<open>The assignment of \<^verbatim>\<open>CWifiServer\<close> does not call that of its base class.\<close>

definition WifiServer_assign ::
  "bool \<Rightarrow> WifiServer_object \<Rightarrow> WifiServer_object \<Rightarrow> memory \<Rightarrow> (WifiServer_object \<times> memory) result" where
  "WifiServer_assign same this that m =
     (if same then Ok (this, m)
      else
        let this = this\<lparr>MaxDeconnected := MaxDeconnected that\<rparr>
        in if SelfManaged this then
             rbind (if Wifis_ptr this \<noteq> None
                    then rbind (delete_wifis (Wifis_ptr this) m) (delete_wifis (WifisDeconnected_ptr this)) else Ok m) (\<lambda>m.
             rbind (deref (wifis_at (Wifis_ptr that) m)) (\<lambda>l.
             let (p, m) = new_wifis l m
             in rbind (deref (wifis_at (WifisDeconnected_ptr that) m)) (\<lambda>l.
                let (q, m) = new_wifis l m in Ok (this\<lparr>Wifis_ptr := p, WifisDeconnected_ptr := q\<rparr>, m))))
           else Ok (this\<lparr>Wifis_ptr := Wifis_ptr that, WifisDeconnected_ptr := WifisDeconnected_ptr that\<rparr>, m))"

definition WifiServer_copy ::
  "WifiServer_object \<Rightarrow> WifiServer_object \<Rightarrow> memory \<Rightarrow> (WifiServer_object \<times> memory) result" where
  "WifiServer_copy that raw m =
     rbind (SocketServer_copy that raw m) (\<lambda>(this, m).
     WifiServer_assign False (this\<lparr>Wifis_ptr := None, WifisDeconnected_ptr := None\<rparr>) that m)"

definition WifiServer_destroy :: "WifiServer_object \<Rightarrow> memory \<Rightarrow> os \<Rightarrow> (memory \<times> os) result" where
  "WifiServer_destroy this m s =
     rbind (if SelfManaged this
            then rbind (delete_wifis (Wifis_ptr this) m) (delete_wifis (WifisDeconnected_ptr this)) else Ok m) (\<lambda>m.
     SocketServer_destroy this m s)"

section \<open>The view of the other theories\<close>

definition contents :: "WifiServer_object \<Rightarrow> memory \<Rightarrow> CWifiServer option" where
  "contents ob m =
     (case (sockets_at (Sockets_ptr ob) m, wifis_at (Wifis_ptr ob) m, wifis_at (WifisDeconnected_ptr ob) m) of
        (Some is, Some ws, Some ds) \<Rightarrow>
          Some \<lparr>Master = Master ob, Port = Port_field ob, ListInfoSelfManaged = SelfManaged ob, InfoSockets = is,
                MaxClientDeconnected = MaxDeconnected ob, InfoWifis = ws, InfoWifisDeconnected = ds\<rparr>
      | _ \<Rightarrow> None)"

text \<open>Only addresses below the next one are in use, and the two lists of radios are different ones.\<close>

definition memory_ok :: "memory \<Rightarrow> bool" where
  "memory_ok m \<longleftrightarrow> (\<forall>a \<ge> next_address m. socket_lists m a = None \<and> wifi_lists m a = None)"

definition separate :: "WifiServer_object \<Rightarrow> bool" where
  "separate ob \<longleftrightarrow> Wifis_ptr ob \<noteq> WifisDeconnected_ptr ob"

text \<open>The lists that an object points to.\<close>

definition places :: "WifiServer_object \<Rightarrow> address set" where
  "places ob = set_option (Sockets_ptr ob) \<union> set_option (Wifis_ptr ob) \<union> set_option (WifisDeconnected_ptr ob)"

named_theorems pointer_simps

lemmas [pointer_simps] = new_sockets_def new_wifis_def sockets_at_def wifis_at_def deref_def delete_sockets_def
  delete_wifis_def

lemma contents_Some:
  "contents ob m = Some v \<longleftrightarrow> (\<exists>a b c. Sockets_ptr ob = Some a \<and> Wifis_ptr ob = Some b \<and> WifisDeconnected_ptr ob = Some c \<and>
     socket_lists m a = Some (InfoSockets v) \<and> wifi_lists m b = Some (InfoWifis v) \<and>
     wifi_lists m c = Some (InfoWifisDeconnected v) \<and> Master v = Master ob \<and> Port v = Port_field ob \<and>
     ListInfoSelfManaged v = SelfManaged ob \<and> MaxClientDeconnected v = MaxDeconnected ob)"
  by (cases v) (auto simp: contents_def pointer_simps split: option.splits)

section \<open>A memory that grows\<close>

definition grows :: "memory \<Rightarrow> memory \<Rightarrow> bool" where
  "grows m m' \<longleftrightarrow> next_address m \<le> next_address m' \<and>
     (\<forall>a < next_address m. socket_lists m' a = socket_lists m a \<and> wifi_lists m' a = wifi_lists m a)"

lemma used_below: "memory_ok m \<Longrightarrow> socket_lists m a = Some l \<Longrightarrow> a < next_address m"
  "memory_ok m \<Longrightarrow> wifi_lists m a = Some l' \<Longrightarrow> a < next_address m"
  by (force simp: memory_ok_def not_less [symmetric])+

lemma places_below: "memory_ok m \<Longrightarrow> contents x m = Some v \<Longrightarrow> a \<in> places x \<Longrightarrow> a < next_address m"
  by (auto simp: contents_Some places_def dest: used_below)

text \<open>An object sees only what is at its places.\<close>

lemma contents_same:
  assumes "contents x m = Some v"
    and "\<And>a. a \<in> places x \<Longrightarrow> socket_lists m' a = socket_lists m a \<and> wifi_lists m' a = wifi_lists m a"
  shows "contents x m' = Some v"
proof -
  obtain a b c where l: "Sockets_ptr x = Some a" "Wifis_ptr x = Some b" "WifisDeconnected_ptr x = Some c"
    using assms(1) unfolding contents_Some by blast
  then have "{a, b, c} \<subseteq> places x" by (simp add: places_def)
  then show ?thesis using assms l by (simp add: contents_Some)
qed

lemma contents_grows: "memory_ok m \<Longrightarrow> grows m m' \<Longrightarrow> contents x m = Some v \<Longrightarrow> contents x m' = Some v"
  using places_below [of m x v] by (auto simp: grows_def intro: contents_same)

lemma fresh_disjoint:
  "memory_ok m \<Longrightarrow> contents x m = Some v \<Longrightarrow> (\<And>a. a \<in> places y \<Longrightarrow> next_address m \<le> a) \<Longrightarrow> places x \<inter> places y = {}"
  using places_below [of m x v] by (meson disjoint_iff not_less)

section \<open>Making, copying and assigning\<close>

text \<open>What holds of an object that was made with lists of its own.\<close>

definition made :: "memory \<Rightarrow> WifiServer_object \<Rightarrow> memory \<Rightarrow> CWifiServer \<Rightarrow> bool" where
  "made m ob m' v \<longleftrightarrow> contents ob m' = Some v \<and> separate ob \<and> memory_ok m' \<and> grows m m' \<and>
     (\<forall>a \<in> places ob. next_address m \<le> a)"

lemma construct_refines:
  assumes "memory_ok m"
  shows "case WifiServer_construct raw m of (ob, m') \<Rightarrow> made m ob m' (CWifiServer_new None)"
  using assms
  by (simp add: WifiServer_construct_def SocketServer_construct_def made_def contents_Some separate_def memory_ok_def
      pointer_simps CWifiServer_new_def DefaultValues_def CSocketServer_new_def Init_def CSocketServer.defs CSocket.defs
      CSocket_new_def places_def grows_def)

lemma construct_shared_refines:
  assumes "socket_lists m a = Some is" and "wifi_lists m b = Some ws" and "wifi_lists m c = Some ds"
  shows "case WifiServer_construct_shared (Some a) (Some b) (Some c) raw m of
    (ob, m') \<Rightarrow> m' = m \<and> contents ob m = Some (CWifiServer_new (Some (is, ws, ds)))"
  using assms
  by (simp add: WifiServer_construct_shared_def SocketServer_construct_def contents_Some pointer_simps CWifiServer_new_def
      DefaultValues_def CSocketServer_new_def Init_def CSocketServer.defs CSocket.defs CSocket_new_def)

lemma copy_owner:
  assumes ok: "memory_ok m" and v: "contents ob m = Some v" and own: "SelfManaged ob"
  shows "\<exists>c m'. WifiServer_copy ob raw m = Ok (c, m') \<and> made m c m' v"
proof -
  obtain a b d where l: "Sockets_ptr ob = Some a" "Wifis_ptr ob = Some b" "WifisDeconnected_ptr ob = Some d"
    "socket_lists m a = Some (InfoSockets v)" "wifi_lists m b = Some (InfoWifis v)"
    "wifi_lists m d = Some (InfoWifisDeconnected v)" "Master v = Master ob" "Port v = Port_field ob"
    "ListInfoSelfManaged v = SelfManaged ob" "MaxClientDeconnected v = MaxDeconnected ob"
    using v unfolding contents_Some by blast
  have "a < next_address m" "b < next_address m" "d < next_address m" using l ok used_below by blast+
  then show ?thesis
    using l own ok
    by (simp add: WifiServer_copy_def SocketServer_copy_def SocketServer_assign_def WifiServer_assign_def pointer_simps
        made_def contents_Some separate_def memory_ok_def places_def grows_def)
qed

text \<open>The copy of an object that shares its lists shares them too.\<close>

lemma copy_sharer:
  assumes "\<not> SelfManaged ob"
  shows "\<exists>c. WifiServer_copy ob raw m = Ok (c, m) \<and> Sockets_ptr c = Sockets_ptr ob \<and> contents c m = contents ob m"
  using assms
  by (simp add: WifiServer_copy_def SocketServer_copy_def SocketServer_assign_def WifiServer_assign_def contents_def
      split: option.splits)

text \<open>
  An assignment gives the target the radios of the source, but it keeps the target's own sockets, port and listening
  socket.
\<close>

lemma assign_keeps_sockets:
  assumes ok: "memory_ok m" and own: "SelfManaged this" "separate this"
    and u: "contents this m = Some u" and v: "contents that m = Some v" and dis: "places this \<inter> places that = {}"
  shows "\<exists>this' m'. WifiServer_assign False this that m = Ok (this', m') \<and> memory_ok m' \<and> contents that m' = Some v \<and>
    contents this' m' = Some (u\<lparr>MaxClientDeconnected := MaxClientDeconnected v, InfoWifis := InfoWifis v,
      InfoWifisDeconnected := InfoWifisDeconnected v\<rparr>)"
proof -
  obtain a b d where l: "Sockets_ptr this = Some a" "Wifis_ptr this = Some b" "WifisDeconnected_ptr this = Some d"
    "socket_lists m a = Some (InfoSockets u)" "wifi_lists m b = Some (InfoWifis u)"
    "wifi_lists m d = Some (InfoWifisDeconnected u)" "Master u = Master this" "Port u = Port_field this"
    "ListInfoSelfManaged u = SelfManaged this"
    using u unfolding contents_Some by blast
  obtain a' b' d' where r: "Sockets_ptr that = Some a'" "Wifis_ptr that = Some b'" "WifisDeconnected_ptr that = Some d'"
    "socket_lists m a' = Some (InfoSockets v)" "wifi_lists m b' = Some (InfoWifis v)"
    "wifi_lists m d' = Some (InfoWifisDeconnected v)" "Master v = Master that" "Port v = Port_field that"
    "ListInfoSelfManaged v = SelfManaged that" "MaxClientDeconnected v = MaxDeconnected that"
    using v unfolding contents_Some by blast
  have below: "a < next_address m" "b < next_address m" "d < next_address m" "a' < next_address m" "b' < next_address m"
    "d' < next_address m"
    using l r ok used_below by blast+
  have ne: "b \<noteq> d" "b' \<noteq> b" "b' \<noteq> d" "d' \<noteq> b" "d' \<noteq> d" using own(2) dis l r by (auto simp: separate_def places_def)
  show ?thesis
    using l r below ne own(1) ok
    by (simp add: WifiServer_assign_def pointer_simps contents_Some memory_ok_def)
qed

text \<open>The target then has fewer radios than sockets, or more, when the numbers of clients were different.\<close>

lemma assign_breaks:
  assumes "memory_ok m" and "SelfManaged this" "separate this" and "contents this m = Some u" and "contents that m = Some v"
    and "places this \<inter> places that = {}" and "length (InfoSockets u) \<noteq> length (InfoWifis v)"
  shows "\<exists>this' m' w. WifiServer_assign False this that m = Ok (this', m') \<and> contents this' m' = Some w \<and> \<not> wifi_ok w"
  using assign_keeps_sockets [OF assms(1-6)] assms(7) by (auto simp: wifi_ok_def)

section \<open>Destroying\<close>

lemma destroy_refines:
  assumes own: "SelfManaged ob" "separate ob" and v: "contents ob m = Some v"
  shows "\<exists>m' s'. WifiServer_destroy ob m s = Ok (m', s') \<and> CWifiServer_destroy v s = Ok s' \<and>
    (\<forall>x u. contents x m = Some u \<and> places x \<inter> places ob = {} \<longrightarrow> contents x m' = Some u)"
proof -
  obtain a b d where l: "Sockets_ptr ob = Some a" "Wifis_ptr ob = Some b" "WifisDeconnected_ptr ob = Some d"
    "socket_lists m a = Some (InfoSockets v)" "wifi_lists m b = Some (InfoWifis v)"
    "wifi_lists m d = Some (InfoWifisDeconnected v)" "Master v = Master ob" "ListInfoSelfManaged v = SelfManaged ob"
    using v unfolding contents_Some by blast
  let ?m = "m\<lparr>wifi_lists := (wifi_lists m)(b := None, d := None), socket_lists := (socket_lists m)(a := None)\<rparr>"
  have ne: "b \<noteq> d" using own(2) l by (simp add: separate_def)
  obtain is' s1 where c: "close_infos (InfoSockets v) s = (is', s1)" by fastforce
  have "WifiServer_destroy ob m s = Ok (?m, snd (CSocket_Close ob s1))"
    using l ne own(1) c by (simp add: WifiServer_destroy_def SocketServer_destroy_def pointer_simps)
  moreover have "CWifiServer_destroy v s = Ok (snd (CSocket_Close ob s1))"
    using l own(1) c by (simp add: CWifiServer_destroy_def CSocketServer_destroy_def CSocket_Close_def)
  moreover have "contents x ?m = Some u" if "contents x m = Some u" "places x \<inter> places ob = {}" for x u
    by (rule contents_same [OF that(1)]) (use that(2) l in \<open>auto simp: places_def\<close>)
  ultimately show ?thesis by blast
qed

lemma close_infos_open_fds:
  "set (open_fds (snd (close_infos is s))) = set (open_fds s) - {Descriptor i | i. i \<in> set is \<and> Enable i}"
proof (induction "is" arbitrary: s)
  case (Cons i "is")
  have "snd (close_infos (i # is) s) = snd (close_infos is (snd (CInfoSocket_Close i s)))"
    by (simp split: prod.splits)
  then show ?case
    by (auto simp: Cons CInfoSocket_Close_def)
qed simp

lemma destroy_open_fds:
  assumes "ListInfoSelfManaged v" and "CWifiServer_destroy v s = Ok s'"
  shows "set (open_fds s') = set (open_fds s) - {Descriptor i | i. i \<in> set (InfoSockets v) \<and> Enable i} -
    (if Master v = SOCKET_ERROR then {} else {Master v})"
  using assms close_infos_open_fds [of "InfoSockets v" s]
  by (auto simp: CWifiServer_destroy_def CSocketServer_destroy_def CSocket_Close_def split: prod.splits)

text \<open>
  Two objects that share their list of sockets: when one is destroyed the other cannot be, because the list is deleted
  whether or not the object owns it.
\<close>

lemma delete_wifis_fault: "delete_wifis p m = Inl e \<Longrightarrow> e = Undefined_behaviour"
  "delete_wifis p m = Inr m' \<Longrightarrow> socket_lists m' = socket_lists m"
  by (auto simp: pointer_simps rbind_def split: option.splits)

lemma dangling_destroy:
  assumes "sockets_at (Sockets_ptr x) m = None"
  shows "WifiServer_destroy x m s = Fault Undefined_behaviour"
proof -
  have "SocketServer_destroy x m' s = Fault Undefined_behaviour" if "socket_lists m' = socket_lists m" for m'
    using assms that by (simp add: SocketServer_destroy_def sockets_at_def deref_def split: option.splits)
  then show ?thesis
    by (auto simp: WifiServer_destroy_def rbind_def delete_wifis_fault split: sum.splits)
qed

lemma shared_destroyed_twice:
  assumes "\<not> SelfManaged ob" and "Sockets_ptr x = Sockets_ptr ob" and "contents ob m = Some v"
  shows "\<exists>m' s'. WifiServer_destroy ob m s = Ok (m', s') \<and> contents x m' = None \<and>
    WifiServer_destroy x m' s' = Fault Undefined_behaviour"
proof -
  obtain a where l: "Sockets_ptr ob = Some a" "socket_lists m a = Some (InfoSockets v)"
    using assms(3) unfolding contents_Some by blast
  let ?m = "m\<lparr>socket_lists := (socket_lists m)(a := None)\<rparr>"
  obtain s' where "WifiServer_destroy ob m s = Ok (?m, s')"
    using l assms(1) by (cases "close_infos (InfoSockets v) s")
      (auto simp: WifiServer_destroy_def SocketServer_destroy_def pointer_simps)
  moreover have none: "sockets_at (Sockets_ptr x) ?m = None" using assms(2) l by (simp add: sockets_at_def)
  moreover have "contents x ?m = None" using none by (simp add: contents_def split: option.splits)
  ultimately show ?thesis using dangling_destroy [OF none] by blast
qed

section \<open>A copy and its original\<close>

text \<open>
  C40: the copy of a server that owns its lists has the same contents in lists of its own, and destroying the copy
  leaves the lists of the original as they were; but it closes the listening socket and every enabled connection
  of the original, because the descriptors were copied as numbers.
\<close>

theorem copy_closes_original:
  assumes "memory_ok m" and "contents ob m = Some v" and "SelfManaged ob"
  shows "\<exists>c m'. WifiServer_copy ob raw m = Ok (c, m') \<and> contents c m' = Some v \<and> contents ob m' = Some v \<and>
    places ob \<inter> places c = {} \<and>
    (\<forall>s. \<exists>m'' s'. WifiServer_destroy c m' s = Ok (m'', s') \<and> contents ob m'' = Some v \<and>
      set (open_fds s') = set (open_fds s) - {Descriptor i | i. i \<in> set (InfoSockets v) \<and> Enable i} -
        (if Master v = SOCKET_ERROR then {} else {Master v}))"
proof -
  obtain c m' where c: "WifiServer_copy ob raw m = Ok (c, m')" "made m c m' v"
    using copy_owner [OF assms] by blast
  have cv: "contents c m' = Some v" and sep: "separate c" and fresh: "\<And>a. a \<in> places c \<Longrightarrow> next_address m \<le> a"
    and kept: "contents ob m' = Some v"
    using c(2) contents_grows [OF assms(1) _ assms(2)] by (auto simp: made_def)
  have dis: "places ob \<inter> places c = {}" by (rule fresh_disjoint [OF assms(1,2) fresh])
  have own: "ListInfoSelfManaged v" "SelfManaged c"
    using assms(2,3) cv by (auto simp: contents_Some)
  have "\<exists>m'' s'. WifiServer_destroy c m' s = Ok (m'', s') \<and> contents ob m'' = Some v \<and>
      set (open_fds s') = set (open_fds s) - {Descriptor i | i. i \<in> set (InfoSockets v) \<and> Enable i} -
        (if Master v = SOCKET_ERROR then {} else {Master v})" for s
    using destroy_refines [OF own(2) sep cv, of s] destroy_open_fds [OF own(1)] kept dis by blast
  then show ?thesis using c(1) cv kept dis by blast
qed

theorem copy_closes_original_witness:
  "\<exists>ob m c m' m'' s'. contents ob m = Some (CWifiServer_new None\<lparr>Master := 3, InfoSockets := [\<lparr>Descriptor = 4, Enable = True\<rparr>]\<rparr>) \<and>
     WifiServer_copy ob ob m = Ok (c, m') \<and>
     WifiServer_destroy c m' (os_start\<lparr>open_fds := [0, 1, 2, 3, 4]\<rparr>) = Ok (m'', s') \<and> set (open_fds s') = {0, 1, 2}"
proof -
  define v where "v = CWifiServer_new None\<lparr>Master := 3, InfoSockets := [\<lparr>Descriptor = 4, Enable = True\<rparr>]\<rparr>"
  define ob :: WifiServer_object where "ob = \<lparr>Master = 3, Port_field = 0, SelfManaged = True, Sockets_ptr = Some 0,
    MaxDeconnected = 0, Wifis_ptr = Some 1, WifisDeconnected_ptr = Some 2\<rparr>"
  define m where "m = \<lparr>socket_lists = [0 \<mapsto> InfoSockets v], wifi_lists = [1 \<mapsto> [], 2 \<mapsto> []], next_address = 3\<rparr>"
  have "memory_ok m" "SelfManaged ob" by (auto simp: memory_ok_def m_def ob_def)
  moreover have v: "contents ob m = Some v"
    by (simp add: contents_Some m_def ob_def v_def CWifiServer_new_def DefaultValues_def CSocketServer_new_def Init_def
        CSocketServer.defs CSocket.defs CSocket_new_def)
  ultimately obtain c m' where c: "WifiServer_copy ob ob m = Ok (c, m')"
    and d: "\<forall>s. \<exists>m'' s'. WifiServer_destroy c m' s = Ok (m'', s') \<and> contents ob m'' = Some v \<and>
      set (open_fds s') = set (open_fds s) - {Descriptor i | i. i \<in> set (InfoSockets v) \<and> Enable i} -
        (if Master v = SOCKET_ERROR then {} else {Master v})"
    using copy_closes_original [of m ob v ob] by blast
  have "{Descriptor i | i. i \<in> set (InfoSockets v) \<and> Enable i} = {4}" "Master v = 3"
    by (auto simp: v_def)
  then have "\<exists>m'' s'. WifiServer_destroy c m' (os_start\<lparr>open_fds := [0, 1, 2, 3, 4]\<rparr>) = Ok (m'', s') \<and> set (open_fds s') = {0, 1, 2}"
    using d [rule_format, of "os_start\<lparr>open_fds := [0, 1, 2, 3, 4]\<rparr>"] by (auto simp: SOCKET_ERROR_def)
  with c v show ?thesis unfolding v_def by blast
qed

end
