(* ===== verification/Spec2Isabelle.thy ===== *)
theory Spec2Isabelle
  imports Vwifi_Protocol Vwifi_ClientMain Vwifi_EndToEnd Vwifi_Copies
begin

text \<open>
  Verification of vwifi, which joins the simulated radios (\<^verbatim>\<open>mac80211_hwsim\<close>) of virtual machines into one medium.

  \<^bold>\<open>The programs.\<close> \<^verbatim>\<open>vwifi-client\<close> runs in each guest. It registers with the driver through netlink; every frame that a
  radio of the guest sends is handed to it, and it acknowledges the frame to the driver, passes it to the other radios of
  the guest, and sends it with its level to the server. \<^verbatim>\<open>vwifi-server\<close> runs on the host. It accepts guests over TCP and
  VSOCK, and spies, keeps a position for each guest, and sends each frame on to the others with the level that is left
  after the distance, unless the frame is lost; a guest hands what it receives to its radios. \<^verbatim>\<open>vwifi-ctrl\<close> sends
  orders to the server's control port: list, set a position, set a name, losses, scale, distance, close.
  \<^verbatim>\<open>vwifi-add-interfaces\<close> makes radios, and \<^verbatim>\<open>vwifi-inet-monitor\<close> shows link events.

  \<^bold>\<open>The theories\<close>, by layer (all sources are under \<^verbatim>\<open>src/src/\<close>):

    \<^item> \<open>Vwifi_Prelude\<close>: the integer types and constants (\<^verbatim>\<open>types.h\<close>, \<^verbatim>\<open>config.h\<close>), results that may be a fault, little-endian
      coding of words, reading and writing memory; the interfaces \<open>keeps\<close> (an invariant and runs of steps) and \<open>codec\<close>.
    \<^item> \<open>Vwifi_Tools\<close> (\<^verbatim>\<open>tools.cc\<close>), \<open>Vwifi_Radio\<close> (\<^verbatim>\<open>ccoordinate.cc\<close> and the radio model of \<^verbatim>\<open>cwifi.cc\<close>),
      \<open>Vwifi_Select\<close> (\<^verbatim>\<open>cselect.cc\<close>), \<open>Vwifi_Sockets\<close> (\<^verbatim>\<open>cdynbuffer.cc\<close>, \<^verbatim>\<open>csocket.cc\<close> and the operating system's
      sockets), \<open>Vwifi_Infos\<close> (\<^verbatim>\<open>cinfosocket.cc\<close>, \<^verbatim>\<open>cinfowifi.cc\<close>), \<open>Vwifi_Signal\<close> (the framing of \<^verbatim>\<open>cwifi.cc\<close>),
      \<open>Vwifi_Threads\<close> (\<^verbatim>\<open>cthread.cc\<close>).
    \<^item> The server: \<open>Vwifi_Server\<close> (\<^verbatim>\<open>csocketserver.cc\<close> and its address families), \<open>Vwifi_WifiServer\<close>
      (\<^verbatim>\<open>cwifiserver.cc\<close>), \<open>Vwifi_Medium\<close> (its properties), \<open>Vwifi_CtrlServer\<close> (\<^verbatim>\<open>cctrlserver.cc\<close>), \<open>Vwifi_Main\<close>
      (\<^verbatim>\<open>vwifi-server.cc\<close>), \<open>Vwifi_Invariant\<close> (its invariant), \<open>Vwifi_Copies\<close> (the pointers to the lists that
      server objects own or share, when objects are made, copied, assigned and destroyed).
    \<^item> The clients of the server: \<open>Vwifi_Client\<close> (\<^verbatim>\<open>csocketclient.cc\<close> and its address families), \<open>Vwifi_Ctrl\<close>
      (\<^verbatim>\<open>vwifi-ctrl.cc\<close>), \<open>Vwifi_Protocol\<close> (both ends of the control port together).
    \<^item> The guest: \<open>Vwifi_Devices\<close> (\<^verbatim>\<open>cwirelessdevice.cc\<close>, \<^verbatim>\<open>cwirelessdevicelist.cc\<close>), \<open>Vwifi_Netlink\<close>
      (\<^verbatim>\<open>mac80211_hwsim.h\<close> and libnl as the guest uses it), \<open>Vwifi_AddInterfaces\<close> (\<^verbatim>\<open>addinterfaces.cc\<close>,
      \<^verbatim>\<open>vwifi-add-interfaces.cc\<close>), \<open>Vwifi_Monitor\<close> (\<^verbatim>\<open>cmonwirelessdevice.cc\<close>, \<^verbatim>\<open>vwifi-inet-monitor.cc\<close>), \<open>Vwifi_Guest\<close>
      (the frames of \<^verbatim>\<open>ckernelwifi.cc\<close>), \<open>Vwifi_Lifecycle\<close> (its start, threads and end, and \<^verbatim>\<open>cwificlient.h\<close>),
      \<open>Vwifi_GuestInv\<close> (its runs), \<open>Vwifi_ClientMain\<close> (\<^verbatim>\<open>vwifi-client.cc\<close>).
    \<^item> \<open>Vwifi_EndToEnd\<close>: a guest, the server and another guest, joined by the bytes on their connections.

  \<^bold>\<open>State and operations.\<close> A class is a record with its fields, under the names of the source; a method takes the object and
  the operating system and returns them. The operating system is the record \<open>os\<close>: for each descriptor the byte blocks
  that are still to come and the results of the sends to come, everything that was sent, the open descriptors, the
  connections waiting, the random numbers, and which of the calls to come fail. The kernel behind netlink is the record
  \<open>kernel\<close>: which libnl calls to come fail, what family lookups answer, and the messages that were sent. Both are
  arbitrary in the theorems. A result is a value or a fault: undefined behaviour of C++ (an uninitialised read, a
  null pointer, an index out of range, a signed overflow), a failed assertion, an exception that nothing catches, or an exit.
  Machine integers are words, or integers where the source cannot wrap; floating point is real, its conversion to an
  integer a parameter where the result depends on rounding.

  \<^bold>\<open>What is shown.\<close>

    \<^item> All programs together: a frame that a radio of a guest sends is handed to the radios of the other guests with the
      level that their distance leaves, whatever pieces the network cuts the connections into (\<open>Vwifi_EndToEnd\<close>).
    \<^item> The server: its invariant holds in every state it reaches, under any behaviour of the network (\<open>Vwifi_Invariant\<close>);
      a frame reaches exactly the clients that the radio model lets it reach, with the attenuated level, never its sender,
      and a broken client does not disturb the others; joining, leaving and returning keep a client's position and name
      (\<open>Vwifi_Medium\<close>); receiving a frame implements a specification on the byte stream, whatever the segmentation
      (\<open>Vwifi_Signal\<close>).
    \<^item> The control port: each order of \<^verbatim>\<open>vwifi-ctrl\<close> has its effect at a server that receives what it wrote, and prints
      what that server holds (\<open>Vwifi_Protocol\<close>).
    \<^item> The guest: what it does with a frame from the driver and with one from the server, and when the connection breaks
      (\<open>Vwifi_Guest\<close>); it connects again when it can (\<open>Vwifi_Lifecycle\<close>); every reachable state is well-formed, in any
      interleaving of its threads (\<open>Vwifi_GuestInv\<close>); link events are parsed as their attributes say (\<open>Vwifi_Monitor\<close>);
      the list of devices is what was last notified (\<open>Vwifi_Devices\<close>).
    \<^item> Tools: the strings that the argument checks accept, what the command line of \<^verbatim>\<open>vwifi-client\<close> means, radios that
      are created, when a shutdown ends (\<open>Vwifi_Threads\<close>), copies of server objects (\<open>Vwifi_Copies\<close>), the metric, the fading and the overflow of distances.

  \<^bold>\<open>Interfaces.\<close> A locale stands where components meet, interpreted on the model: \<open>keeps\<close> (the server's turns), \<open>codec\<close> (each
  integer on the wire, and positions), \<open>watch_set\<close> (the scheduler), \<open>byte_source\<close> (a socket that is read), \<open>accepting\<close>
  (the two ways to accept), \<open>dialer\<close> and its extension \<open>reconnecting\<close> (the two ways to connect), \<open>device_store\<close> (the map of
  interfaces), \<open>monitor_client\<close> (the callbacks of the guest).

  \<^bold>\<open>Termination.\<close> Loops over lists and descriptors are total functions. A loop that the source may never leave is a
  \<^theory_text>\<open>partial_function (option)\<close>, \<^const>\<open>None\<close> when it does not end: the loops that connect, the wait for the driver, the
  dump of nl80211. That it ends is proved where it does: \<open>connect_loop_returns\<close> and \<open>reconnects\<close> say when. No fuel
  is used.

  \<^bold>\<open>Not modelled.\<close> What is printed to \<^verbatim>\<open>cerr\<close>, and to \<^verbatim>\<open>cout\<close> except for \<^verbatim>\<open>vwifi-ctrl\<close> and the devices; debug code; the
  length of pauses (a pause of the guest is a point where a signal may come); mutexes, whose sections are single steps; the
  signal that wakes a blocked thread, \<^verbatim>\<open>join\<close>, and the wait inside \<^verbatim>\<open>stop\<close>, of which only the condition is there; the flags
  and attributes of rates and the virtio queues of \<^verbatim>\<open>mac80211_hwsim.h\<close>, which no program uses; the netlink socket that \<^verbatim>\<open>monitor_hwsim_loop\<close> opens
  for itself. The steps of the guest's threads are atomic turns of their loops, and the link events that come while it
  still connects are handled when it has started. libnl is not under \<^verbatim>\<open>src/\<close>: \<^verbatim>\<open>genlmsg_parse\<close> is a parameter that gives the place of
  each attribute, and what libnl parses of nl80211 is an argument; the kernel's \<^verbatim>\<open>IFLA_MAX\<close> is a parameter.
\<close>

end
